theory Spec2Isabelle
  imports Main
begin

section \<open>Symbolic expressions\<close>

text \<open>
  The intermediate representation's index expressions. A variable is an object with an
  identity: two variables with the same name hint are different when their identities
  differ, as two \<^verbatim>\<open>VarNode\<close> objects are.
\<close>

datatype TypeCode = kInt | kUInt | kFloat | kHandle

datatype DataType = DataType (code: TypeCode) (bits: nat) (lanes: nat)

definition is_int :: "DataType \<Rightarrow> bool" where
  "is_int t = (code t = kInt)"

definition is_uint :: "DataType \<Rightarrow> bool" where
  "is_uint t = (code t = kUInt)"

definition is_bool :: "DataType \<Rightarrow> bool" where
  "is_bool t = (code t = kUInt \<and> bits t = 1)"

definition Int32 :: DataType where
  "Int32 = DataType kInt 32 1"

definition Bool1 :: DataType where
  "Bool1 = DataType kUInt 1 1"

datatype Var = Var (name_hint: string) (var_id: nat) (var_dtype: DataType)

datatype BinOp =
    AddOp | SubOp | MulOp | DivOp | ModOp | FloorDivOp | FloorModOp | MinOp | MaxOp
  | EQOp | NEOp | LTOp | LEOp | GTOp | GEOp | AndOp | OrOp

datatype CallType = Extern | ExternCPlusPlus | PureExtern | Halide | Intrinsic | PureIntrinsic

text \<open>
  The callee of a call node: no callee object (an intrinsic), a derivation function
  (with the flag "its body is defined"), or a tensor operation.
\<close>

datatype FunctionRef = NoFunc | UninterpFunRef nat bool | OperationRef nat

datatype PrimExpr =
    VarNode Var
  | SizeVarNode Var
  | IntImmNode DataType int
  | StringImmNode string
  | CastNode DataType PrimExpr
  | NotNode PrimExpr
  | BinaryNode BinOp PrimExpr PrimExpr
  | SelectNode PrimExpr PrimExpr PrimExpr
  | LoadNode DataType Var PrimExpr
  | CallNode DataType string "PrimExpr list" CallType FunctionRef

definition is_compare :: "BinOp \<Rightarrow> bool" where
  "is_compare b = (b \<in> {EQOp, NEOp, LTOp, LEOp, GTOp, GEOp, AndOp, OrOp})"

fun dtype_of :: "PrimExpr \<Rightarrow> DataType" where
  "dtype_of (VarNode v) = var_dtype v"
| "dtype_of (SizeVarNode v) = var_dtype v"
| "dtype_of (IntImmNode t _) = t"
| "dtype_of (StringImmNode _) = DataType kHandle 64 1"
| "dtype_of (CastNode t _) = t"
| "dtype_of (NotNode _) = Bool1"
| "dtype_of (BinaryNode b x _) = (if is_compare b then Bool1 else dtype_of x)"
| "dtype_of (SelectNode _ x _) = dtype_of x"
| "dtype_of (LoadNode t _ _) = t"
| "dtype_of (CallNode t _ _ _ _) = t"

text \<open>\<open>is_intrinsic ct n nm\<close>: a call of type \<open>ct\<close> and name \<open>n\<close> is the intrinsic \<open>nm\<close>.\<close>

definition is_intrinsic :: "CallType \<Rightarrow> string \<Rightarrow> string \<Rightarrow> bool" where
  "is_intrinsic ct n nm = ((ct = Intrinsic \<or> ct = PureIntrinsic) \<and> n = nm)"

datatype error = Fatal string | InvalidArgument string | Z3Exception string

section \<open>Loop variables, dimensions and tensors\<close>

datatype IterVarType =
    kDataPar | kThreadIndex | kCommReduce | kOrdered | kOpaque | kUnrolled | kVectorized
  | kParallelized | kTensorized | kPeeled | kSplit | kLoopNestOpaque

text \<open>
  A loop variable: its variable, its iteration type and its thread tag (empty when the
  variable is no thread axis). Two loop variables are the same object when they agree on
  these; the variable carries the identity.
\<close>

record IterVar =
  iv_var :: Var
  iter_type :: IterVarType
  thread_tag :: string

text \<open>
  A dimension is an object with a name and one kind. The class of dimensions is not
  among the sources; the layout rewriter makes dimensions of the kinds
  \<^verbatim>\<open>kRangeDim\<close> and \<^verbatim>\<open>kFunDim\<close>, and treats the kinds up to
  \<^verbatim>\<open>kRangeDim\<close> as those with a range of their own
  (\<^verbatim>\<open>type <= DimensionNode::kRangeDim\<close>); \<open>kScanDim\<close> stands for the kinds below
  \<^verbatim>\<open>kRangeDim\<close>.
\<close>

datatype DimensionType = kScanDim | kRangeDim | kFunDim

record Dimension =
  dim_name :: string
  dim_id :: nat
  dim_type :: DimensionType

text \<open>
  Modelled from the spec: a functional dimension is one whose value is computed by a
  function of other dimensions, a loop dimension one with a direct range. The two
  questions the code asks of a dimension, \<^verbatim>\<open>isFunDim()\<close> and
  \<^verbatim>\<open>isLoopDim()\<close>, read its kind.
\<close>

definition isFunDim :: "Dimension \<Rightarrow> bool" where
  "isFunDim d = (dim_type d = kFunDim)"

definition isLoopDim :: "Dimension \<Rightarrow> bool" where
  "isLoopDim d = (dim_type d = kScanDim \<or> dim_type d = kRangeDim)"

record Tensor =
  tensor_op :: nat
  value_index :: nat

text \<open>A derivation function: its identity, its name and the dimensions it reads.\<close>

record UninterpFun =
  ufun_id :: nat
  fname :: string
  dimensions :: "Dimension list"

record DimInfo =
  di_dim :: Dimension
  di_iv :: IterVar
  di_ufun :: UninterpFun

section \<open>Thread-sync planner\<close>

subsection \<open>Access facts\<close>

text \<open>
  A touched set is a handle that is undefined, or an interval given by two bound
  expressions. \<open>single_point e\<close> is the interval whose two bounds are the same
  expression object (what \<^verbatim>\<open>min.same_as(max)\<close> tests); \<open>interval lo hi\<close> has
  two distinct bound objects, even when they are structurally equal. Reading a bound of
  an undefined set is a fatal check.
\<close>

datatype IntSet = undefined_set | single_point PrimExpr | interval PrimExpr PrimExpr

fun is_single_point :: "IntSet \<Rightarrow> bool" where
  "is_single_point (single_point _) = True"
| "is_single_point _ = False"

fun IntSet_min :: "IntSet \<Rightarrow> error + PrimExpr" where
  "IntSet_min undefined_set = Inl (Fatal ''Check failed: s_int'')"
| "IntSet_min (single_point e) = Inr e"
| "IntSet_min (interval lo hi) = Inr lo"

fun IntSet_max :: "IntSet \<Rightarrow> error + PrimExpr" where
  "IntSet_max undefined_set = Inl (Fatal ''Check failed: s_int'')"
| "IntSet_max (single_point e) = Inr e"
| "IntSet_max (interval lo hi) = Inr hi"

datatype AccessType = kRead | kWrite | kSync | kAlloc

datatype StorageRank = kGlobal | kShared | kWarp | kLocal

record StorageScope =
  rank :: StorageRank
  scope_tag :: string

record AccessEntry =
  threads :: "IterVar list"
  buffer :: "Var option"
  dtype :: DataType
  touched :: IntSet
  acc_type :: AccessType
  scope :: StorageScope
  double_buffer_write :: bool

record StmtEntry =
  stmt :: nat
  access :: "AccessEntry list"

datatype ForType = Serial | Parallel | Vectorized | Unrolled | Peeled

record ForNode =
  loop_var :: Var
  for_type :: ForType

text \<open>
  The symbolic analyzer is an external oracle: \<open>CanProve\<close> and \<open>Simplify\<close>. The planner
  builds one per conflict query and binds the range of every environment thread whose
  extent is known; \<open>analyzer_of\<close> is that construction.
\<close>

record Analyzer =
  CanProve :: "PrimExpr \<Rightarrow> bool"
  Simplify :: "PrimExpr \<Rightarrow> PrimExpr"

record PlannerEnv =
  env_threads :: "IterVar list"
  get_thread_extent :: "IterVar \<Rightarrow> (PrimExpr \<times> PrimExpr) option"
  analyzer_of :: "(Var \<times> PrimExpr \<times> PrimExpr) list \<Rightarrow> Analyzer"
  condition_counter :: nat
  sync_scope :: StorageScope
  default_dtype :: DataType

subsection \<open>The conflict test\<close>

definition thread_binds :: "PlannerEnv \<Rightarrow> (Var \<times> PrimExpr \<times> PrimExpr) list" where
  "thread_binds pe =
     concat (map (\<lambda>iv. case get_thread_extent pe iv of
                          None \<Rightarrow> []
                        | Some r \<Rightarrow> [(iv_var iv, r)]) (env_threads pe))"

text \<open>
  One round of the loop over \<open>vec\<close>. \<open>Inr True\<close> is the \<^verbatim>\<open>return true\<close> of the
  source, \<open>Inr False\<close> its \<^verbatim>\<open>continue\<close>.
\<close>

definition conflict_with :: "Analyzer \<Rightarrow> AccessEntry \<Rightarrow> AccessEntry \<Rightarrow> bool \<Rightarrow> error + bool" where
  "conflict_with an x e loop_carry =
     (if buffer x \<noteq> buffer e then Inr False
      else if (case (touched e, touched x) of
                 (single_point pe, single_point px) \<Rightarrow> Simplify an pe = Simplify an px
               | _ \<Rightarrow> False)
      then Inr False
      else
        (case (IntSet_max (touched x), IntSet_min (touched e),
               IntSet_max (touched e), IntSet_min (touched x)) of
           (Inr max1, Inr min2, Inr max2, Inr min1) \<Rightarrow>
             (if CanProve an (BinaryNode LTOp max1 min2) \<or>
                 CanProve an (BinaryNode GTOp max2 min1) then Inr False
              else if double_buffer_write x \<and> acc_type e = kRead \<and> \<not> loop_carry
              then Inr False
              else Inr True)
         | _ \<Rightarrow> Inl (Fatal ''Check failed: s_int'')))"

fun FindConflict_loop :: "Analyzer \<Rightarrow> AccessEntry list \<Rightarrow> AccessEntry \<Rightarrow> bool \<Rightarrow> error + bool" where
  "FindConflict_loop an [] e loop_carry = Inr False"
| "FindConflict_loop an (x # vec) e loop_carry =
     (case conflict_with an x e loop_carry of
        Inl err \<Rightarrow> Inl err
      | Inr True \<Rightarrow> Inr True
      | Inr False \<Rightarrow> FindConflict_loop an vec e loop_carry)"

definition FindConflict :: "PlannerEnv \<Rightarrow> AccessEntry list \<Rightarrow> AccessEntry \<Rightarrow> bool \<Rightarrow> error + bool" where
  "FindConflict pe vec e loop_carry =
     FindConflict_loop (analyzer_of pe (thread_binds pe)) vec e loop_carry"

subsection \<open>Variable replacement\<close>

text \<open>
  Modelled from the spec: the variable replacer (\<^verbatim>\<open>var_replacer.h\<close> is not among the
  sources) substitutes an expression for every occurrence of a variable. \<open>VarReplacer v r\<close>
  replaces \<open>v\<close> by \<open>r\<close>.
\<close>

fun VarReplacer :: "Var \<Rightarrow> PrimExpr \<Rightarrow> PrimExpr \<Rightarrow> PrimExpr" where
  "VarReplacer v r (VarNode w) = (if w = v then r else VarNode w)"
| "VarReplacer v r (SizeVarNode w) = (if w = v then r else SizeVarNode w)"
| "VarReplacer v r (IntImmNode t n) = IntImmNode t n"
| "VarReplacer v r (StringImmNode s) = StringImmNode s"
| "VarReplacer v r (CastNode t a) = CastNode t (VarReplacer v r a)"
| "VarReplacer v r (NotNode a) = NotNode (VarReplacer v r a)"
| "VarReplacer v r (BinaryNode b x y) = BinaryNode b (VarReplacer v r x) (VarReplacer v r y)"
| "VarReplacer v r (SelectNode c x y) =
     SelectNode (VarReplacer v r c) (VarReplacer v r x) (VarReplacer v r y)"
| "VarReplacer v r (LoadNode t b i) = LoadNode t b (VarReplacer v r i)"
| "VarReplacer v r (CallNode t n args ct f) = CallNode t n (map (VarReplacer v r) args) ct f"

definition next_iteration :: "Var \<Rightarrow> PrimExpr" where
  "next_iteration v = BinaryNode AddOp (VarNode v) (IntImmNode (var_dtype v) 1)"

subsection \<open>Summarize\<close>

text \<open>
  The forward scan over the accesses of one statement (first pass). The result is
  (a conflict was found and the scan stopped, unsynced reads, unsynced writes).
\<close>

fun pass1_accesses ::
  "PlannerEnv \<Rightarrow> AccessEntry list \<Rightarrow> AccessEntry list \<Rightarrow> AccessEntry list \<Rightarrow>
   error + (bool \<times> AccessEntry list \<times> AccessEntry list)" where
  "pass1_accesses pe [] reads writes = Inr (False, reads, writes)"
| "pass1_accesses pe (acc # accs) reads writes =
     (if acc_type acc = kRead then
        (case FindConflict pe writes acc False of
           Inl err \<Rightarrow> Inl err
         | Inr True \<Rightarrow> Inr (True, reads, writes)
         | Inr False \<Rightarrow> pass1_accesses pe accs reads writes)
      else if acc_type acc = kWrite then
        (case FindConflict pe reads acc False of
           Inl err \<Rightarrow> Inl err
         | Inr True \<Rightarrow> Inr (True, reads, writes)
         | Inr False \<Rightarrow> pass1_accesses pe accs reads writes)
      else if acc_type acc = kSync then pass1_accesses pe accs [] []
      else pass1_accesses pe accs reads writes)"

fun add_accesses ::
  "AccessEntry list \<Rightarrow> AccessEntry list \<Rightarrow> AccessEntry list \<Rightarrow>
   AccessEntry list \<times> AccessEntry list" where
  "add_accesses [] reads writes = (reads, writes)"
| "add_accesses (acc # accs) reads writes =
     (if acc_type acc = kRead then add_accesses accs (reads @ [acc]) writes
      else if acc_type acc = kWrite then add_accesses accs reads (writes @ [acc])
      else if acc_type acc = kSync then add_accesses accs [] []
      else add_accesses accs reads writes)"

fun pass1 ::
  "PlannerEnv \<Rightarrow> StmtEntry list \<Rightarrow> nat set \<Rightarrow> AccessEntry list \<Rightarrow> AccessEntry list \<Rightarrow>
   error + (nat set \<times> AccessEntry list \<times> AccessEntry list)" where
  "pass1 pe [] syncs reads writes = Inr (syncs, reads, writes)"
| "pass1 pe (s # seq) syncs reads writes =
     (let marked = (stmt s \<in> syncs);
          r0 = (if marked then [] else reads);
          w0 = (if marked then [] else writes)
      in case pass1_accesses pe (access s) r0 w0 of
           Inl err \<Rightarrow> Inl err
         | Inr (found, r1, w1) \<Rightarrow>
             (let sync_before_stmt = (marked \<or> found);
                  r2 = (if sync_before_stmt then [] else r1);
                  w2 = (if sync_before_stmt then [] else w1);
                  rw = add_accesses (access s) r2 w2
              in if sync_before_stmt then
                   (if condition_counter pe \<noteq> 0
                    then Inl (Fatal ''Cannot insert syncs inside condition'')
                    else pass1 pe seq (insert (stmt s) syncs) (fst rw) (snd rw))
                 else pass1 pe seq syncs (fst rw) (snd rw)))"

text \<open>
  The access that the loop-carry pass tests in place of \<open>acc\<close>: for a serial loop a new
  entry, built field by field, whose touched set has the loop variable replaced by the
  loop variable plus one; for any other loop the access itself.
\<close>

definition updatedForSequentialLoop :: "ForNode \<Rightarrow> AccessEntry \<Rightarrow> error + AccessEntry" where
  "updatedForSequentialLoop loop acc =
     (if for_type loop = Serial then
        (case (IntSet_min (touched acc), IntSet_max (touched acc)) of
           (Inr oldMin, Inr oldMax) \<Rightarrow>
             (let varReplacer = VarReplacer (loop_var loop) (next_iteration (loop_var loop))
              in Inr \<lparr> threads = threads acc,
                       buffer = buffer acc,
                       dtype = dtype acc,
                       touched = (if is_single_point (touched acc)
                                  then single_point (varReplacer oldMin)
                                  else interval (varReplacer oldMin) (varReplacer oldMax)),
                       acc_type = acc_type acc,
                       scope = scope acc,
                       double_buffer_write = double_buffer_write acc \<rparr>)
         | _ \<Rightarrow> Inl (Fatal ''Check failed: s_int''))
      else Inr acc)"

fun pass2_accesses ::
  "PlannerEnv \<Rightarrow> ForNode \<Rightarrow> AccessEntry list \<Rightarrow> AccessEntry list \<Rightarrow> AccessEntry list \<Rightarrow>
   error + (bool \<times> AccessEntry list \<times> AccessEntry list)" where
  "pass2_accesses pe loop [] reads writes = Inr (False, reads, writes)"
| "pass2_accesses pe loop (acc # accs) reads writes =
     (case updatedForSequentialLoop loop acc of
        Inl err \<Rightarrow> Inl err
      | Inr upd \<Rightarrow>
          (if acc_type upd = kRead then
             (case FindConflict pe writes upd True of
                Inl err \<Rightarrow> Inl err
              | Inr True \<Rightarrow> Inr (True, reads, writes)
              | Inr False \<Rightarrow> pass2_accesses pe loop accs reads writes)
           else if acc_type upd = kWrite then
             (case FindConflict pe reads upd True of
                Inl err \<Rightarrow> Inl err
              | Inr True \<Rightarrow> Inr (True, reads, writes)
              | Inr False \<Rightarrow> pass2_accesses pe loop accs reads writes)
           else if acc_type upd = kSync then pass2_accesses pe loop accs [] []
           else pass2_accesses pe loop accs reads writes))"

fun pass2 ::
  "PlannerEnv \<Rightarrow> ForNode \<Rightarrow> StmtEntry list \<Rightarrow> nat set \<Rightarrow> AccessEntry list \<Rightarrow>
   AccessEntry list \<Rightarrow> error + nat set" where
  "pass2 pe loop [] syncs reads writes = Inr syncs"
| "pass2 pe loop (s # seq) syncs reads writes =
     (if stmt s \<in> syncs then Inr syncs
      else if reads = [] \<and> writes = [] then Inr syncs
      else case pass2_accesses pe loop (access s) reads writes of
             Inl err \<Rightarrow> Inl err
           | Inr (found, r1, w1) \<Rightarrow>
               (if found then
                  (if condition_counter pe \<noteq> 0
                   then Inl (Fatal ''Cannot insert syncs inside condition'')
                   else Inr (insert (stmt s) syncs))
                else pass2 pe loop seq syncs r1 w1))"

text \<open>The synthetic sync fact of the summary.\<close>

definition esync :: "PlannerEnv \<Rightarrow> AccessEntry" where
  "esync pe = \<lparr> threads = env_threads pe, buffer = None, dtype = default_dtype pe,
                touched = undefined_set, acc_type = kSync, scope = sync_scope pe,
                double_buffer_write = False \<rparr>"

text \<open>
  The compression loop. The state is (sync count, head, tail): head holds what comes
  before the first sync, tail what comes after the last one.
\<close>

definition on_sync ::
  "AccessEntry \<Rightarrow> nat \<times> AccessEntry list \<times> AccessEntry list \<Rightarrow>
   nat \<times> AccessEntry list \<times> AccessEntry list" where
  "on_sync es st =
     (case st of (sync_count, head, tail) \<Rightarrow>
        if sync_count \<noteq> 0 then (sync_count + 1, head, [])
        else (sync_count + 1, head @ [es], tail))"

fun compress_accesses ::
  "AccessEntry \<Rightarrow> AccessEntry list \<Rightarrow> nat \<times> AccessEntry list \<times> AccessEntry list \<Rightarrow>
   nat \<times> AccessEntry list \<times> AccessEntry list" where
  "compress_accesses es [] st = st"
| "compress_accesses es (acc # accs) st =
     (if acc_type acc = kSync then compress_accesses es accs (on_sync es st)
      else case st of (sync_count, head, tail) \<Rightarrow>
        if sync_count \<noteq> 0 then compress_accesses es accs (sync_count, head, tail @ [acc])
        else compress_accesses es accs (sync_count, head @ [acc], tail))"

fun compress_seq ::
  "nat set \<Rightarrow> AccessEntry \<Rightarrow> StmtEntry list \<Rightarrow> nat \<times> AccessEntry list \<times> AccessEntry list \<Rightarrow>
   nat \<times> AccessEntry list \<times> AccessEntry list" where
  "compress_seq syncs es [] st = st"
| "compress_seq syncs es (s # seq) st =
     compress_seq syncs es seq
       (compress_accesses es (access s) (if stmt s \<in> syncs then on_sync es st else st))"

definition exposed :: "PlannerEnv \<Rightarrow> nat set \<Rightarrow> StmtEntry list \<Rightarrow> ForNode option \<Rightarrow> AccessEntry list" where
  "exposed pe syncs seq loop =
     (case compress_seq syncs (esync pe) seq (0, [], []) of
        (sync_count, head, tail) \<Rightarrow>
          (case loop of
             None \<Rightarrow> head @ tail
           | Some l \<Rightarrow> map (\<lambda>e. e\<lparr>double_buffer_write := False\<rparr>) (head @ tail)))"

text \<open>
  \<open>Summarize\<close> takes the set of statements already marked for a sync and returns the
  exposed accesses with the updated set.
\<close>

definition Summarize ::
  "PlannerEnv \<Rightarrow> nat set \<Rightarrow> StmtEntry list \<Rightarrow> ForNode option \<Rightarrow>
   error + (AccessEntry list \<times> nat set)" where
  "Summarize pe syncs_inserted seq loop =
     (case pass1 pe seq syncs_inserted [] [] of
        Inl err \<Rightarrow> Inl err
      | Inr (syncs1, reads, writes) \<Rightarrow>
          (case (case loop of
                   None \<Rightarrow> Inr syncs1
                 | Some l \<Rightarrow> pass2 pe l seq syncs1 reads writes) of
             Inl err \<Rightarrow> Inl err
           | Inr syncs2 \<Rightarrow> Inr (exposed pe syncs2 seq loop, syncs2)))"

subsection \<open>The summary, in terms of the order of events\<close>

text \<open>
  The events of a statement sequence in program order: a sync point for every statement
  marked for a sync (before its accesses) and for every sync fact, an access for every
  other fact.
\<close>

datatype TraceEvent = SyncPoint | Access AccessEntry

fun entries :: "TraceEvent list \<Rightarrow> AccessEntry list" where
  "entries [] = []"
| "entries (SyncPoint # t) = entries t"
| "entries (Access a # t) = a # entries t"

definition sync_trace :: "nat set \<Rightarrow> StmtEntry list \<Rightarrow> TraceEvent list" where
  "sync_trace syncs seq =
     concat (map (\<lambda>s. (if stmt s \<in> syncs then [SyncPoint] else []) @
                       map (\<lambda>a. if acc_type a = kSync then SyncPoint else Access a) (access s)) seq)"

definition before_first_sync :: "TraceEvent list \<Rightarrow> AccessEntry list" where
  "before_first_sync t = entries (takeWhile (\<lambda>e. e \<noteq> SyncPoint) t)"

definition after_last_sync :: "TraceEvent list \<Rightarrow> AccessEntry list" where
  "after_last_sync t = entries (rev (takeWhile (\<lambda>e. e \<noteq> SyncPoint) (rev t)))"

definition summary_of_trace :: "AccessEntry \<Rightarrow> TraceEvent list \<Rightarrow> AccessEntry list" where
  "summary_of_trace es t =
     before_first_sync t @ (if SyncPoint \<in> set t then es # after_last_sync t else [])"

fun compress_trace ::
  "AccessEntry \<Rightarrow> TraceEvent list \<Rightarrow> nat \<times> AccessEntry list \<times> AccessEntry list \<Rightarrow>
   nat \<times> AccessEntry list \<times> AccessEntry list" where
  "compress_trace es [] st = st"
| "compress_trace es (SyncPoint # t) st = compress_trace es t (on_sync es st)"
| "compress_trace es (Access a # t) (n, h, ta) =
     (if n \<noteq> 0 then compress_trace es t (n, h, ta @ [a])
      else compress_trace es t (n, h @ [a], ta))"

subsection \<open>The loop-carry pass, in the words of the specification\<close>

text \<open>
  The specification's reading of the loop-carry pass. In a serial loop every fact of the
  body is shifted to the next iteration before it is tested: in both bounds of its
  touched interval the loop variable is replaced by the loop variable plus one. In any
  other loop the fact is tested as it is. The shift reads the two bounds of the interval,
  so a fact that has no interval (a sync fact) stops the pass of a serial loop with the
  fatal check of the bound read.
\<close>

definition plus_one :: "Var \<Rightarrow> PrimExpr" where
  "plus_one v = BinaryNode AddOp (VarNode v) (IntImmNode (var_dtype v) 1)"

definition shift_touched :: "Var \<Rightarrow> IntSet \<Rightarrow> error + IntSet" where
  "shift_touched v s =
     (case s of
        undefined_set \<Rightarrow> Inl (Fatal ''Check failed: s_int'')
      | single_point e \<Rightarrow> Inr (single_point (VarReplacer v (plus_one v) e))
      | interval lo hi \<Rightarrow>
          Inr (interval (VarReplacer v (plus_one v) lo) (VarReplacer v (plus_one v) hi)))"

definition next_iteration_access :: "ForNode \<Rightarrow> AccessEntry \<Rightarrow> error + AccessEntry" where
  "next_iteration_access loop acc =
     (if for_type loop = Serial then
        (case shift_touched (loop_var loop) (touched acc) of
           Inl err \<Rightarrow> Inl err
         | Inr s \<Rightarrow> Inr (acc\<lparr>touched := s\<rparr>))
      else Inr acc)"

text \<open>
  The accumulated set that a fact is tested against: the writes for a read, the reads for
  a write, nothing for any other fact.
\<close>

definition opposite_kind ::
  "AccessEntry \<Rightarrow> AccessEntry list \<Rightarrow> AccessEntry list \<Rightarrow> AccessEntry list" where
  "opposite_kind acc reads writes =
     (if acc_type acc = kRead then writes else if acc_type acc = kWrite then reads else [])"

text \<open>
  The test of the facts of one statement, and of the statements of the body up to the
  first that is marked for a sync, that finds both accumulated sets empty, or that
  conflicts (it is then marked). A sync fact empties the accumulated sets.
\<close>

fun carry_test_accesses ::
  "PlannerEnv \<Rightarrow> ForNode \<Rightarrow> AccessEntry list \<Rightarrow> AccessEntry list \<Rightarrow> AccessEntry list \<Rightarrow>
   error + (bool \<times> AccessEntry list \<times> AccessEntry list)" where
  "carry_test_accesses pe loop [] reads writes = Inr (False, reads, writes)"
| "carry_test_accesses pe loop (acc # accs) reads writes =
     (case next_iteration_access loop acc of
        Inl err \<Rightarrow> Inl err
      | Inr shifted \<Rightarrow>
          (if acc_type acc = kSync then carry_test_accesses pe loop accs [] []
           else
             (case FindConflict pe (opposite_kind acc reads writes) shifted True of
                Inl err \<Rightarrow> Inl err
              | Inr True \<Rightarrow> Inr (True, reads, writes)
              | Inr False \<Rightarrow> carry_test_accesses pe loop accs reads writes)))"

fun carry_test ::
  "PlannerEnv \<Rightarrow> ForNode \<Rightarrow> StmtEntry list \<Rightarrow> nat set \<Rightarrow> AccessEntry list \<Rightarrow>
   AccessEntry list \<Rightarrow> error + nat set" where
  "carry_test pe loop [] syncs reads writes = Inr syncs"
| "carry_test pe loop (s # seq) syncs reads writes =
     (if stmt s \<in> syncs then Inr syncs
      else if reads = [] \<and> writes = [] then Inr syncs
      else case carry_test_accesses pe loop (access s) reads writes of
             Inl err \<Rightarrow> Inl err
           | Inr (found, r1, w1) \<Rightarrow>
               (if found then
                  (if condition_counter pe \<noteq> 0
                   then Inl (Fatal ''Cannot insert syncs inside condition'')
                   else Inr (insert (stmt s) syncs))
                else carry_test pe loop seq syncs r1 w1))"

subsection \<open>Example inputs of the planner\<close>

text \<open>
  An analyzer that proves exactly the strict comparisons of two integer constants that
  are true, and simplifies nothing. It is sound: what it proves holds.
\<close>

definition const_analyzer :: Analyzer where
  "const_analyzer =
     \<lparr> CanProve = (\<lambda>e. case e of
          BinaryNode LTOp (IntImmNode _ a) (IntImmNode _ b) \<Rightarrow> a < b
        | BinaryNode GTOp (IntImmNode _ a) (IntImmNode _ b) \<Rightarrow> a > b
        | _ \<Rightarrow> False),
       Simplify = (\<lambda>e. e) \<rparr>"

definition shared_scope :: StorageScope where
  "shared_scope = \<lparr> rank = kShared, scope_tag = [] \<rparr>"

definition ex_env :: PlannerEnv where
  "ex_env = \<lparr> env_threads = [], get_thread_extent = (\<lambda>_. None),
               analyzer_of = (\<lambda>_. const_analyzer), condition_counter = 0,
               sync_scope = shared_scope, default_dtype = Int32 \<rparr>"

definition ex_buffer :: Var where
  "ex_buffer = Var ''A'' 1 (DataType kHandle 64 1)"

definition ex_access :: "AccessType \<Rightarrow> int \<Rightarrow> int \<Rightarrow> AccessEntry" where
  "ex_access t lo hi =
     \<lparr> threads = [], buffer = Some ex_buffer, dtype = Int32,
       touched = interval (IntImmNode Int32 lo) (IntImmNode Int32 hi), acc_type = t,
       scope = shared_scope, double_buffer_write = False \<rparr>"

definition ex_loop_var :: Var where
  "ex_loop_var = Var ''i'' 2 Int32"

definition ex_point_access :: "AccessType \<Rightarrow> PrimExpr \<Rightarrow> AccessEntry" where
  "ex_point_access t e =
     \<lparr> threads = [], buffer = Some ex_buffer, dtype = Int32,
       touched = single_point e, acc_type = t,
       scope = shared_scope, double_buffer_write = False \<rparr>"

definition ex_seq :: "StmtEntry list" where
  "ex_seq = [\<lparr> stmt = 0, access = [ex_access kWrite 20 30] \<rparr>,
             \<lparr> stmt = 1, access = [ex_access kRead 0 20] \<rparr>]"

definition ex_loop :: ForNode where
  "ex_loop = \<lparr> loop_var = ex_loop_var, for_type = Serial \<rparr>"

definition ex_loop_body :: "StmtEntry list" where
  "ex_loop_body = [\<lparr> stmt = 0, access = [ex_point_access kWrite (VarNode ex_loop_var)] \<rparr>,
                   \<lparr> stmt = 1, access = [ex_point_access kRead (VarNode ex_loop_var)] \<rparr>]"

definition ex_parallel_loop :: ForNode where
  "ex_parallel_loop = \<lparr> loop_var = ex_loop_var, for_type = Parallel \<rparr>"

text \<open>A loop body whose first statement holds a sync fact.\<close>

definition ex_sync_body :: "StmtEntry list" where
  "ex_sync_body = [\<lparr> stmt = 0, access = [esync ex_env] \<rparr>,
                   \<lparr> stmt = 1, access = [ex_point_access kRead (VarNode ex_loop_var)] \<rparr>]"

section \<open>Thread-sync inserter\<close>

text \<open>
  Statements. Every statement node carries its object identity, which is what the set of
  planned sync points holds. A node that the pass rebuilds around rewritten children keeps
  the identity of the node it copies (identities are read only on the way down, on nodes
  of the input); a node that the pass creates takes a fresh identity.
\<close>

datatype AttrObject = IterVarObject IterVar | VarObject Var | OtherObject nat | NullObject

datatype Stmt =
    LetStmt nat Var PrimExpr Stmt
  | AttrStmt nat AttrObject string PrimExpr Stmt
  | Store nat Var PrimExpr PrimExpr
  | For nat Var PrimExpr PrimExpr ForType Stmt
  | IfThenElse nat PrimExpr Stmt "Stmt option"
  | SeqStmt nat "Stmt list"
  | Evaluate nat PrimExpr
  | GlobalBarrier nat string "PrimExpr option" "PrimExpr option"

text \<open>
  \<open>GlobalBarrier i s lead blocks\<close> stands for the statement
  \<^verbatim>\<open>Evaluate(Call(tvm_storage_sync, {s, is_lead, num_blocks}))\<close>, whose last two
  arguments may be undefined expressions.
\<close>

fun stmt_id :: "Stmt \<Rightarrow> nat" where
  "stmt_id (LetStmt i _ _ _) = i"
| "stmt_id (AttrStmt i _ _ _ _) = i"
| "stmt_id (Store i _ _ _) = i"
| "stmt_id (For i _ _ _ _ _) = i"
| "stmt_id (IfThenElse i _ _ _) = i"
| "stmt_id (SeqStmt i _) = i"
| "stmt_id (Evaluate i _) = i"
| "stmt_id (GlobalBarrier i _ _ _) = i"

record Entry =
  read_count :: int
  write_count :: int

text \<open>
  What the inserter takes from outside: its sync scope, the planned sync points, and the
  scope helpers of the runtime (parsing and printing a storage scope, the rank of a thread
  tag), which are not among the sources.
\<close>

record InserterEnv =
  ins_sync_scope :: StorageScope
  syncs' :: "nat set"
  scope_make :: "string \<Rightarrow> error + StorageScope"
  scope_to_string :: "StorageScope \<Rightarrow> string"
  thread_scope_rank :: "string \<Rightarrow> error + nat"

record InserterState =
  storage_scope' :: "Var option \<Rightarrow> StorageScope option"
  rw_stats' :: "(Var option \<times> Entry) list"
  in_thread_env' :: bool
  thread_extents' :: "(AttrObject \<times> PrimExpr) list"
  num_work_dim' :: nat
  num_blocks' :: "PrimExpr option"
  is_lead' :: "PrimExpr option"
  next_object :: nat

definition GetScope :: "InserterState \<Rightarrow> Var option \<Rightarrow> StorageScope" where
  "GetScope st buf =
     (case storage_scope' st buf of
        None \<Rightarrow> \<lparr> rank = kGlobal, scope_tag = [] \<rparr>
      | Some s \<Rightarrow> s)"

fun bump_stats ::
  "bool \<Rightarrow> Var option \<Rightarrow> (Var option \<times> Entry) list \<Rightarrow> (Var option \<times> Entry) list" where
  "bump_stats is_read v [] =
     [(v, if is_read then \<lparr> read_count = 1, write_count = 0 \<rparr>
          else \<lparr> read_count = 0, write_count = 1 \<rparr>)]"
| "bump_stats is_read v ((w, e) # rest) =
     (if w = v then
        (w, if is_read then e\<lparr>read_count := read_count e + 1\<rparr>
            else e\<lparr>write_count := write_count e + 1\<rparr>) # rest
      else (w, e) # bump_stats is_read v rest)"

definition count_access ::
  "InserterEnv \<Rightarrow> bool \<Rightarrow> Var option \<Rightarrow> InserterState \<Rightarrow> InserterState" where
  "count_access ie is_read v st =
     (if rank (ins_sync_scope ie) = kGlobal \<and> rank (GetScope st v) = kGlobal
      then st\<lparr>rw_stats' := bump_stats is_read v (rw_stats' st)\<rparr>
      else st)"

text \<open>
  Expressions are never rewritten by the inserter; visiting one only counts the reads and
  writes of global buffers, so the visit returns the state.
\<close>

definition as_VarNode :: "PrimExpr \<Rightarrow> Var option" where
  "as_VarNode e = (case e of VarNode v \<Rightarrow> Some v | SizeVarNode v \<Rightarrow> Some v | _ \<Rightarrow> None)"

definition tvm_access_ptr_counts :: "InserterEnv \<Rightarrow> PrimExpr list \<Rightarrow> InserterState \<Rightarrow> error + InserterState" where
  "tvm_access_ptr_counts ie args st =
     (if length args \<noteq> 5 then Inl (Fatal ''Check failed: op->args.size() == 5U'')
      else
        (let buffer_var = as_VarNode (args ! 1)
         in case args ! 4 of
              IntImmNode t flag \<Rightarrow>
                (let st1 = (if flag mod 2 = 1 then count_access ie True buffer_var st else st)
                 in Inr (if (flag div 2) mod 2 = 1 then count_access ie False buffer_var st1
                         else st1))
            | _ \<Rightarrow> Inl (Fatal ''the flag of tvm_access_ptr is not an integer constant'')))"

fun VisitExpr :: "InserterEnv \<Rightarrow> PrimExpr \<Rightarrow> InserterState \<Rightarrow> error + InserterState"
  and VisitExprs :: "InserterEnv \<Rightarrow> PrimExpr list \<Rightarrow> InserterState \<Rightarrow> error + InserterState" where
  "VisitExpr ie (VarNode v) st = Inr st"
| "VisitExpr ie (SizeVarNode v) st = Inr st"
| "VisitExpr ie (IntImmNode t n) st = Inr st"
| "VisitExpr ie (StringImmNode s) st = Inr st"
| "VisitExpr ie (CastNode t a) st = VisitExpr ie a st"
| "VisitExpr ie (NotNode a) st = VisitExpr ie a st"
| "VisitExpr ie (BinaryNode b x y) st =
     (case VisitExpr ie x st of Inl err \<Rightarrow> Inl err | Inr st1 \<Rightarrow> VisitExpr ie y st1)"
| "VisitExpr ie (SelectNode c x y) st =
     (case VisitExpr ie c st of
        Inl err \<Rightarrow> Inl err
      | Inr st1 \<Rightarrow>
          (case VisitExpr ie x st1 of Inl err \<Rightarrow> Inl err | Inr st2 \<Rightarrow> VisitExpr ie y st2))"
| "VisitExpr ie (LoadNode t buffer_var index) st =
     VisitExpr ie index (count_access ie True (Some buffer_var) st)"
| "VisitExpr ie (CallNode t n args ct f) st =
     (case VisitExprs ie args st of
        Inl err \<Rightarrow> Inl err
      | Inr st1 \<Rightarrow>
          (if is_intrinsic ct n ''tvm_access_ptr''
           then tvm_access_ptr_counts ie args st1
           else Inr st1))"
| "VisitExprs ie [] st = Inr st"
| "VisitExprs ie (e # es) st =
     (case VisitExpr ie e st of Inl err \<Rightarrow> Inl err | Inr st1 \<Rightarrow> VisitExprs ie es st1)"

definition alloc :: "InserterState \<Rightarrow> nat \<times> InserterState" where
  "alloc st = (next_object st, st\<lparr>next_object := next_object st + 1\<rparr>)"

definition call_stmt :: "nat \<Rightarrow> string \<Rightarrow> PrimExpr list \<Rightarrow> Stmt" where
  "call_stmt i nm args = Evaluate i (CallNode Int32 nm args Intrinsic NoFunc)"

text \<open>The loop of \<open>MakeGlobalBarrier\<close> over the active thread-extent attributes.\<close>

fun barrier_bookkeeping ::
  "InserterEnv \<Rightarrow> (AttrObject \<times> PrimExpr) list \<Rightarrow> PrimExpr option \<Rightarrow> PrimExpr option \<Rightarrow>
   error + (PrimExpr option \<times> PrimExpr option)" where
  "barrier_bookkeeping ie [] blocks lead = Inr (blocks, lead)"
| "barrier_bookkeeping ie ((IterVarObject iv, v) # rest) blocks lead =
     (case thread_scope_rank ie (thread_tag iv) of
        Inl err \<Rightarrow> Inl err
      | Inr r \<Rightarrow>
          (if r = 0 then
             barrier_bookkeeping ie rest
               (Some (case blocks of None \<Rightarrow> v | Some b \<Rightarrow> BinaryNode MulOp v b)) lead
           else if r = 1 then
             (let cond = BinaryNode EQOp (VarNode (iv_var iv))
                           (IntImmNode (var_dtype (iv_var iv)) 0)
              in barrier_bookkeeping ie rest blocks
                   (Some (case lead of None \<Rightarrow> cond | Some l \<Rightarrow> BinaryNode AndOp l cond)))
           else barrier_bookkeeping ie rest blocks lead))"
| "barrier_bookkeeping ie ((node, v) # rest) blocks lead =
     Inl (Fatal ''Downcast to IterVar failed'')"

definition MakeGlobalBarrier :: "InserterEnv \<Rightarrow> InserterState \<Rightarrow> error + (Stmt \<times> InserterState)" where
  "MakeGlobalBarrier ie st =
     (if rank (ins_sync_scope ie) \<noteq> kGlobal
      then Inl (Fatal ''Check failed: sync_scope_.rank == StorageRank::kGlobal'')
      else
        (case (if num_blocks' st = None then
                 (if is_lead' st \<noteq> None then Inl (Fatal ''Check failed: !is_lead_.defined()'')
                  else
                    (case barrier_bookkeeping ie (thread_extents' st) None None of
                       Inl err \<Rightarrow> Inl err
                     | Inr (blocks, lead) \<Rightarrow>
                         Inr (st\<lparr>num_work_dim' := length (thread_extents' st),
                                  num_blocks' := blocks, is_lead' := lead\<rparr>)))
               else if num_work_dim' st \<noteq> length (thread_extents' st)
               then Inl (Fatal ''Check failed: num_work_dim_ == thread_extents_.size()'')
               else Inr st) of
           Inl err \<Rightarrow> Inl err
         | Inr st1 \<Rightarrow>
             (case alloc st1 of (i, st2) \<Rightarrow>
                Inr (GlobalBarrier i (scope_to_string ie (ins_sync_scope ie))
                       (is_lead' st1) (num_blocks' st1), st2))))"

fun volatile_wrap :: "(Var option \<times> Entry) list \<Rightarrow> Stmt \<Rightarrow> nat \<Rightarrow> Stmt \<times> nat" where
  "volatile_wrap [] body n = (body, n)"
| "volatile_wrap ((v, e) # rest) body n =
     (if read_count e \<noteq> 0 \<and> write_count e \<noteq> 0
      then volatile_wrap rest
             (AttrStmt n (case v of Some b \<Rightarrow> VarObject b | None \<Rightarrow> NullObject)
                ''volatile_scope'' (IntImmNode Int32 1) body) (n + 1)
      else volatile_wrap rest body n)"

definition InitGlobalBarrier :: "Stmt \<Rightarrow> InserterState \<Rightarrow> error + (Stmt \<times> InserterState)" where
  "InitGlobalBarrier ret st =
     (case ret of
        AttrStmt i node attr_key v body0 \<Rightarrow>
          (let n0 = next_object st;
               prep = call_stmt n0 ''tvm_call_packed''
                        [StringImmNode ''__tvm_prepare_global_barrier''];
               wrapped = volatile_wrap (rw_stats' st) body0 (n0 + 1);
               n1 = snd wrapped;
               kinit = call_stmt n1 ''tvm_global_barrier_kinit'' [];
               body1 = SeqStmt (n1 + 1) [kinit, fst wrapped];
               body2 = AttrStmt (n1 + 2) node attr_key v body1
           in Inr (SeqStmt (n1 + 3) [prep, body2],
                   st\<lparr>rw_stats' := [], next_object := n1 + 4\<rparr>))
      | _ \<Rightarrow> Inl (Fatal ''Check failed: op != nullptr''))"

text \<open>
  The statement visitor. \<open>VisitStmt\<close> is the entry of every visit; \<open>VisitStmt'\<close> (the \<^verbatim>\<open>VisitStmt_\<close> overloads) is the
  dispatch on the node kind: the inserter's own cases for stores and attributes, the
  default traversal of the mutator for the rest.
\<close>

fun VisitStmt :: "InserterEnv \<Rightarrow> Stmt \<Rightarrow> InserterState \<Rightarrow> error + (Stmt \<times> InserterState)"
  and VisitStmt' :: "InserterEnv \<Rightarrow> Stmt \<Rightarrow> InserterState \<Rightarrow> error + (Stmt \<times> InserterState)"
  and VisitStmts :: "InserterEnv \<Rightarrow> Stmt list \<Rightarrow> InserterState \<Rightarrow> error + (Stmt list \<times> InserterState)" where
  "VisitStmt ie s st =
     (if syncs' ie = {} then Inr (s, st)
      else if stmt_id s \<in> syncs' ie then
        (case (if rank (ins_sync_scope ie) = kGlobal then MakeGlobalBarrier ie st
               else (case alloc st of (i, st1) \<Rightarrow>
                       Inr (call_stmt i ''tvm_storage_sync''
                              [StringImmNode (scope_to_string ie (ins_sync_scope ie))], st1))) of
           Inl err \<Rightarrow> Inl err
         | Inr (barrier, st1) \<Rightarrow>
             (case VisitStmt' ie s st1 of
                Inl err \<Rightarrow> Inl err
              | Inr (s', st2) \<Rightarrow>
                  (case alloc st2 of (i, st3) \<Rightarrow> Inr (SeqStmt i [barrier, s'], st3))))
      else VisitStmt' ie s st)"
| "VisitStmt' ie (LetStmt i v e body) st =
     (case VisitExpr ie e st of
        Inl err \<Rightarrow> Inl err
      | Inr st1 \<Rightarrow>
          (case VisitStmt ie body st1 of
             Inl err \<Rightarrow> Inl err
           | Inr (body', st2) \<Rightarrow> Inr (LetStmt i v e body', st2)))"
| "VisitStmt' ie (AttrStmt i node attr_key v body) st =
     (if attr_key = ''thread_extent'' then
        (let temp = in_thread_env' st;
             st0 = st\<lparr>in_thread_env' := True,
                      thread_extents' := thread_extents' st @ [(node, v)]\<rparr>
         in case VisitExpr ie v st0 of
              Inl err \<Rightarrow> Inl err
            | Inr st1 \<Rightarrow>
                (case VisitStmt ie body st1 of
                   Inl err \<Rightarrow> Inl err
                 | Inr (body', st2) \<Rightarrow>
                     (let st3 = st2\<lparr>thread_extents' := butlast (thread_extents' st2),
                                     in_thread_env' := temp\<rparr>
                      in if \<not> in_thread_env' st3 \<and> rank (ins_sync_scope ie) = kGlobal then
                           (case InitGlobalBarrier (AttrStmt i node attr_key v body') st3 of
                              Inl err \<Rightarrow> Inl err
                            | Inr (ret, st4) \<Rightarrow>
                                Inr (ret, st4\<lparr>num_blocks' := None, is_lead' := None\<rparr>))
                         else Inr (AttrStmt i node attr_key v body', st3))))
      else
        (case (if attr_key = ''storage_scope'' then
                 (case v of
                    StringImmNode s \<Rightarrow>
                      (case scope_make ie s of
                         Inl err \<Rightarrow> Inl err
                       | Inr sc \<Rightarrow>
                           Inr (st\<lparr>storage_scope' :=
                                  (storage_scope' st)
                                    ((case node of VarObject b \<Rightarrow> Some b | _ \<Rightarrow> None) := Some sc)\<rparr>))
                  | _ \<Rightarrow> Inl (Fatal ''storage_scope: the value is not a string''))
               else Inr st) of
           Inl err \<Rightarrow> Inl err
         | Inr st0 \<Rightarrow>
             (case VisitExpr ie v st0 of
                Inl err \<Rightarrow> Inl err
              | Inr st1 \<Rightarrow>
                  (case VisitStmt ie body st1 of
                     Inl err \<Rightarrow> Inl err
                   | Inr (body', st2) \<Rightarrow> Inr (AttrStmt i node attr_key v body', st2)))))"
| "VisitStmt' ie (Store i buffer_var v index) st =
     (case VisitExpr ie v (count_access ie False (Some buffer_var) st) of
        Inl err \<Rightarrow> Inl err
      | Inr st1 \<Rightarrow>
          (case VisitExpr ie index st1 of
             Inl err \<Rightarrow> Inl err
           | Inr st2 \<Rightarrow> Inr (Store i buffer_var v index, st2)))"
| "VisitStmt' ie (For i v mn ext ft body) st =
     (case VisitExpr ie mn st of
        Inl err \<Rightarrow> Inl err
      | Inr st1 \<Rightarrow>
          (case VisitExpr ie ext st1 of
             Inl err \<Rightarrow> Inl err
           | Inr st2 \<Rightarrow>
               (case VisitStmt ie body st2 of
                  Inl err \<Rightarrow> Inl err
                | Inr (body', st3) \<Rightarrow> Inr (For i v mn ext ft body', st3))))"
| "VisitStmt' ie (IfThenElse i c t e) st =
     (case VisitExpr ie c st of
        Inl err \<Rightarrow> Inl err
      | Inr st1 \<Rightarrow>
          (case VisitStmt ie t st1 of
             Inl err \<Rightarrow> Inl err
           | Inr (t', st2) \<Rightarrow>
               (case e of
                  None \<Rightarrow> Inr (IfThenElse i c t' None, st2)
                | Some e0 \<Rightarrow>
                    (case VisitStmt ie e0 st2 of
                       Inl err \<Rightarrow> Inl err
                     | Inr (e', st3) \<Rightarrow> Inr (IfThenElse i c t' (Some e'), st3)))))"
| "VisitStmt' ie (SeqStmt i ss) st =
     (case VisitStmts ie ss st of
        Inl err \<Rightarrow> Inl err
      | Inr (ss', st1) \<Rightarrow> Inr (SeqStmt i ss', st1))"
| "VisitStmt' ie (Evaluate i e) st =
     (case VisitExpr ie e st of Inl err \<Rightarrow> Inl err | Inr st1 \<Rightarrow> Inr (Evaluate i e, st1))"
| "VisitStmt' ie (GlobalBarrier i s lead blocks) st = Inr (GlobalBarrier i s lead blocks, st)"
| "VisitStmts ie [] st = Inr ([], st)"
| "VisitStmts ie (s # ss) st =
     (case VisitStmt ie s st of
        Inl err \<Rightarrow> Inl err
      | Inr (s', st1) \<Rightarrow>
          (case VisitStmts ie ss st1 of
             Inl err \<Rightarrow> Inl err
           | Inr (ss', st2) \<Rightarrow> Inr (s' # ss', st2)))"

text \<open>
  The pass. The planner walks the body with the storage-access visitor, which is not
  among the sources, and calls \<open>Summarize\<close> on every statement sequence; \<open>planner\<close> is
  the set of sync points it ends with.
\<close>

record SyncPass =
  sp_scope_make :: "string \<Rightarrow> error + StorageScope"
  sp_scope_to_string :: "StorageScope \<Rightarrow> string"
  sp_thread_scope_rank :: "string \<Rightarrow> error + nat"
  planner :: "StorageScope \<Rightarrow> Stmt \<Rightarrow> error + nat set"
  first_free_object :: nat

definition initial_inserter_state :: "nat \<Rightarrow> InserterState" where
  "initial_inserter_state n =
     \<lparr> storage_scope' = (\<lambda>_. None), rw_stats' = [], in_thread_env' = False,
       thread_extents' = [], num_work_dim' = 0, num_blocks' = None, is_lead' = None,
       next_object = n \<rparr>"

definition inserter_env :: "SyncPass \<Rightarrow> StorageScope \<Rightarrow> nat set \<Rightarrow> InserterEnv" where
  "inserter_env sp sc syncs =
     \<lparr> ins_sync_scope = sc, syncs' = syncs, scope_make = sp_scope_make sp,
       scope_to_string = sp_scope_to_string sp, thread_scope_rank = sp_thread_scope_rank sp \<rparr>"

definition ThreadSync :: "SyncPass \<Rightarrow> Stmt \<Rightarrow> string \<Rightarrow> error + Stmt" where
  "ThreadSync sp s storage_scope =
     (case sp_scope_make sp storage_scope of
        Inl err \<Rightarrow> Inl err
      | Inr sc \<Rightarrow>
          (case planner sp sc s of
             Inl err \<Rightarrow> Inl err
           | Inr syncs_inserted \<Rightarrow>
               (case VisitStmt (inserter_env sp sc syncs_inserted) s
                       (initial_inserter_state (first_free_object sp)) of
                  Inl err \<Rightarrow> Inl err
                | Inr (s', st) \<Rightarrow> Inr s')))"

subsection \<open>Example inputs of the pass\<close>

definition ex_scope_make :: "string \<Rightarrow> error + StorageScope" where
  "ex_scope_make s =
     (if s = ''global'' then Inr \<lparr> rank = kGlobal, scope_tag = [] \<rparr>
      else if s = ''shared'' then Inr \<lparr> rank = kShared, scope_tag = [] \<rparr>
      else if s = ''warp'' then Inr \<lparr> rank = kWarp, scope_tag = [] \<rparr>
      else if s = ''local'' then Inr \<lparr> rank = kLocal, scope_tag = [] \<rparr>
      else Inl (Fatal ''unknown storage scope''))"

definition ex_pass :: "nat set \<Rightarrow> SyncPass" where
  "ex_pass planned =
     \<lparr> sp_scope_make = ex_scope_make,
       sp_scope_to_string = (\<lambda>sc. if rank sc = kGlobal then ''global'' else ''shared''),
       sp_thread_scope_rank = (\<lambda>t. Inr (if take 8 t = ''blockIdx'' then 0 else 1)),
       planner = (\<lambda>sc s. Inr planned),
       first_free_object = 100 \<rparr>"

definition ex_body :: Stmt where
  "ex_body =
     SeqStmt 0
       [Store 1 ex_buffer (IntImmNode Int32 7) (VarNode ex_loop_var),
        Evaluate 2 (LoadNode Int32 ex_buffer (VarNode ex_loop_var))]"

section \<open>Constraint bridge\<close>

subsection \<open>Terms of the decision procedure\<close>

text \<open>
  The terms that the bridge hands to the decision procedure. The two calls into the
  procedure that compute (\<open>simplify\<close> and the satisfiability check) are oracles that may
  raise the procedure's exception (the result \<open>None\<close>). A check that runs out of its time
  budget answers \<open>unknown\<close>. The terms that the converter and \<open>Update\<close> build are taken
  to build; the connectives that \<open>CanProve\<close> applies itself are given below.
\<close>

datatype z3fun = z3_function string nat

datatype z3op =
    z3_add | z3_sub | z3_mul | z3_div | z3_mod | z3_min | z3_max
  | z3_eq | z3_ne | z3_lt | z3_le | z3_gt | z3_ge | z3_and | z3_or

datatype z3expr =
    int_const string
  | int_val int
  | bool_val bool
  | z3_app z3fun "z3expr list"
  | z3_not z3expr
  | z3_bin z3op z3expr z3expr
  | z3_pw z3expr z3expr
  | z3_implies z3expr z3expr
  | z3_forall "z3expr list" z3expr

datatype check_result = unsat | sat | unknown

record Z3 =
  z3_simplify :: "z3expr \<Rightarrow> z3expr option"
  z3_check :: "nat \<Rightarrow> z3expr list \<Rightarrow> check_result option"

definition z3_exception :: error where
  "z3_exception = Z3Exception ''z3::exception''"

text \<open>
  A term is of Boolean sort or of integer sort; every function symbol that the converter
  declares has integer range. The conjunction and the implication of the procedure's
  interface take two Boolean terms: on a term of another sort the interface raises the
  procedure's exception.
\<close>

fun is_bool_sort :: "z3expr \<Rightarrow> bool" where
  "is_bool_sort (int_const n) = False"
| "is_bool_sort (int_val i) = False"
| "is_bool_sort (bool_val b) = True"
| "is_bool_sort (z3_app f args) = False"
| "is_bool_sort (z3_not a) = True"
| "is_bool_sort (z3_bin b x y) =
     (b = z3_eq \<or> b = z3_ne \<or> b = z3_lt \<or> b = z3_le \<or> b = z3_gt \<or> b = z3_ge \<or>
      b = z3_and \<or> b = z3_or)"
| "is_bool_sort (z3_pw x y) = False"
| "is_bool_sort (z3_implies x y) = True"
| "is_bool_sort (z3_forall vs body) = True"

definition z3_mk_and :: "z3expr \<Rightarrow> z3expr \<Rightarrow> error + z3expr" where
  "z3_mk_and a b =
     (if is_bool_sort a \<and> is_bool_sort b then Inr (z3_bin z3_and a b) else Inl z3_exception)"

definition z3_mk_implies :: "z3expr \<Rightarrow> z3expr \<Rightarrow> error + z3expr" where
  "z3_mk_implies a b =
     (if is_bool_sort a \<and> is_bool_sort b then Inr (z3_implies a b) else Inl z3_exception)"

fun OP_FUN :: "BinOp \<Rightarrow> z3op" where
  "OP_FUN AddOp = z3_add"
| "OP_FUN SubOp = z3_sub"
| "OP_FUN MulOp = z3_mul"
| "OP_FUN DivOp = z3_div"
| "OP_FUN ModOp = z3_mod"
| "OP_FUN FloorDivOp = z3_div"
| "OP_FUN FloorModOp = z3_mod"
| "OP_FUN MinOp = z3_min"
| "OP_FUN MaxOp = z3_max"
| "OP_FUN EQOp = z3_eq"
| "OP_FUN NEOp = z3_ne"
| "OP_FUN LTOp = z3_lt"
| "OP_FUN LEOp = z3_le"
| "OP_FUN GTOp = z3_gt"
| "OP_FUN GEOp = z3_ge"
| "OP_FUN AndOp = z3_and"
| "OP_FUN OrOp = z3_or"

subsection \<open>The converter\<close>

fun to_string :: "nat \<Rightarrow> string" where
  "to_string n =
     (if n < 10 then [''0123456789'' ! n]
      else to_string (n div 10) @ [''0123456789'' ! (n mod 10)])"

datatype z3_fun_key = VarKey Var | FunctionKey FunctionRef

text \<open>
  The converter's memo tables and its name counter. The tables are keyed by expression
  objects; the model keys them by the expressions.
\<close>

record Z3Converter =
  z3_exprs :: "PrimExpr \<Rightarrow> z3expr option"
  z3_funs :: "z3_fun_key \<Rightarrow> z3fun option"
  z3_ufuns :: "nat \<Rightarrow> z3fun option"
  index :: nat

definition GetOrCreateZ3Fun_var :: "Var \<Rightarrow> Z3Converter \<Rightarrow> z3fun \<times> Z3Converter" where
  "GetOrCreateZ3Fun_var v c =
     (case z3_funs c (VarKey v) of
        Some f \<Rightarrow> (f, c)
      | None \<Rightarrow>
          (let f = z3_function (name_hint v @ to_string (index c)) 1
           in (f, c\<lparr>index := index c + 1, z3_funs := (z3_funs c)(VarKey v \<mapsto> f)\<rparr>)))"

definition GetOrCreateZ3Fun :: "FunctionRef \<Rightarrow> string \<Rightarrow> nat \<Rightarrow> Z3Converter \<Rightarrow> z3fun \<times> Z3Converter" where
  "GetOrCreateZ3Fun f name arity c =
     (case f of
        UninterpFunRef u True \<Rightarrow>
          (case z3_ufuns c u of
             Some g \<Rightarrow> (g, c)
           | None \<Rightarrow>
               (let g = z3_function (name @ to_string (index c)) arity
                in (g, c\<lparr>index := index c + 1, z3_ufuns := (z3_ufuns c)(u \<mapsto> g)\<rparr>)))
      | _ \<Rightarrow>
          (case z3_funs c (FunctionKey f) of
             Some g \<Rightarrow> (g, c)
           | None \<Rightarrow>
               (let g = z3_function (name @ to_string (index c)) arity
                in (g, c\<lparr>index := index c + 1, z3_funs := (z3_funs c)(FunctionKey f \<mapsto> g)\<rparr>))))"

definition is_pure :: "CallType \<Rightarrow> bool" where
  "is_pure ct = (ct = PureExtern \<or> ct = PureIntrinsic \<or> ct = Halide)"

definition cannot_convert :: error where
  "cannot_convert = InvalidArgument ''Cannot convert this expression to a Z3 expression''"

definition memoize :: "PrimExpr \<Rightarrow> z3expr \<Rightarrow> Z3Converter \<Rightarrow> (error + z3expr) \<times> Z3Converter" where
  "memoize key z c = (Inr z, c\<lparr>z3_exprs := (z3_exprs c)(key \<mapsto> z)\<rparr>)"

text \<open>
  The visit of an expression returns the term or the exception, and the converter after
  the visit: what was memoized before an exception stays memoized. The two operands of a
  binary node are visited left to right.
\<close>

fun Z3_VisitExpr :: "PrimExpr \<Rightarrow> Z3Converter \<Rightarrow> (error + z3expr) \<times> Z3Converter"
  and Z3_VisitArgs :: "PrimExpr list \<Rightarrow> Z3Converter \<Rightarrow> (error + z3expr list) \<times> Z3Converter" where
  "Z3_VisitExpr (VarNode v) c =
     (case z3_exprs c (VarNode v) of
        Some z \<Rightarrow> (Inr z, c)
      | None \<Rightarrow>
          memoize (VarNode v) (int_const (name_hint v @ to_string (index c)))
            (c\<lparr>index := index c + 1\<rparr>))"
| "Z3_VisitExpr (SizeVarNode v) c =
     (case z3_exprs c (SizeVarNode v) of
        Some z \<Rightarrow> (Inr z, c)
      | None \<Rightarrow>
          memoize (SizeVarNode v) (int_const (name_hint v @ to_string (index c)))
            (c\<lparr>index := index c + 1\<rparr>))"
| "Z3_VisitExpr (LoadNode t buffer_var idx) c =
     (case z3_exprs c (LoadNode t buffer_var idx) of
        Some z \<Rightarrow> (Inr z, c)
      | None \<Rightarrow>
          (case GetOrCreateZ3Fun_var buffer_var c of
             (f, c1) \<Rightarrow>
               (case Z3_VisitExpr idx c1 of
                  (Inl err, c2) \<Rightarrow> (Inl err, c2)
                | (Inr arg, c2) \<Rightarrow> memoize (LoadNode t buffer_var idx) (z3_app f [arg]) c2)))"
| "Z3_VisitExpr (CallNode t name args ct func) c =
     (if is_intrinsic ct name ''shift_right'' then
        (case args of
           a # b # rest \<Rightarrow>
             (case Z3_VisitExpr a c of
                (Inl err, c1) \<Rightarrow> (Inl err, c1)
              | (Inr za, c1) \<Rightarrow>
                  (case Z3_VisitExpr b c1 of
                     (Inl err, c2) \<Rightarrow> (Inl err, c2)
                   | (Inr zb, c2) \<Rightarrow> (Inr (z3_bin z3_div za (z3_pw (int_val 2) zb)), c2)))
         | _ \<Rightarrow> (Inl (Fatal ''shift_right: argument index out of range''), c))
      else if is_pure ct \<and> (is_int t \<or> is_uint t) then
        (case z3_exprs c (CallNode t name args ct func) of
           Some z \<Rightarrow> (Inr z, c)
         | None \<Rightarrow>
             (case GetOrCreateZ3Fun func name (length args) c of
                (f, c1) \<Rightarrow>
                  (case Z3_VisitArgs args c1 of
                     (Inl err, c2) \<Rightarrow> (Inl err, c2)
                   | (Inr zs, c2) \<Rightarrow> memoize (CallNode t name args ct func) (z3_app f zs) c2)))
      else (Inl cannot_convert, c))"
| "Z3_VisitExpr (CastNode t a) c =
     (case z3_exprs c (CastNode t a) of
        Some z \<Rightarrow> (Inr z, c)
      | None \<Rightarrow> Z3_VisitExpr a c)"
| "Z3_VisitExpr (NotNode a) c =
     (case z3_exprs c (NotNode a) of
        Some z \<Rightarrow> (Inr z, c)
      | None \<Rightarrow>
          (case Z3_VisitExpr a c of
             (Inl err, c1) \<Rightarrow> (Inl err, c1)
           | (Inr z, c1) \<Rightarrow> (Inr (z3_not z), c1)))"
| "Z3_VisitExpr (IntImmNode t n) c =
     (case z3_exprs c (IntImmNode t n) of
        Some z \<Rightarrow> (Inr z, c)
      | None \<Rightarrow> (Inr (int_val n), c))"
| "Z3_VisitExpr (BinaryNode b x y) c =
     (case z3_exprs c (BinaryNode b x y) of
        Some z \<Rightarrow> (Inr z, c)
      | None \<Rightarrow>
          (case Z3_VisitExpr x c of
             (Inl err, c1) \<Rightarrow> (Inl err, c1)
           | (Inr zx, c1) \<Rightarrow>
               (case Z3_VisitExpr y c1 of
                  (Inl err, c2) \<Rightarrow> (Inl err, c2)
                | (Inr zy, c2) \<Rightarrow> memoize (BinaryNode b x y) (z3_bin (OP_FUN b) zx zy) c2)))"
| "Z3_VisitExpr (SelectNode cnd x y) c = (Inl cannot_convert, c)"
| "Z3_VisitExpr (StringImmNode s) c = (Inl cannot_convert, c)"
| "Z3_VisitArgs [] c = (Inr [], c)"
| "Z3_VisitArgs (a # args) c =
     (case Z3_VisitExpr a c of
        (Inl err, c1) \<Rightarrow> (Inl err, c1)
      | (Inr z, c1) \<Rightarrow>
          (case Z3_VisitArgs args c1 of
             (Inl err, c2) \<Rightarrow> (Inl err, c2)
           | (Inr zs, c2) \<Rightarrow> (Inr (z # zs), c2)))"

subsection \<open>The analyzer\<close>

record Z3Analyzer =
  converter :: Z3Converter
  var_constraints :: "(Var \<times> z3expr list) list"
  general_constraints :: "z3expr list"

definition ConvertToZ3 :: "Z3 \<Rightarrow> PrimExpr \<Rightarrow> Z3Analyzer \<Rightarrow> (error + z3expr) \<times> Z3Analyzer" where
  "ConvertToZ3 z3 expr an =
     (case Z3_VisitExpr expr (converter an) of
        (Inl err, c) \<Rightarrow> (Inl err, an\<lparr>converter := c\<rparr>)
      | (Inr z, c) \<Rightarrow>
          (case z3_simplify z3 z of
             None \<Rightarrow> (Inl z3_exception, an\<lparr>converter := c\<rparr>)
           | Some z' \<Rightarrow> (Inr z', an\<lparr>converter := c\<rparr>)))"

fun push_var_constraints ::
  "Var \<Rightarrow> bool \<Rightarrow> z3expr list \<Rightarrow> (Var \<times> z3expr list) list \<Rightarrow> (Var \<times> z3expr list) list" where
  "push_var_constraints v overwrite new [] = [(v, new)]"
| "push_var_constraints v overwrite new ((w, old) # rest) =
     (if w = v then (w, (if overwrite then [] else old) @ new) # rest
      else (w, old) # push_var_constraints v overwrite new rest)"

text \<open>
  \<open>Update\<close> with explicit bounds: the three conversions and the two pushes are inside the
  handler, which returns normally on either exception.
\<close>

definition Update_bounds ::
  "Z3 \<Rightarrow> Var \<Rightarrow> PrimExpr \<Rightarrow> PrimExpr \<Rightarrow> bool \<Rightarrow> Z3Analyzer \<Rightarrow> (error + unit) \<times> Z3Analyzer" where
  "Update_bounds z3 v mn mx overwrite an =
     (case (case ConvertToZ3 z3 mn an of
              (Inl err, an1) \<Rightarrow> (Inl err, an1)
            | (Inr z3min, an1) \<Rightarrow>
                (case ConvertToZ3 z3 mx an1 of
                   (Inl err, an2) \<Rightarrow> (Inl err, an2)
                 | (Inr z3max, an2) \<Rightarrow>
                     (case ConvertToZ3 z3 (VarNode v) an2 of
                        (Inl err, an3) \<Rightarrow> (Inl err, an3)
                      | (Inr z3var, an3) \<Rightarrow>
                          (Inr (),
                           an3\<lparr>var_constraints :=
                             push_var_constraints v overwrite
                               [z3_bin z3_ge z3var z3min, z3_bin z3_lt z3var z3max]
                               (var_constraints an3)\<rparr>)))) of
        (Inl (InvalidArgument m), an') \<Rightarrow> (Inr (), an')
      | (Inl (Z3Exception m), an') \<Rightarrow> (Inr (), an')
      | r \<Rightarrow> r)"

definition Update_expr ::
  "Z3 \<Rightarrow> Var \<Rightarrow> PrimExpr \<Rightarrow> bool \<Rightarrow> Z3Analyzer \<Rightarrow> (error + unit) \<times> Z3Analyzer" where
  "Update_expr z3 v expr overwrite an =
     (if \<not> is_int (dtype_of expr) \<and> \<not> is_uint (dtype_of expr) then (Inr (), an)
      else Update_bounds z3 v expr
             (BinaryNode AddOp expr (IntImmNode (dtype_of expr) 1)) overwrite an)"

definition Update_range ::
  "Z3 \<Rightarrow> Var \<Rightarrow> PrimExpr \<times> PrimExpr \<Rightarrow> bool \<Rightarrow> Z3Analyzer \<Rightarrow> (error + unit) \<times> Z3Analyzer" where
  "Update_range z3 v rng overwrite an =
     Update_bounds z3 v (fst rng) (BinaryNode AddOp (fst rng) (snd rng)) overwrite an"

definition Bind :: "Z3 \<Rightarrow> Var \<Rightarrow> PrimExpr \<times> PrimExpr \<Rightarrow> Z3Analyzer \<Rightarrow> (error + unit) \<times> Z3Analyzer" where
  "Bind z3 v rng an = Update_range z3 v rng False an"

definition AddConstraint :: "Z3 \<Rightarrow> PrimExpr \<Rightarrow> Z3Analyzer \<Rightarrow> (error + unit) \<times> Z3Analyzer" where
  "AddConstraint z3 constraint an =
     (case constraint of
        IntImmNode t n \<Rightarrow>
          (Inr (), an\<lparr>general_constraints := general_constraints an @ [bool_val True]\<rparr>)
      | _ \<Rightarrow>
          (if is_bool (dtype_of constraint) then
             (case ConvertToZ3 z3 constraint an of
                (Inl err, an1) \<Rightarrow> (Inl err, an1)
              | (Inr z3constraint, an1) \<Rightarrow>
                  (Inr (), an1\<lparr>general_constraints := general_constraints an1 @ [z3constraint]\<rparr>))
           else (Inr (), an)))"

fun convert_vars :: "Z3 \<Rightarrow> Var list \<Rightarrow> Z3Analyzer \<Rightarrow> (error + z3expr list) \<times> Z3Analyzer" where
  "convert_vars z3 [] an = (Inr [], an)"
| "convert_vars z3 (v # vs) an =
     (case ConvertToZ3 z3 (VarNode v) an of
        (Inl err, an1) \<Rightarrow> (Inl err, an1)
      | (Inr z, an1) \<Rightarrow>
          (case convert_vars z3 vs an1 of
             (Inl err, an2) \<Rightarrow> (Inl err, an2)
           | (Inr zs, an2) \<Rightarrow> (Inr (z # zs), an2)))"

definition AddForallConstraint ::
  "Z3 \<Rightarrow> Var list \<Rightarrow> PrimExpr \<Rightarrow> Z3Analyzer \<Rightarrow> (error + unit) \<times> Z3Analyzer" where
  "AddForallConstraint z3 forall_vars constraint_body an =
     (case ConvertToZ3 z3 constraint_body an of
        (Inl err, an1) \<Rightarrow> (Inl err, an1)
      | (Inr z3constraint_body, an1) \<Rightarrow>
          (case convert_vars z3 forall_vars an1 of
             (Inl err, an2) \<Rightarrow> (Inl err, an2)
           | (Inr z3forall_vars, an2) \<Rightarrow>
               (Inr (),
                an2\<lparr>general_constraints :=
                  general_constraints an2 @ [z3_forall z3forall_vars z3constraint_body]\<rparr>)))"

text \<open>
  The facts that the analyzer has recorded: the range facts of every variable, then the
  general facts. (The table of range facts is an unordered map in the source; the model
  reads it in the order in which the variables were first bound.)
\<close>

definition recorded_facts :: "Z3Analyzer \<Rightarrow> z3expr list" where
  "recorded_facts an = concat (map snd (var_constraints an)) @ general_constraints an"

text \<open>
  The two loops at the head of \<open>CanProve\<close>, which conjoin the recorded facts onto
  \<open>true\<close>. They run before the handler is entered.
\<close>

fun conjoin :: "z3expr \<Rightarrow> z3expr list \<Rightarrow> error + z3expr" where
  "conjoin a [] = Inr a"
| "conjoin a (e # es) =
     (case z3_mk_and a e of
        Inl err \<Rightarrow> Inl err
      | Inr a' \<Rightarrow> conjoin a' es)"

definition antecedent :: "Z3Analyzer \<Rightarrow> error + z3expr" where
  "antecedent an =
     (case conjoin (bool_val True) (concat (map snd (var_constraints an))) of
        Inl err \<Rightarrow> Inl err
      | Inr a \<Rightarrow> conjoin a (general_constraints an))"

definition timeout_ms :: nat where
  "timeout_ms = 100"

text \<open>The body of the handler of \<open>CanProve\<close>, for the antecedent \<open>ante\<close>.\<close>

definition CanProve_try ::
  "Z3 \<Rightarrow> z3expr \<Rightarrow> PrimExpr \<Rightarrow> Z3Analyzer \<Rightarrow> (error + bool) \<times> Z3Analyzer" where
  "CanProve_try z3 ante cond an =
     (case ConvertToZ3 z3 cond an of
        (Inl err, an1) \<Rightarrow> (Inl err, an1)
      | (Inr consequent, an1) \<Rightarrow>
          (case z3_mk_implies ante consequent of
             Inl err \<Rightarrow> (Inl err, an1)
           | Inr implication \<Rightarrow>
               (case z3_simplify z3 implication of
                  None \<Rightarrow> (Inl z3_exception, an1)
                | Some to_prove \<Rightarrow>
                    (case z3_check z3 timeout_ms [z3_not to_prove] of
                       None \<Rightarrow> (Inl z3_exception, an1)
                     | Some r \<Rightarrow> (Inr (r = unsat), an1)))))"

text \<open>
  \<open>CanProve\<close>: the antecedent is built first; the handler, which answers false on
  either exception, encloses what follows.
\<close>

definition Z3_CanProve :: "Z3 \<Rightarrow> PrimExpr \<Rightarrow> Z3Analyzer \<Rightarrow> (error + bool) \<times> Z3Analyzer" where
  "Z3_CanProve z3 cond an =
     (case antecedent an of
        Inl err \<Rightarrow> (Inl err, an)
      | Inr ante \<Rightarrow>
          (case CanProve_try z3 ante cond an of
             (Inl (InvalidArgument m), an') \<Rightarrow> (Inr False, an')
           | (Inl (Z3Exception m), an') \<Rightarrow> (Inr False, an')
           | r \<Rightarrow> r))"

subsection \<open>Well-formed conditions and example inputs of the bridge\<close>

text \<open>
  A right shift is built with two operands. The converter reads the first two arguments
  of a \<open>shift_right\<close> call without looking at their number; \<open>shifts_binary e\<close> says
  that every such call in \<open>e\<close> has them.
\<close>

fun shifts_binary :: "PrimExpr \<Rightarrow> bool" where
  "shifts_binary (VarNode v) = True"
| "shifts_binary (SizeVarNode v) = True"
| "shifts_binary (IntImmNode t n) = True"
| "shifts_binary (StringImmNode s) = True"
| "shifts_binary (CastNode t a) = shifts_binary a"
| "shifts_binary (NotNode a) = shifts_binary a"
| "shifts_binary (BinaryNode b x y) = (shifts_binary x \<and> shifts_binary y)"
| "shifts_binary (SelectNode c x y) = (shifts_binary c \<and> shifts_binary x \<and> shifts_binary y)"
| "shifts_binary (LoadNode t b i) = shifts_binary i"
| "shifts_binary (CallNode t n args ct f) =
     (list_all shifts_binary args \<and>
      (is_intrinsic ct n ''shift_right'' \<longrightarrow> 2 \<le> length args))"

definition empty_converter :: Z3Converter where
  "empty_converter =
     \<lparr> z3_exprs = (\<lambda>_. None), z3_funs = (\<lambda>_. None), z3_ufuns = (\<lambda>_. None), index = 0 \<rparr>"

definition empty_analyzer :: Z3Analyzer where
  "empty_analyzer =
     \<lparr> converter = empty_converter, var_constraints = [], general_constraints = [] \<rparr>"

text \<open>
  A decision procedure that refutes the negation of \<open>true \<longrightarrow> 0 < 1\<close> within 100 ms and
  answers \<open>unknown\<close> to everything else; its simplifier changes nothing.
\<close>

definition ex_z3 :: Z3 where
  "ex_z3 =
     \<lparr> z3_simplify = Some,
       z3_check = (\<lambda>t fs.
         if t = 100 \<and>
            fs = [z3_not (z3_implies (bool_val True) (z3_bin z3_lt (int_val 0) (int_val 1)))]
         then Some unsat else Some unknown) \<rparr>"

text \<open>A variable of Boolean type, which is a fact that \<open>AddConstraint\<close> accepts.\<close>

definition ex_flag :: Var where
  "ex_flag = Var ''flag'' 3 Bool1"

definition ex_provable :: PrimExpr where
  "ex_provable = BinaryNode LTOp (IntImmNode Int32 0) (IntImmNode Int32 1)"

text \<open>The boolean fact \<open>i < rand()\<close>, where \<open>rand\<close> is an external call with a side effect.\<close>

definition ex_unconvertible :: PrimExpr where
  "ex_unconvertible =
     BinaryNode LTOp (VarNode ex_loop_var) (CallNode Int32 ''rand'' [] Extern NoFunc)"

text \<open>
  An analyzer with recorded facts, and a decision procedure that refutes exactly the
  negation of the implication from these facts to \<open>i < 8\<close>.
\<close>

definition ex_bound_analyzer :: Z3Analyzer where
  "ex_bound_analyzer =
     snd (AddConstraint ex_z3 (BinaryNode GEOp (VarNode ex_loop_var) (IntImmNode Int32 2))
            (snd (Bind ex_z3 ex_loop_var (IntImmNode Int32 0, IntImmNode Int32 8)
                    empty_analyzer)))"

definition ex_z3_facts :: Z3 where
  "ex_z3_facts =
     \<lparr> z3_simplify = Some,
       z3_check = (\<lambda>t fs.
         if t = 100 \<and>
            fs = [z3_not (z3_implies
                    (z3_bin z3_and
                       (z3_bin z3_and
                          (z3_bin z3_and (bool_val True)
                             (z3_bin z3_ge (int_const ''i0'') (int_val 0)))
                          (z3_bin z3_lt (int_const ''i0'')
                             (z3_bin z3_add (int_val 0) (int_val 8))))
                       (z3_bin z3_ge (int_const ''i0'') (int_val 2)))
                    (z3_bin z3_lt (int_const ''i0'') (int_val 8)))]
         then Some unsat else Some unknown) \<rparr>"

section \<open>Tensor-layout rewriter\<close>

subsection \<open>Operations\<close>

text \<open>
  Operations are objects; a tensor names its operation by the object's identity. The
  fields below are the ones the rewriter reads and writes.
\<close>

record DimVarEntry =
  entry_dim :: Dimension
  entry_iv :: IterVar

record OperationNode =
  op_name :: string
  op_tag :: string
  op_attrs :: "(string \<times> string) list"

record BaseVarDimOpNode = OperationNode +
  dim2var_maps :: "(Dimension \<Rightarrow> DimVarEntry option) list"
  var2dim_map :: "(Var \<times> Dimension) list"

record ComputeOpNode = BaseVarDimOpNode +
  root_index_dimensions :: "Dimension list"

record ScanOpNode = BaseVarDimOpNode +
  scan_axis :: IterVar
  explicit_dims :: "Dimension list"
  explicit_loop_ivs :: "IterVar list"
  scan_init :: "Tensor list"
  scan_update :: "Tensor list"
  state_placeholder :: "Tensor list"
  scan_inputs :: "Tensor list"
  scan_dim :: Dimension
  init_separate :: bool
  spatial_dimensions' :: "Dimension list"
  spatial_axis' :: "IterVar list"

record ConditionalOpNode = BaseVarDimOpNode +
  from_then :: "Tensor list"
  then_case :: "Tensor list"
  from_else :: "Tensor list"
  else_case :: "Tensor list"
  cond_condition :: PrimExpr
  cond_explicit_dims :: "Dimension list"
  cond_explicit_loop_ivs :: "IterVar list"
  cond_spatial_axis' :: "IterVar list"
  cond_spatial_dimensions' :: "Dimension list"
  explicit_dimensions :: "DimInfo list"

subsection \<open>Rebuilding a scan or a conditional\<close>

text \<open>
  The inner loop that fills the spatial dimensions and axes of the rebuilt operation from
  the root index dimensions of one densified sub-computation: \<open>m\<close> is the operation's
  dimension map for that output.
\<close>

fun push_spatial ::
  "(Dimension \<Rightarrow> DimVarEntry option) \<Rightarrow> Dimension list \<Rightarrow> Dimension list \<times> IterVar list \<Rightarrow>
   error + (Dimension list \<times> IterVar list)" where
  "push_spatial m [] acc = Inr acc"
| "push_spatial m (d # ds) (sdims, saxis) =
     (case m d of
        None \<Rightarrow> Inl (Fatal ''std::out_of_range: dim2var_maps[i].at(dim)'')
      | Some e \<Rightarrow> push_spatial m ds (sdims @ [d], saxis @ [entry_iv e]))"

text \<open>
  The loop \<^verbatim>\<open>for (i = 0; i < num_outputs; ++i)\<close>, from \<open>i\<close> on. \<open>compute_ops\<close> maps the
  identity of an operation to its node when the operation is a compute operation.
\<close>

function spatial_loop ::
  "(nat \<Rightarrow> ComputeOpNode option) \<Rightarrow> (Dimension \<Rightarrow> DimVarEntry option) list \<Rightarrow> Tensor list \<Rightarrow>
   nat \<Rightarrow> nat \<Rightarrow> Dimension list \<times> IterVar list \<Rightarrow> error + (Dimension list \<times> IterVar list)" where
  "spatial_loop compute_ops maps new_tensors num_outputs i acc =
     (if i < num_outputs then
        (if length new_tensors \<le> i then Inl (Fatal ''index out of range: new tensors'')
         else
           (case compute_ops (tensor_op (new_tensors ! i)) of
              None \<Rightarrow> Inl (Fatal ''null pointer: the sub-computation is no compute operation'')
            | Some cop \<Rightarrow>
                (if length maps \<le> i then Inl (Fatal ''index out of range: dim2var_maps'')
                 else
                   (case push_spatial (maps ! i) (root_index_dimensions cop) acc of
                      Inl err \<Rightarrow> Inl err
                    | Inr acc' \<Rightarrow>
                        spatial_loop compute_ops maps new_tensors num_outputs (i + 1) acc'))))
      else Inr acc)"
  by pat_completeness auto
termination
  by (relation "measure (\<lambda>(c, m, t, n, i, a). n - i)") auto

text \<open>The block "Create a new scan op" of \<open>IndexByDenseLayoutChange\<close>.\<close>

definition new_scan_op ::
  "(nat \<Rightarrow> ComputeOpNode option) \<Rightarrow> nat \<Rightarrow> ScanOpNode \<Rightarrow> Tensor list \<Rightarrow> Tensor list \<Rightarrow> Tensor list \<Rightarrow>
   error + ScanOpNode" where
  "new_scan_op compute_ops num_outputs scan_op new_inits new_updates new_states =
     (case spatial_loop compute_ops (dim2var_maps scan_op) new_updates num_outputs 0 ([], []) of
        Inl err \<Rightarrow> Inl err
      | Inr (sdims, saxis) \<Rightarrow>
          Inr \<lparr> op_name = op_name scan_op @ ''.d'',
                op_tag = op_tag scan_op,
                op_attrs = op_attrs scan_op,
                dim2var_maps = dim2var_maps scan_op,
                var2dim_map = var2dim_map scan_op,
                scan_axis = scan_axis scan_op,
                explicit_dims = explicit_dims scan_op,
                explicit_loop_ivs = explicit_loop_ivs scan_op,
                scan_init = new_inits,
                scan_update = new_updates,
                state_placeholder = new_states,
                scan_inputs = scan_inputs scan_op,
                scan_dim = scan_dim scan_op,
                init_separate = init_separate scan_op,
                spatial_dimensions' = sdims,
                spatial_axis' = saxis \<rparr>)"

text \<open>
  The block "Create a new conditional op". The field \<open>explicit_dimensions\<close> is named in
  the block but not assigned: the new node keeps the empty default.
\<close>

definition new_conditional_op ::
  "(nat \<Rightarrow> ComputeOpNode option) \<Rightarrow> nat \<Rightarrow> ConditionalOpNode \<Rightarrow> Tensor list \<Rightarrow> Tensor list \<Rightarrow>
   error + ConditionalOpNode" where
  "new_conditional_op compute_ops num_outputs conditional_op new_then_cases new_else_cases =
     (case spatial_loop compute_ops (dim2var_maps conditional_op) new_then_cases num_outputs 0
             ([], []) of
        Inl err \<Rightarrow> Inl err
      | Inr (sdims, saxis) \<Rightarrow>
          Inr \<lparr> op_name = op_name conditional_op @ ''.d'',
                op_tag = op_tag conditional_op,
                op_attrs = op_attrs conditional_op,
                dim2var_maps = dim2var_maps conditional_op,
                var2dim_map = var2dim_map conditional_op,
                from_then = from_then conditional_op,
                then_case = new_then_cases,
                from_else = from_else conditional_op,
                else_case = new_else_cases,
                cond_condition = cond_condition conditional_op,
                cond_explicit_dims = cond_explicit_dims conditional_op,
                cond_explicit_loop_ivs = cond_explicit_loop_ivs conditional_op,
                cond_spatial_axis' = saxis,
                cond_spatial_dimensions' = sdims,
                explicit_dimensions = [] \<rparr>)"

subsection \<open>Replacing a tensor in its readers\<close>

text \<open>
  The schedule as the replacement sees it: the operation of every stage, by position. A
  stage is named by its position.
\<close>

record Schedule =
  stage_ops :: "nat list"

text \<open>
  The collaborators of the replacement, which are not among the sources: the feed graph
  (the readers of a tensor, or nothing when the tensor is not in the graph), the
  access-pattern collector (the distinct patterns through which the readers index the
  tensor, and the map from accesses to patterns), the rewriting of one reader, the
  data-flow substitution over the schedule, and the printed form of a tensor.
\<close>

record LayoutEnv =
  GetFeedGraph :: "Schedule \<Rightarrow> Tensor \<Rightarrow> nat list option"
  AccessPatternCollector :: "Tensor \<Rightarrow> Dimension list \<Rightarrow> nat list \<Rightarrow> nat list \<times> (nat \<times> nat) list"
  ReplaceInputs ::
    "nat \<Rightarrow> (nat \<times> nat) list \<Rightarrow> Tensor \<Rightarrow> Dimension list \<Rightarrow> Dimension list \<Rightarrow> nat"
  ReplaceDataFlow ::
    "Schedule \<Rightarrow> (Tensor \<Rightarrow> Tensor option) \<Rightarrow> (Tensor \<Rightarrow> Tensor option) \<Rightarrow> Schedule"
  tensor_str :: "Tensor \<Rightarrow> string"

text \<open>
  Modelled from the spec: the operation-to-stage lookup table that the schedule rebuilds
  (\<^verbatim>\<open>InvalidateCache\<close>, \<^verbatim>\<open>InitCache\<close>; the schedule class is not among the
  sources) maps the operation of every stage to that stage.
\<close>

definition InitCache :: "Schedule \<Rightarrow> nat \<Rightarrow> nat option" where
  "InitCache sch = map_of (rev (zip (stage_ops sch) [0..<length (stage_ops sch)]))"

definition op_output :: "nat \<Rightarrow> nat \<Rightarrow> Tensor" where
  "op_output opr i = \<lparr> tensor_op = opr, value_index = i \<rparr>"

fun replace_readers ::
  "LayoutEnv \<Rightarrow> (nat \<Rightarrow> nat option) \<Rightarrow> (nat \<times> nat) list \<Rightarrow> Tensor \<Rightarrow> Tensor \<Rightarrow>
   Dimension list \<Rightarrow> Dimension list \<Rightarrow> nat list \<Rightarrow>
   Schedule \<times> (Tensor \<Rightarrow> Tensor option) \<times> (Tensor \<Rightarrow> Tensor option) \<Rightarrow>
   error + (Schedule \<times> (Tensor \<Rightarrow> Tensor option) \<times> (Tensor \<Rightarrow> Tensor option))" where
  "replace_readers env op2stage apm old_tensor new_tensor new_dims old_dims [] st = Inr st"
| "replace_readers env op2stage apm old_tensor new_tensor new_dims old_dims (opr # readers)
     (sch, vmap, rvmap) =
     (case op2stage opr of
        None \<Rightarrow> Inl (Fatal ''std::out_of_range: op2stage_.at(op)'')
      | Some op_stage \<Rightarrow>
          (let repl_op = ReplaceInputs env opr apm new_tensor new_dims old_dims;
               stage_op = stage_ops sch ! op_stage
           in if repl_op = stage_op then
                Inl (Fatal (''Cannot find tensor '' @ tensor_str env old_tensor @
                            '' in the inputs to '' @ to_string repl_op))
              else
                replace_readers env op2stage apm old_tensor new_tensor new_dims old_dims readers
                  (sch\<lparr>stage_ops := (stage_ops sch)[op_stage := repl_op]\<rparr>,
                   vmap(op_output stage_op 0 \<mapsto> op_output repl_op 0),
                   rvmap(op_output repl_op 0 \<mapsto> op_output stage_op 0))))"

definition single_pattern_message :: "LayoutEnv \<Rightarrow> Tensor \<Rightarrow> string" where
  "single_pattern_message env t =
     ''Tensor dense indexing suported for single access pattern tensors '' @ tensor_str env t"

definition ReplaceIndexTensorByDenseTensor ::
  "LayoutEnv \<Rightarrow> Schedule \<Rightarrow> nat \<Rightarrow> Tensor \<Rightarrow> Tensor \<Rightarrow> Dimension list \<Rightarrow> Dimension list \<Rightarrow>
   error + Schedule" where
  "ReplaceIndexTensorByDenseTensor env sch s old_tensor new_tensor old_dims new_dims =
     (let sch1 = sch\<lparr>stage_ops := (stage_ops sch)[s := tensor_op new_tensor]\<rparr>
      in case GetFeedGraph env sch1 old_tensor of
           None \<Rightarrow> Inl (Fatal ''std::out_of_range: feed_graph.at(old_tensor)'')
         | Some readers \<Rightarrow>
             (case AccessPatternCollector env old_tensor old_dims readers of
                (patterns, access_to_pattern_map) \<Rightarrow>
                  (if length patterns \<noteq> 1
                   then Inl (Fatal (single_pattern_message env old_tensor))
                   else
                     (case replace_readers env (InitCache sch1) access_to_pattern_map old_tensor
                             new_tensor new_dims old_dims readers
                             (sch1, (\<lambda>_. None), (\<lambda>_. None)) of
                        Inl err \<Rightarrow> Inl err
                      | Inr (sch2, vmap, rvmap) \<Rightarrow> Inr (ReplaceDataFlow env sch2 vmap rvmap)))))"

subsection \<open>The outcome of the replacement, and example inputs of the rewriter\<close>

text \<open>
  Every reader has been replaced: the stage that held the reader holds the rewritten
  reader, and the substitution map sends the reader's output to the rewritten output.
\<close>

definition readers_replaced ::
  "LayoutEnv \<Rightarrow> Schedule \<Rightarrow> nat list \<Rightarrow> (nat \<times> nat) list \<Rightarrow> Tensor \<Rightarrow> Dimension list \<Rightarrow>
   Dimension list \<Rightarrow> Schedule \<Rightarrow> (Tensor \<Rightarrow> Tensor option) \<Rightarrow> bool" where
  "readers_replaced env sch1 readers apm new_tensor new_dims old_dims sch2 vmap =
     (\<forall>opr \<in> set readers. \<exists>i < length (stage_ops sch1).
        stage_ops sch1 ! i = opr \<and>
        stage_ops sch2 ! i = ReplaceInputs env opr apm new_tensor new_dims old_dims \<and>
        vmap (op_output opr 0) =
          Some (op_output (ReplaceInputs env opr apm new_tensor new_dims old_dims) 0))"

definition ex_dim :: Dimension where
  "ex_dim = \<lparr> dim_name = ''d0'', dim_id = 0, dim_type = kRangeDim \<rparr>"

definition ex_iv :: IterVar where
  "ex_iv = \<lparr> iv_var = ex_loop_var, iter_type = kDataPar, thread_tag = [] \<rparr>"

definition ex_dim_map :: "Dimension \<Rightarrow> DimVarEntry option" where
  "ex_dim_map d = (if d = ex_dim then Some \<lparr> entry_dim = ex_dim, entry_iv = ex_iv \<rparr> else None)"

definition ex_compute_ops :: "nat \<Rightarrow> ComputeOpNode option" where
  "ex_compute_ops i =
     (if i = 5 then Some \<lparr> op_name = ''upd'', op_tag = [], op_attrs = [],
                            dim2var_maps = [ex_dim_map], var2dim_map = [],
                            root_index_dimensions = [ex_dim] \<rparr>
      else None)"

definition ex_scan_op :: ScanOpNode where
  "ex_scan_op =
     \<lparr> op_name = ''s'', op_tag = ''scan'', op_attrs = [], dim2var_maps = [ex_dim_map],
       var2dim_map = [], scan_axis = ex_iv, explicit_dims = [ex_dim],
       explicit_loop_ivs = [ex_iv], scan_init = [op_output 3 0], scan_update = [op_output 4 0],
       state_placeholder = [op_output 2 0], scan_inputs = [], scan_dim = ex_dim,
       init_separate = False, spatial_dimensions' = [], spatial_axis' = [] \<rparr>"

definition ex_conditional_op :: ConditionalOpNode where
  "ex_conditional_op =
     \<lparr> op_name = ''c'', op_tag = ''cond'', op_attrs = [], dim2var_maps = [ex_dim_map],
       var2dim_map = [], from_then = [], then_case = [op_output 4 0], from_else = [],
       else_case = [op_output 3 0], cond_condition = IntImmNode Bool1 1,
       cond_explicit_dims = [ex_dim], cond_explicit_loop_ivs = [ex_iv],
       cond_spatial_axis' = [], cond_spatial_dimensions' = [], explicit_dimensions = [] \<rparr>"

text \<open>
  A schedule of three stages: stage 0 computes the tensor to densify (operation 10),
  stages 1 and 2 read it. \<open>ex_layout_env n\<close> finds \<open>n\<close> access patterns.
\<close>

definition ex_schedule :: Schedule where
  "ex_schedule = \<lparr> stage_ops = [10, 11, 12] \<rparr>"

definition ex_layout_env :: "nat \<Rightarrow> LayoutEnv" where
  "ex_layout_env n =
     \<lparr> GetFeedGraph = (\<lambda>sch t. if t = op_output 10 0 then Some [11, 12] else None),
       AccessPatternCollector = (\<lambda>t dims readers. ([0..<n], [])),
       ReplaceInputs = (\<lambda>opr apm t nd od. opr + 100),
       ReplaceDataFlow = (\<lambda>sch vmap rvmap. sch),
       tensor_str = (\<lambda>t. ''T'' @ to_string (tensor_op t)) \<rparr>"

section \<open>Dependency indexer and loop-nest builder\<close>

subsection \<open>Stages, ranges and nests\<close>

record Range =
  range_min :: PrimExpr
  extent :: PrimExpr

record IterVarAttr =
  attr_iter_type :: IterVarType
  bind_thread :: "IterVar option"
  pragma_keys :: "PrimExpr list"
  pragma_values :: "PrimExpr option list"
  prefetch_data :: "Tensor list"
  prefetch_offset :: "PrimExpr list"

text \<open>
  What the builder reads of a stage: the ordered leaf loop variables, the attributes of
  the loop variables that have some, and the loop variable that the stage's operation
  gives for a dimension (of its first output).
\<close>

record Stage =
  leaf_iter_vars :: "IterVar list"
  iter_var_attrs :: "IterVar \<Rightarrow> IterVarAttr option"
  GetIterVarFromDim :: "Dimension \<Rightarrow> IterVar"

text \<open>
  An entry of a loop nest is a statement whose body is the no-op placeholder; the model
  keeps the head of the statement. A loop entry always starts at zero.
\<close>

datatype NestObject = IterVarNode IterVar | TensorNode Tensor

datatype NestStmt =
    NestLet Var PrimExpr
  | NestFor Var PrimExpr ForType
  | NestAttr NestObject string PrimExpr

text \<open>
  The collaborators of the indexer and the builder that are not among the sources: the
  simplifier, the relaxation and the inlining of derivation-function calls in a range,
  the call of a derivation function on argument values, and the downward propagation of
  a bit mask over the loop variables of a stage (given the loop variables whose bit is
  set, it returns every loop variable of the final table with its bit).
\<close>

record NestEnv =
  tir_Simplify :: "PrimExpr \<Rightarrow> PrimExpr"
  RelaxComplexUninterpCalls :: "PrimExpr \<Rightarrow> PrimExpr"
  InlineUninterpFunCalls :: "Range \<Rightarrow> Range"
  substitute :: "UninterpFun \<Rightarrow> PrimExpr list \<Rightarrow> Dimension list \<Rightarrow> PrimExpr"
  PassDownBitMaskOr :: "Stage \<Rightarrow> IterVar list \<Rightarrow> (IterVar \<times> int) list"

text \<open>
  The constant tests of the expression library (not among the sources): an expression is
  one, zero or a positive constant when it is that integer constant.
\<close>

definition is_one :: "PrimExpr \<Rightarrow> bool" where
  "is_one e = (case e of IntImmNode t n \<Rightarrow> n = 1 | _ \<Rightarrow> False)"

definition is_zero :: "PrimExpr \<Rightarrow> bool" where
  "is_zero e = (case e of IntImmNode t n \<Rightarrow> n = 0 | _ \<Rightarrow> False)"

definition is_positive_const :: "PrimExpr \<Rightarrow> bool" where
  "is_positive_const e = (case e of IntImmNode t n \<Rightarrow> 0 < n | _ \<Rightarrow> False)"

text \<open>
  Modelled from the spec: the variable collector (not among the sources) collects the
  free variables that appear in an expression.
\<close>

fun VarCollector :: "PrimExpr \<Rightarrow> Var list" where
  "VarCollector (VarNode v) = [v]"
| "VarCollector (SizeVarNode v) = [v]"
| "VarCollector (IntImmNode t n) = []"
| "VarCollector (StringImmNode s) = []"
| "VarCollector (CastNode t a) = VarCollector a"
| "VarCollector (NotNode a) = VarCollector a"
| "VarCollector (BinaryNode b x y) = VarCollector x @ VarCollector y"
| "VarCollector (SelectNode c x y) = VarCollector c @ VarCollector x @ VarCollector y"
| "VarCollector (LoadNode t b i) = b # VarCollector i"
| "VarCollector (CallNode t n args ct f) = concat (map VarCollector args)"

subsection \<open>The dependency indexer\<close>

type_synonym NeededFor = "Var \<Rightarrow> DimInfo list option"

type_synonym DepCount = "Var \<Rightarrow> int option"

text \<open>
  The loop over the propagated table of one derived dimension \<open>di\<close>: every leaf loop
  variable whose bit is set and that is not generated yet counts as one dependency, and
  \<open>di\<close> is recorded as needing it.
\<close>

fun index_state_loop ::
  "Var set \<Rightarrow> Var set \<Rightarrow> DimInfo \<Rightarrow> (IterVar \<times> int) list \<Rightarrow> int \<times> NeededFor \<Rightarrow> int \<times> NeededFor" where
  "index_state_loop generated_vars already_generated_vars di [] acc = acc"
| "index_state_loop generated_vars already_generated_vars di ((it, b) # state) (dep_count, nf) =
     (if iv_var it \<in> generated_vars \<and> b = 1 \<and> iv_var it \<notin> already_generated_vars then
        index_state_loop generated_vars already_generated_vars di state
          (dep_count + 1,
           nf(iv_var it \<mapsto> (case nf (iv_var it) of None \<Rightarrow> [di] | Some idx_vars \<Rightarrow> idx_vars @ [di])))
      else index_state_loop generated_vars already_generated_vars di state (dep_count, nf))"

fun index_dims_loop ::
  "NestEnv \<Rightarrow> Stage \<Rightarrow> Var set \<Rightarrow> Var set \<Rightarrow> DimInfo list \<Rightarrow> NeededFor \<times> DepCount \<Rightarrow>
   NeededFor \<times> DepCount" where
  "index_dims_loop env stage generated_vars already_generated_vars [] acc = acc"
| "index_dims_loop env stage generated_vars already_generated_vars (di # dis) (nf, dc) =
     (if isLoopDim (di_dim di) then
        index_dims_loop env stage generated_vars already_generated_vars dis (nf, dc)
      else
        (let state = PassDownBitMaskOr env stage
                       (map (GetIterVarFromDim stage) (dimensions (di_ufun di)));
             r = index_state_loop generated_vars already_generated_vars di state (0, nf)
         in index_dims_loop env stage generated_vars already_generated_vars dis
              (snd r, dc(iv_var (di_iv di) \<mapsto> fst r))))"

text \<open>
  The loop over the leaf loop variables that records what the extent of each needs. The
  table of index variables is empty when the loop runs, so no index variable is ever
  recorded as needed.
\<close>

fun index_leaf_loop ::
  "(IterVar \<Rightarrow> Range option) \<Rightarrow> Var set \<Rightarrow> Var set \<Rightarrow> IterVar list \<Rightarrow>
   (Var \<Rightarrow> Var list option) \<times> (Var \<Rightarrow> Var list option) \<Rightarrow>
   error + ((Var \<Rightarrow> Var list option) \<times> (Var \<Rightarrow> Var list option))" where
  "index_leaf_loop dom_map root_vars already_generated_vars [] acc = Inr acc"
| "index_leaf_loop dom_map root_vars already_generated_vars (lv # lvs) (idx_dep, root_dep) =
     (case dom_map lv of
        None \<Rightarrow> Inl (Fatal ''std::out_of_range: dom_map.at(lv)'')
      | Some r \<Rightarrow>
          (let input_vars = remdups (VarCollector (extent r));
               dep_idx_vars = filter (\<lambda>inp. False \<and> inp \<notin> already_generated_vars) input_vars;
               dep_loop_vars =
                 filter (\<lambda>inp. inp \<in> root_vars \<and> inp \<notin> already_generated_vars) input_vars
           in index_leaf_loop dom_map root_vars already_generated_vars lvs
                (idx_dep(iv_var lv \<mapsto> dep_idx_vars), root_dep(iv_var lv \<mapsto> dep_loop_vars))))"

record LoopVarDeps =
  index_vars_loop_vars_depend_on :: "Var \<Rightarrow> Var list option"
  root_vars_loop_vars_depend_on :: "Var \<Rightarrow> Var list option"
  index_vars_loop_vars_are_needed_for :: NeededFor
  index_vars_dep_count :: DepCount

definition IndexLoopVarDeps ::
  "NestEnv \<Rightarrow> Stage \<Rightarrow> DimInfo list \<Rightarrow> (IterVar \<Rightarrow> Range option) \<Rightarrow> (IterVar \<times> PrimExpr) list \<Rightarrow>
   error + LoopVarDeps" where
  "IndexLoopVarDeps env stage all_dimensions dom_map value_map =
     (if \<exists>di \<in> set all_dimensions. isFunDim (di_dim di)
      then Inl (Fatal ''Check failed: !di->dim->isFunDim()'')
      else
        (let root_vars = (\<lambda>di. iv_var (di_iv di)) ` set all_dimensions;
             generated_vars = iv_var ` set (leaf_iter_vars stage);
             already_generated_vars = iv_var ` fst ` set value_map
         in case index_leaf_loop dom_map root_vars already_generated_vars (leaf_iter_vars stage)
                   ((\<lambda>_. None), (\<lambda>_. None)) of
              Inl err \<Rightarrow> Inl err
            | Inr (idx_dep, root_dep) \<Rightarrow>
                (let r = index_dims_loop env stage generated_vars already_generated_vars
                           all_dimensions ((\<lambda>_. None), (\<lambda>_. None))
                 in Inr \<lparr> index_vars_loop_vars_depend_on = idx_dep,
                          root_vars_loop_vars_depend_on = root_dep,
                          index_vars_loop_vars_are_needed_for = fst r,
                          index_vars_dep_count = snd r \<rparr>)))"

subsection \<open>The loop-nest builder\<close>

text \<open>
  The state of the builder: the nest (one list of entries per level), the value map (an
  association list; a new entry for a loop variable goes in front and hides an older
  one), the sets of generated variables, the remaining-dependency counters, and the
  identity that the next new variable takes.
\<close>

record NestState =
  nest :: "NestStmt list list"
  value_map :: "(IterVar \<times> PrimExpr) list"
  generated_loop_vars :: "Var set"
  generated_index_vars :: "Var set"
  dep_count :: DepCount
  next_var :: nat

definition emplace_back :: "nat \<Rightarrow> NestStmt list \<Rightarrow> NestState \<Rightarrow> NestState" where
  "emplace_back level stmts st = st\<lparr>nest := (nest st)[level := nest st ! level @ stmts]\<rparr>"

definition pragma_stmts :: "IterVar \<Rightarrow> IterVarAttr \<Rightarrow> error + NestStmt list" where
  "pragma_stmts iv a =
     (if length (pragma_keys a) \<noteq> length (pragma_values a)
      then Inl (Fatal ''Check failed: pragma_keys.size() == pragma_values.size()'')
      else if list_ex (\<lambda>k. case k of StringImmNode s \<Rightarrow> False | _ \<Rightarrow> True) (pragma_keys a)
      then Inl (Fatal ''null pointer: the pragma key is no string'')
      else Inr (map (\<lambda>(k, v). NestAttr (IterVarNode iv)
                        (''pragma_'' @ (case k of StringImmNode s \<Rightarrow> s | _ \<Rightarrow> []))
                        (case v of None \<Rightarrow> IntImmNode Int32 1 | Some pvalue \<Rightarrow> pvalue))
                  (zip (pragma_keys a) (pragma_values a))))"

definition for_type_of :: "IterVarAttr option \<Rightarrow> error + ForType" where
  "for_type_of it_attr =
     (case it_attr of
        None \<Rightarrow> Inr Serial
      | Some a \<Rightarrow>
          (case attr_iter_type a of
             kUnrolled \<Rightarrow> Inr Unrolled
           | kPeeled \<Rightarrow> Inr Peeled
           | kVectorized \<Rightarrow> Inr Vectorized
           | kParallelized \<Rightarrow> Inr Parallel
           | kDataPar \<Rightarrow> Inr Serial
           | kTensorized \<Rightarrow> Inr Serial
           | _ \<Rightarrow> Inl (Fatal ''Unknown iter type in the iter_var_attrs'')))"

definition prefetch_stmts :: "IterVarAttr option \<Rightarrow> Range \<Rightarrow> error + NestStmt list" where
  "prefetch_stmts it_attr domain =
     (case it_attr of
        None \<Rightarrow> Inr []
      | Some a \<Rightarrow>
          (if prefetch_data a = [] then Inr []
           else if is_one (extent domain)
           then Inl (Fatal ''Cannot prefetch on trivial loop with extent=1'')
           else if length (prefetch_data a) \<noteq> length (prefetch_offset a)
           then Inl (Fatal ''Check failed: prefetch_data.size() == prefetch_offset.size()'')
           else Inr (map (\<lambda>(t, off). NestAttr (TensorNode t) ''prefetch_scope'' off)
                       (zip (prefetch_data a) (prefetch_offset a)))))"

text \<open>
  The three ways to materialise an unbound loop variable \<open>iv\<close> over the range \<open>domain\<close>.
  \<open>var\<close> is the variable the loop construct runs over, \<open>idx\<close> the auxiliary induction
  variable of the third way, \<open>one_extent\<close> the extent that is tested for being one. The
  result is the entries and the value of \<open>iv\<close>.
\<close>

definition loop_entries ::
  "bool \<Rightarrow> PrimExpr \<Rightarrow> Range \<Rightarrow> Var \<Rightarrow> Var \<Rightarrow> ForType \<Rightarrow> NestStmt list \<times> PrimExpr" where
  "loop_entries debug_keep_trivial_loop one_extent domain var idx ftype =
     (if \<not> debug_keep_trivial_loop \<and> is_one one_extent then
        ([NestLet var (range_min domain)], range_min domain)
      else if is_zero (range_min domain) then
        ([NestFor var (extent domain) ftype], VarNode var)
      else
        (let new_value = BinaryNode AddOp (range_min domain) (VarNode idx)
         in ([NestFor idx (extent domain) ftype, NestLet var new_value], new_value)))"

text \<open>
  The variable that the loop construct of an unbound loop variable runs over (a new
  variable when the caller asks for new loop variables, else the variable of the loop
  variable it is bound to), and the auxiliary induction variable. \<open>n\<close> is the first
  free identity.
\<close>

definition loop_var_for :: "bool \<Rightarrow> IterVar \<Rightarrow> IterVar \<Rightarrow> nat \<Rightarrow> Var" where
  "loop_var_for new_loop_var iv bind_iv n =
     (if new_loop_var
      then Var (name_hint (iv_var iv) @ ''.init'') n (var_dtype (iv_var bind_iv))
      else iv_var bind_iv)"

definition aux_var_for :: "bool \<Rightarrow> IterVar \<Rightarrow> nat \<Rightarrow> Var" where
  "aux_var_for new_loop_var bind_iv n =
     Var (name_hint (iv_var bind_iv) @ ''.idx'') (if new_loop_var then n + 1 else n)
       (var_dtype (iv_var bind_iv))"

text \<open>
  The entries and the value for one leaf loop variable, by the thread tag of the variable
  it is bound to. \<open>one_extent\<close> is as above. The result also gives the next free
  identity.
\<close>

definition leaf_entries ::
  "bool \<Rightarrow> bool \<Rightarrow> PrimExpr \<Rightarrow> IterVar \<Rightarrow> IterVar \<Rightarrow> IterVarAttr option \<Rightarrow> Range \<Rightarrow> nat \<Rightarrow>
   error + (NestStmt list \<times> PrimExpr \<times> nat)" where
  "leaf_entries new_loop_var debug_keep_trivial_loop one_extent iv bind_iv it_attr domain n =
     (if thread_tag bind_iv = [] then
        (case for_type_of it_attr of
           Inl err \<Rightarrow> Inl err
         | Inr ftype \<Rightarrow>
             (case (case it_attr of None \<Rightarrow> Inr [] | Some a \<Rightarrow> pragma_stmts iv a) of
                Inl err \<Rightarrow> Inl err
              | Inr pragmas \<Rightarrow>
                  (case prefetch_stmts it_attr domain of
                     Inl err \<Rightarrow> Inl err
                   | Inr prefetches \<Rightarrow>
                       (case loop_entries debug_keep_trivial_loop one_extent domain
                               (loop_var_for new_loop_var iv bind_iv n)
                               (aux_var_for new_loop_var bind_iv n) ftype of
                          (stmts, v) \<Rightarrow> Inr (pragmas @ stmts @ prefetches, v, n + 2)))))
      else if thread_tag bind_iv = ''vthread'' \<or> thread_tag bind_iv = ''cthread'' then
        (if \<not> is_zero (range_min domain) then Inl (Fatal ''Check failed: is_zero(dom->min)'')
         else if \<not> is_positive_const (extent domain)
         then Inl (Fatal ''Check failed: is_positive_const(dom->extent)'')
         else Inr ([NestAttr (IterVarNode bind_iv) ''virtual_thread'' (extent domain)],
                   VarNode (iv_var bind_iv), n))
      else if thread_tag bind_iv = ''pipeline'' then
        (if \<not> is_zero (range_min domain) then Inl (Fatal ''Check failed: is_zero(dom->min)'')
         else if \<not> is_one (extent domain) then Inl (Fatal ''Check failed: is_one(dom->extent)'')
         else Inr ([NestAttr (IterVarNode bind_iv) ''pipeline_exec_scope'' (extent domain)],
                   range_min domain, n))
      else
        (if \<not> is_zero (range_min domain) then Inl (Fatal ''Check failed: is_zero(dom->min)'')
         else Inr ([NestAttr (IterVarNode bind_iv) ''thread_extent'' (extent domain)],
                   (if \<not> debug_keep_trivial_loop \<and> is_one (extent domain) then range_min domain
                    else VarNode (iv_var bind_iv)), n)))"

definition loop_scope_entry :: "bool \<Rightarrow> IterVar \<Rightarrow> NestStmt list" where
  "loop_scope_entry new_loop_var iv =
     (if new_loop_var then []
      else [NestAttr (IterVarNode iv) ''loop_scope'' (VarNode (iv_var iv))])"

definition bind_iv_of :: "Stage \<Rightarrow> IterVar \<Rightarrow> IterVar" where
  "bind_iv_of stage iv =
     (case iter_var_attrs stage iv of
        None \<Rightarrow> iv
      | Some a \<Rightarrow> (case bind_thread a of None \<Rightarrow> iv | Some b \<Rightarrow> b))"

text \<open>
  The loop over the derived dimensions that need the variable just generated. The
  accumulator is the work list \<open>generated_now\<close> and the state.
\<close>

fun cascade_step ::
  "NestEnv \<Rightarrow> Stage \<Rightarrow> nat \<Rightarrow> DimInfo list \<Rightarrow> Var list \<times> NestState \<Rightarrow> Var list \<times> NestState" where
  "cascade_step env stage i [] acc = acc"
| "cascade_step env stage i (di # dis) (generated_now, st) =
     (let var_node = iv_var (di_iv di)
      in case dep_count st var_node of
           None \<Rightarrow> cascade_step env stage i dis (generated_now, st)
         | Some c \<Rightarrow>
             (if c = 1 then
                (let arg_dims = dimensions (di_ufun di);
                     args = map (\<lambda>d. VarNode (iv_var (GetIterVarFromDim stage d))) arg_dims
                 in cascade_step env stage i dis
                      (generated_now @ [var_node],
                       (emplace_back (i + 1)
                          [NestLet var_node (substitute env (di_ufun di) args arg_dims)] st)
                         \<lparr>generated_index_vars := insert var_node (generated_index_vars st)\<rparr>))
              else if 1 < c then
                cascade_step env stage i dis
                  (generated_now, st\<lparr>dep_count := (dep_count st)(var_node \<mapsto> c - 1)\<rparr>)
              else cascade_step env stage i dis (generated_now, st)))"

text \<open>
  The work-list loop. It ends when the work list is empty; nothing in the loop itself
  bounds the number of rounds, so the result is optional.
\<close>

partial_function (option) cascade ::
  "NestEnv \<Rightarrow> Stage \<Rightarrow> NeededFor \<Rightarrow> nat \<Rightarrow> Var list \<Rightarrow> NestState \<Rightarrow> NestState option" where
  "cascade env stage needed_for i generated_now st =
     (if generated_now = [] then Some st
      else
        (case needed_for (last generated_now) of
           None \<Rightarrow> cascade env stage needed_for i (butlast generated_now) st
         | Some dis \<Rightarrow>
             (case cascade_step env stage i dis (butlast generated_now, st) of
                (generated_now', st') \<Rightarrow> cascade env stage needed_for i generated_now' st')))"

declare cascade.simps [code]

definition skipped :: "bool \<Rightarrow> Stage \<Rightarrow> IterVar set \<Rightarrow> IterVar \<Rightarrow> bool" where
  "skipped attr_split stage skip_iter iv =
     (iv \<in> skip_iter \<or> iter_type iv = kOpaque \<or> iter_type iv = kLoopNestOpaque \<or>
      iter_type iv = kSplit \<or>
      (attr_split \<and> (case iter_var_attrs stage iv of
                        None \<Rightarrow> False
                      | Some a \<Rightarrow> attr_iter_type a = kSplit)))"

text \<open>The range over which the leaf loop variable \<open>iv\<close> is materialised.\<close>

definition leaf_dom ::
  "NestEnv \<Rightarrow> Stage \<Rightarrow> (IterVar \<Rightarrow> Range option) \<Rightarrow> bool \<Rightarrow> IterVar \<Rightarrow> error + Range" where
  "leaf_dom env stage dom_map all_dependencies_satisfied iv =
     (case dom_map iv of
        None \<Rightarrow> Inl (Fatal ''std::out_of_range: dom_map.at(iv)'')
      | Some dom_iv \<Rightarrow>
          (if bind_iv_of stage iv \<noteq> iv then
             (case dom_map (bind_iv_of stage iv) of
                None \<Rightarrow> Inl (Fatal ''std::out_of_range: dom_map.at(bind_iv)'')
              | Some dom_bind \<Rightarrow> Inr (InlineUninterpFunCalls env dom_bind))
           else if \<not> all_dependencies_satisfied then
             Inr (InlineUninterpFunCalls env
                    \<lparr> range_min = RelaxComplexUninterpCalls env (range_min dom_iv),
                      extent = RelaxComplexUninterpCalls env (extent dom_iv) \<rparr>)
           else Inr (InlineUninterpFunCalls env dom_iv)))"

text \<open>One round of the loop of \<open>MakeLoopNestFromDependentVars\<close>, for the leaf position \<open>i\<close>.\<close>

definition dependent_leaf ::
  "NestEnv \<Rightarrow> Stage \<Rightarrow> (IterVar \<Rightarrow> Range option) \<Rightarrow> bool \<Rightarrow> IterVar set \<Rightarrow> bool \<Rightarrow>
   (Var \<Rightarrow> Var list option) \<Rightarrow> NeededFor \<Rightarrow> nat \<Rightarrow> NestState \<Rightarrow> (error + NestState) option" where
  "dependent_leaf env stage dom_map new_loop_var skip_iter debug_keep_trivial_loop
     depend_on needed_for i st =
     (let iv = leaf_iter_vars stage ! i
      in if skipped True stage skip_iter iv
         then Some (Inr (st\<lparr>value_map := (iv, VarNode (iv_var iv)) # value_map st\<rparr>))
         else
           (case depend_on (iv_var iv) of
              None \<Rightarrow> Some (Inl (Fatal ''Map::at: index_vars_loop_vars_depend_on''))
            | Some idx_vars \<Rightarrow>
                (let all_dependencies_satisfied =
                       list_all (\<lambda>idx_var. idx_var \<in> generated_index_vars st) idx_vars;
                     st1 = st\<lparr>generated_loop_vars := insert (iv_var iv) (generated_loop_vars st)\<rparr>
                 in case leaf_dom env stage dom_map all_dependencies_satisfied iv of
                      Inl err \<Rightarrow> Some (Inl err)
                    | Inr domain \<Rightarrow>
                        (case leaf_entries new_loop_var debug_keep_trivial_loop
                                (tir_Simplify env (extent domain)) iv (bind_iv_of stage iv)
                                (iter_var_attrs stage iv) domain (next_var st1) of
                           Inl err \<Rightarrow> Some (Inl err)
                         | Inr (stmts, v, n) \<Rightarrow>
                             map_option Inr
                               (cascade env stage needed_for i [iv_var iv]
                                  ((emplace_back (i + 1)
                                      (stmts @ loop_scope_entry new_loop_var iv) st1)
                                     \<lparr>value_map := (iv, v) # value_map st1,
                                      next_var := n\<rparr>))))))"

fun dependent_loop ::
  "NestEnv \<Rightarrow> Stage \<Rightarrow> (IterVar \<Rightarrow> Range option) \<Rightarrow> bool \<Rightarrow> IterVar set \<Rightarrow> bool \<Rightarrow>
   (Var \<Rightarrow> Var list option) \<Rightarrow> NeededFor \<Rightarrow> nat list \<Rightarrow> NestState \<Rightarrow> (error + NestState) option" where
  "dependent_loop env stage dom_map new_loop_var skip_iter keep depend_on needed_for [] st =
     Some (Inr st)"
| "dependent_loop env stage dom_map new_loop_var skip_iter keep depend_on needed_for (i # is) st =
     (case dependent_leaf env stage dom_map new_loop_var skip_iter keep depend_on needed_for i st of
        None \<Rightarrow> None
      | Some (Inl err) \<Rightarrow> Some (Inl err)
      | Some (Inr st') \<Rightarrow>
          dependent_loop env stage dom_map new_loop_var skip_iter keep depend_on needed_for is st')"

definition resize_nest :: "nat \<Rightarrow> NestStmt list list \<Rightarrow> NestStmt list list" where
  "resize_nest n ns = take n ns @ replicate (n - length ns) []"

text \<open>
  \<open>MakeLoopNestFromDependentVars\<close>: the nest, the value map and the counters come in with
  the state and go out with it.
\<close>

definition MakeLoopNestFromDependentVars ::
  "NestEnv \<Rightarrow> Stage \<Rightarrow> (IterVar \<Rightarrow> Range option) \<Rightarrow> nat \<Rightarrow> bool \<Rightarrow> IterVar set \<Rightarrow> bool \<Rightarrow>
   LoopVarDeps \<Rightarrow> NestState \<Rightarrow> (error + NestState) option" where
  "MakeLoopNestFromDependentVars env stage dom_map begin_iter_pos new_loop_var skip_iter
     debug_keep_trivial_loop deps st =
     dependent_loop env stage dom_map new_loop_var skip_iter debug_keep_trivial_loop
       (index_vars_loop_vars_depend_on deps) (index_vars_loop_vars_are_needed_for deps)
       [begin_iter_pos..<length (leaf_iter_vars stage)]
       (st\<lparr>nest := resize_nest (length (leaf_iter_vars stage) + 1) (nest st),
           generated_loop_vars := {}, generated_index_vars := {},
           dep_count := index_vars_dep_count deps\<rparr>)"

text \<open>
  \<open>MakeComputeOpLoopNest\<close>, up to the upward index propagation that follows the builder
  (which is not among the sources and adds no entry to the nest).
\<close>

definition MakeComputeOpLoopNest ::
  "NestEnv \<Rightarrow> Stage \<Rightarrow> (IterVar \<Rightarrow> Range option) \<Rightarrow> nat \<Rightarrow> bool \<Rightarrow> IterVar set \<Rightarrow>
   (IterVar \<times> PrimExpr) list \<Rightarrow> bool \<Rightarrow> DimInfo list \<Rightarrow> nat \<Rightarrow> (error + NestState) option" where
  "MakeComputeOpLoopNest env stage dom_map begin_iter_pos new_loop_var skip_iter p_value_map
     debug_keep_trivial_loop all_dimensions fresh =
     (case IndexLoopVarDeps env stage all_dimensions dom_map p_value_map of
        Inl err \<Rightarrow> Some (Inl err)
      | Inr deps \<Rightarrow>
          MakeLoopNestFromDependentVars env stage dom_map begin_iter_pos new_loop_var skip_iter
            debug_keep_trivial_loop deps
            \<lparr> nest = [], value_map = p_value_map, generated_loop_vars = {},
              generated_index_vars = {}, dep_count = (\<lambda>_. None), next_var = fresh \<rparr>)"




subsection \<open>What the builder is to produce, and example inputs of the builder\<close>

definition is_loop :: "NestStmt \<Rightarrow> bool" where
  "is_loop s = (case s of NestFor x e f \<Rightarrow> True | _ \<Rightarrow> False)"

definition is_let :: "NestStmt \<Rightarrow> bool" where
  "is_let s = (case s of NestLet x e \<Rightarrow> True | _ \<Rightarrow> False)"


text \<open>
  A round of the work list at level \<open>i + 1\<close> only appends value bindings to that level.
\<close>

definition lets_added :: "nat \<Rightarrow> NestState \<Rightarrow> NestState \<Rightarrow> bool" where
  "lets_added i st st' =
     (value_map st' = value_map st \<and> next_var st' = next_var st \<and>
      length (nest st') = length (nest st) \<and>
      (\<forall>l. l \<noteq> i + 1 \<longrightarrow> nest st' ! l = nest st ! l) \<and>
      (\<exists>ls. nest st' ! (i + 1) = nest st ! (i + 1) @ ls \<and> list_all is_let ls))"


text \<open>
  The value bindings of the variable \<open>dv\<close> among the entries of a level, and their number
  in every level of the nest.
\<close>

definition binds :: "Var \<Rightarrow> NestStmt \<Rightarrow> bool" where
  "binds dv s = (case s of NestLet x e \<Rightarrow> x = dv | _ \<Rightarrow> False)"

definition bindings_of :: "Var \<Rightarrow> NestStmt list \<Rightarrow> nat" where
  "bindings_of dv level = length (filter (binds dv) level)"

definition bindings_per_level :: "Var \<Rightarrow> NestState \<Rightarrow> nat list" where
  "bindings_per_level dv st = map (bindings_of dv) (nest st)"

text \<open>
  The leaf loop variables that a derived dimension \<open>di\<close> depends on and that are not
  generated yet, as the indexer counts them: the entries of the propagated table of
  \<open>di\<close> whose variable is a leaf loop variable, whose bit is set and whose variable has
  no value in the value map.
\<close>

definition counted :: "Var set \<Rightarrow> Var set \<Rightarrow> (IterVar \<times> int) list \<Rightarrow> Var list" where
  "counted generated_vars already_generated_vars state =
     map (\<lambda>x. iv_var (fst x))
       (filter (\<lambda>x. iv_var (fst x) \<in> generated_vars \<and> snd x = 1 \<and>
                    iv_var (fst x) \<notin> already_generated_vars) state)"

definition dependency_leaf_vars ::
  "NestEnv \<Rightarrow> Stage \<Rightarrow> (IterVar \<times> PrimExpr) list \<Rightarrow> DimInfo \<Rightarrow> Var list" where
  "dependency_leaf_vars env stage p_value_map di =
     counted (iv_var ` set (leaf_iter_vars stage)) (iv_var ` fst ` set p_value_map)
       (PassDownBitMaskOr env stage (map (GetIterVarFromDim stage) (dimensions (di_ufun di))))"

text \<open>The derived dimensions recorded as needing a variable.\<close>

definition needed_list :: "NeededFor \<Rightarrow> Var \<Rightarrow> DimInfo list" where
  "needed_list nf v = (case nf v of None \<Rightarrow> [] | Some dis \<Rightarrow> dis)"

text \<open>
  How many times the round of the leaf position \<open>i\<close> visits the derived variable \<open>dv\<close>:
  a skipped position has no round of the work list; another position visits every entry
  recorded as needing its variable.
\<close>

definition occurrences :: "NeededFor \<Rightarrow> Var \<Rightarrow> Stage \<Rightarrow> IterVar set \<Rightarrow> nat \<Rightarrow> nat" where
  "occurrences nf dv stage skip_iter i =
     (if skipped True stage skip_iter (leaf_iter_vars stage ! i) then 0
      else length (filter (\<lambda>d. iv_var (di_iv d) = dv)
                     (needed_list nf (iv_var (leaf_iter_vars stage ! i)))))"

text \<open>
  The state of the builder before the round of position \<open>a\<close>, for a derived variable
  \<open>dv\<close> whose last dependency is at position \<open>p\<close>: either the counter of \<open>dv\<close> is the
  number of visits still to come and no level binds \<open>dv\<close>, or the counter is one, the
  position \<open>p\<close> is behind, and \<open>dv\<close> is bound once, in level \<open>p + 1\<close>, behind the loop
  constructs of that level.
\<close>

definition emission_invariant ::
  "NeededFor \<Rightarrow> Var \<Rightarrow> Stage \<Rightarrow> IterVar set \<Rightarrow> nat \<Rightarrow> nat \<Rightarrow> NestState \<Rightarrow> bool" where
  "emission_invariant nf dv stage skip_iter p a st =
     (let n = length (leaf_iter_vars stage)
      in length (nest st) = n + 1 \<and> var_id dv < next_var st \<and>
         (case dep_count st dv of
            None \<Rightarrow> False
          | Some c \<Rightarrow>
              (c = int (sum_list (map (occurrences nf dv stage skip_iter) [a..<n])) \<and> 1 \<le> c \<and>
               a \<le> p \<and> bindings_per_level dv st = replicate (n + 1) 0) \<or>
              (c = 1 \<and> p < a \<and> bindings_per_level dv st = (replicate (n + 1) 0)[p + 1 := 1] \<and>
               \<not> list_ex is_loop (dropWhile (\<lambda>s. \<not> binds dv s) (nest st ! (p + 1))))))"

text \<open>
  A stage with the leaf loop variables \<open>x\<close> over \<open>[0, 1)\<close>, \<open>y\<close> over \<open>[0, 8)\<close> and
  \<open>z\<close> over \<open>[2, 10)\<close>, and a derived dimension \<open>d\<close> that is a function of the
  dimensions of \<open>y\<close> and \<open>z\<close>.
\<close>

definition ex_x :: IterVar where
  "ex_x = \<lparr> iv_var = Var ''x'' 10 Int32, iter_type = kDataPar, thread_tag = [] \<rparr>"

definition ex_y :: IterVar where
  "ex_y = \<lparr> iv_var = Var ''y'' 11 Int32, iter_type = kDataPar, thread_tag = [] \<rparr>"

definition ex_z :: IterVar where
  "ex_z = \<lparr> iv_var = Var ''z'' 12 Int32, iter_type = kDataPar, thread_tag = [] \<rparr>"

definition ex_d :: IterVar where
  "ex_d = \<lparr> iv_var = Var ''d'' 13 Int32, iter_type = kDataPar, thread_tag = [] \<rparr>"

definition ex_loop_dim :: "nat \<Rightarrow> Dimension" where
  "ex_loop_dim k = \<lparr> dim_name = ''l'', dim_id = k, dim_type = kRangeDim \<rparr>"

definition ex_fun_dim :: Dimension where
  "ex_fun_dim = \<lparr> dim_name = ''d'', dim_id = 3, dim_type = kFunDim \<rparr>"

definition ex_ufun :: "Dimension list \<Rightarrow> UninterpFun" where
  "ex_ufun ds = \<lparr> ufun_id = 0, fname = ''f'', dimensions = ds \<rparr>"

definition ex_stage :: Stage where
  "ex_stage =
     \<lparr> leaf_iter_vars = [ex_x, ex_y, ex_z],
       iter_var_attrs = (\<lambda>_. None),
       GetIterVarFromDim =
         (\<lambda>d. if dim_id d = 1 then ex_y else if dim_id d = 2 then ex_z else ex_x) \<rparr>"

definition ex_dom_map :: "IterVar \<Rightarrow> Range option" where
  "ex_dom_map =
     [ex_x \<mapsto> \<lparr> range_min = IntImmNode Int32 0, extent = IntImmNode Int32 1 \<rparr>,
      ex_y \<mapsto> \<lparr> range_min = IntImmNode Int32 0, extent = IntImmNode Int32 8 \<rparr>,
      ex_z \<mapsto> \<lparr> range_min = IntImmNode Int32 2, extent = IntImmNode Int32 8 \<rparr>]"

definition ex_loop_dims :: "DimInfo list" where
  "ex_loop_dims =
     [\<lparr> di_dim = ex_loop_dim 0, di_iv = ex_x, di_ufun = ex_ufun [] \<rparr>,
      \<lparr> di_dim = ex_loop_dim 1, di_iv = ex_y, di_ufun = ex_ufun [] \<rparr>,
      \<lparr> di_dim = ex_loop_dim 2, di_iv = ex_z, di_ufun = ex_ufun [] \<rparr>]"

definition ex_derived :: DimInfo where
  "ex_derived = \<lparr> di_dim = ex_fun_dim, di_iv = ex_d,
                   di_ufun = ex_ufun [ex_loop_dim 1, ex_loop_dim 2] \<rparr>"

definition ex_dims :: "DimInfo list" where
  "ex_dims = ex_loop_dims @ [ex_derived]"

definition ex_nest_env :: NestEnv where
  "ex_nest_env =
     \<lparr> tir_Simplify = (\<lambda>e. e),
       RelaxComplexUninterpCalls = (\<lambda>e. e),
       InlineUninterpFunCalls = (\<lambda>r. r),
       substitute = (\<lambda>u args ds. CallNode Int32 (fname u) args PureExtern
                                   (UninterpFunRef (ufun_id u) True)),
       PassDownBitMaskOr = (\<lambda>stage seeds. map (\<lambda>iv. (iv, 1)) seeds) \<rparr>"

text \<open>
  Tables handed to \<open>MakeLoopNestFromDependentVars\<close> directly: the derived dimension \<open>d\<close>
  is needed for \<open>y\<close> and for \<open>z\<close> and its counter is two.
\<close>

definition ex_tables :: LoopVarDeps where
  "ex_tables =
     \<lparr> index_vars_loop_vars_depend_on =
         [iv_var ex_x \<mapsto> [], iv_var ex_y \<mapsto> [], iv_var ex_z \<mapsto> []],
       root_vars_loop_vars_depend_on =
         [iv_var ex_x \<mapsto> [], iv_var ex_y \<mapsto> [], iv_var ex_z \<mapsto> []],
       index_vars_loop_vars_are_needed_for =
         [iv_var ex_y \<mapsto> [ex_derived], iv_var ex_z \<mapsto> [ex_derived]],
       index_vars_dep_count = [iv_var ex_d \<mapsto> 2] \<rparr>"

definition ex_init :: NestState where
  "ex_init = \<lparr> nest = [], value_map = [], generated_loop_vars = {},
                generated_index_vars = {}, dep_count = (\<lambda>_. None), next_var = 100 \<rparr>"

section \<open>Properties\<close>

subsection \<open>The conflict test\<close>

lemma conflict_with_True_iff:
  "conflict_with an x e loop_carry = Inr True \<longleftrightarrow>
     buffer x = buffer e \<and> touched x \<noteq> undefined_set \<and> touched e \<noteq> undefined_set \<and>
     \<not> (\<exists>p q. touched e = single_point p \<and> touched x = single_point q \<and>
                Simplify an p = Simplify an q) \<and>
     \<not> CanProve an (BinaryNode LTOp (projr (IntSet_max (touched x))) (projr (IntSet_min (touched e)))) \<and>
     \<not> CanProve an (BinaryNode GTOp (projr (IntSet_max (touched e))) (projr (IntSet_min (touched x)))) \<and>
     \<not> (double_buffer_write x \<and> acc_type e = kRead \<and> \<not> loop_carry)"
  by (cases "touched x"; cases "touched e") (auto simp: conflict_with_def)

lemma FindConflict_loop_True_iff:
  "FindConflict_loop an vec e loop_carry = Inr True \<longleftrightarrow>
     (\<exists>pre x post. vec = pre @ x # post \<and> conflict_with an x e loop_carry = Inr True \<and>
        (\<forall>y \<in> set pre. conflict_with an y e loop_carry = Inr False))"
proof (induction vec)
  case Nil
  then show ?case by simp
next
  case (Cons y vec)
  show ?case
  proof (cases "conflict_with an y e loop_carry")
    case (Inl err)
    then show ?thesis
      by (auto simp: Cons_eq_append_conv)
  next
    case (Inr b)
    show ?thesis
    proof (cases b)
      case True
      with Inr have "y # vec = [] @ y # vec \<and> conflict_with an y e loop_carry = Inr True"
        by simp
      then have "\<exists>pre x post. y # vec = pre @ x # post \<and>
          conflict_with an x e loop_carry = Inr True \<and>
          (\<forall>z \<in> set pre. conflict_with an z e loop_carry = Inr False)"
        by (metis empty_iff list.set(1))
      with Inr True show ?thesis by simp
    next
      case False
      with Inr have c: "conflict_with an y e loop_carry = Inr False" by simp
      have "(\<exists>pre x post. y # vec = pre @ x # post \<and>
               conflict_with an x e loop_carry = Inr True \<and>
               (\<forall>z \<in> set pre. conflict_with an z e loop_carry = Inr False)) \<longleftrightarrow>
            (\<exists>pre x post. vec = pre @ x # post \<and>
               conflict_with an x e loop_carry = Inr True \<and>
               (\<forall>z \<in> set pre. conflict_with an z e loop_carry = Inr False))"
        (is "?L \<longleftrightarrow> ?R")
      proof
        assume ?L
        then obtain pre x post where h: "y # vec = pre @ x # post"
          "conflict_with an x e loop_carry = Inr True"
          "\<forall>z \<in> set pre. conflict_with an z e loop_carry = Inr False"
          by blast
        with c obtain pre' where "pre = y # pre'"
          by (cases pre) auto
        with h show ?R by auto
      next
        assume ?R
        then obtain pre x post where h: "vec = pre @ x # post"
          "conflict_with an x e loop_carry = Inr True"
          "\<forall>z \<in> set pre. conflict_with an z e loop_carry = Inr False"
          by blast
        then have "y # vec = (y # pre) @ x # post \<and>
          conflict_with an x e loop_carry = Inr True \<and>
          (\<forall>z \<in> set (y # pre). conflict_with an z e loop_carry = Inr False)"
          using c by simp
        then show ?L by blast
      qed
      with c Cons.IH show ?thesis by simp
    qed
  qed
qed

text \<open>
  C1. The conflict test reports no conflict between a write that touches \<open>[0, 10]\<close> and
  a later read of the same buffer that touches \<open>[5, 15]\<close>, although the two intervals
  share the points 5 to 10, neither is a single point, and the write is no double-buffer
  write: the second bound comparison of the test, \<open>max of the new access > min of the
  earlier one\<close>, holds for these overlapping intervals and makes the test skip the pair.
\<close>

theorem FindConflict_misses_overlap:
  "FindConflict ex_env [ex_access kWrite 0 10] (ex_access kRead 5 15) False = Inr False \<and>
   buffer (ex_access kWrite 0 10) = buffer (ex_access kRead 5 15) \<and>
   \<not> is_single_point (touched (ex_access kWrite 0 10)) \<and>
   \<not> is_single_point (touched (ex_access kRead 5 15)) \<and>
   \<not> double_buffer_write (ex_access kWrite 0 10) \<and>
   (5::int) \<in> {0..10} \<inter> {5..15}"
  by (simp add: FindConflict_def conflict_with_def ex_env_def ex_access_def const_analyzer_def)

subsection \<open>The loop-carry pass\<close>

lemma updatedForSequentialLoop_eq:
  "updatedForSequentialLoop loop acc = next_iteration_access loop acc"
  by (cases acc; cases "touched acc")
     (auto simp: updatedForSequentialLoop_def next_iteration_access_def shift_touched_def
           plus_one_def next_iteration_def Let_def)

lemma next_iteration_access_type:
  "next_iteration_access loop acc = Inr shifted \<Longrightarrow> acc_type shifted = acc_type acc"
  by (auto simp: next_iteration_access_def split: if_splits sum.splits)

lemma FindConflict_nothing: "FindConflict pe [] e loop_carry = Inr False"
  by (simp add: FindConflict_def)

lemma pass2_accesses_eq:
  "pass2_accesses pe loop accs reads writes = carry_test_accesses pe loop accs reads writes"
proof (induction accs arbitrary: reads writes)
  case Nil
  show ?case by simp
next
  case (Cons a accs)
  show ?case
  proof (cases "next_iteration_access loop a")
    case (Inl err)
    then show ?thesis by (simp add: updatedForSequentialLoop_eq)
  next
    case (Inr shifted)
    from next_iteration_access_type [OF Inr] have t: "acc_type shifted = acc_type a" .
    show ?thesis
      by (cases "acc_type a")
         (simp_all add: updatedForSequentialLoop_eq Inr t Cons.IH opposite_kind_def
            FindConflict_nothing split: sum.splits bool.splits)
  qed
qed

text \<open>
  C4. The loop-carry pass over a loop body is the test, in loop-carried mode, of every
  fact of the body against the accumulated set of the opposite kind, in which, when the
  loop is serial, the fact is first shifted: both bounds of its touched interval have
  the loop variable replaced by the loop variable plus one. When the loop is not serial
  the fact is tested as it is. This holds for every body; in a serial loop a fact
  without an interval (a sync fact) stops the pass, because the shift reads its bounds.
\<close>

theorem pass2_tests_next_iteration:
  "pass2 pe loop seq syncs reads writes = carry_test pe loop seq syncs reads writes"
proof (induction seq arbitrary: reads writes)
  case Nil
  show ?case by simp
next
  case (Cons s seq)
  show ?case
    by (simp add: pass2_accesses_eq Cons.IH split: sum.splits prod.splits)
qed


theorem pass2_tests_next_iteration_witness:
  "pass2 ex_env ex_loop ex_loop_body {}
     [ex_point_access kRead (VarNode ex_loop_var)]
     [ex_point_access kWrite (VarNode ex_loop_var)] = Inr {0} \<and>
   pass2 ex_env ex_parallel_loop ex_loop_body {}
     [ex_point_access kRead (VarNode ex_loop_var)]
     [ex_point_access kWrite (VarNode ex_loop_var)] = Inr {}"
proof -
  have "carry_test ex_env ex_loop ex_loop_body {}
     [ex_point_access kRead (VarNode ex_loop_var)]
     [ex_point_access kWrite (VarNode ex_loop_var)] = Inr {0}"
    by code_simp
  moreover have "carry_test ex_env ex_parallel_loop ex_loop_body {}
     [ex_point_access kRead (VarNode ex_loop_var)]
     [ex_point_access kWrite (VarNode ex_loop_var)] = Inr {}"
    by code_simp
  ultimately show ?thesis
    using pass2_tests_next_iteration [of ex_env ex_loop ex_loop_body "{}"
        "[ex_point_access kRead (VarNode ex_loop_var)]"
        "[ex_point_access kWrite (VarNode ex_loop_var)]"]
      pass2_tests_next_iteration [of ex_env ex_parallel_loop ex_loop_body "{}"
        "[ex_point_access kRead (VarNode ex_loop_var)]"
        "[ex_point_access kWrite (VarNode ex_loop_var)]"]
    by simp
qed

text \<open>
  In the serial example loop the write at \<open>i\<close> is tested as a write at \<open>i + 1\<close>. A
  sync fact in the body stops the pass of the serial loop and empties the accumulated
  sets in the parallel loop.
\<close>

lemma pass2_shifted_write:
  "pass2_accesses ex_env ex_loop [ex_point_access kWrite (VarNode ex_loop_var)]
     [ex_point_access kRead (VarNode ex_loop_var)] [] =
   (case FindConflict ex_env [ex_point_access kRead (VarNode ex_loop_var)]
           (ex_point_access kWrite
              (BinaryNode AddOp (VarNode ex_loop_var) (IntImmNode Int32 1))) True of
      Inl err \<Rightarrow> Inl err
    | Inr found \<Rightarrow> Inr (found, [ex_point_access kRead (VarNode ex_loop_var)], []))"
  by code_simp

lemma pass2_sync_fact:
  "pass2 ex_env ex_loop ex_sync_body {}
     [ex_point_access kRead (VarNode ex_loop_var)]
     [ex_point_access kWrite (VarNode ex_loop_var)] = Inl (Fatal ''Check failed: s_int'') \<and>
   pass2 ex_env ex_parallel_loop ex_sync_body {}
     [ex_point_access kRead (VarNode ex_loop_var)]
     [ex_point_access kWrite (VarNode ex_loop_var)] = Inr {}"
  by code_simp

subsection \<open>The summary\<close>

lemma compress_trace_append:
  "compress_trace es (t @ u) st = compress_trace es u (compress_trace es t st)"
  by (induction es t st rule: compress_trace.induct) auto

lemma compress_accesses_trace:
  "compress_accesses es accs st =
   compress_trace es (map (\<lambda>a. if acc_type a = kSync then SyncPoint else Access a) accs) st"
  by (induction es accs st rule: compress_accesses.induct) (auto split: prod.splits)

lemma compress_seq_trace:
  "compress_seq syncs es seq st = compress_trace es (sync_trace syncs seq) st"
  by (induction syncs es seq st rule: compress_seq.induct)
     (simp_all add: sync_trace_def compress_trace_append compress_accesses_trace)

lemma entries_append: "entries (t @ u) = entries t @ entries u"
  by (induction t rule: entries.induct) auto

lemma entries_rev: "entries (rev t) = rev (entries t)"
  by (induction t rule: entries.induct) (auto simp: entries_append)

lemma takeWhile_no_sync:
  "SyncPoint \<notin> set t \<Longrightarrow>
   takeWhile (\<lambda>e. e \<noteq> SyncPoint) (rev t @ u) = rev t @ takeWhile (\<lambda>e. e \<noteq> SyncPoint) u"
  by (rule takeWhile_append2) auto

lemma after_last_sync_Cons:
  "after_last_sync (x # t) =
     (if SyncPoint \<in> set t then after_last_sync t else entries (x # t))"
proof (cases "SyncPoint \<in> set t")
  case True
  then show ?thesis by (simp add: after_last_sync_def takeWhile_append1)
next
  case False
  then show ?thesis
    by (cases x) (simp_all add: after_last_sync_def takeWhile_no_sync entries_append entries_rev)
qed

lemma compress_trace_synced:
  "n \<noteq> 0 \<Longrightarrow>
   compress_trace es t (n, h, ta) =
     (n + length (filter (\<lambda>e. e = SyncPoint) t), h,
      if SyncPoint \<in> set t then after_last_sync t else ta @ entries t)"
proof (induction t arbitrary: n ta)
  case Nil
  then show ?case by simp
next
  case (Cons x t)
  then show ?case
    by (cases x) (simp_all add: on_sync_def after_last_sync_Cons)
qed

lemma compress_trace_unsynced:
  "compress_trace es t (0, h, []) =
     (length (filter (\<lambda>e. e = SyncPoint) t),
      h @ before_first_sync t @ (if SyncPoint \<in> set t then [es] else []),
      if SyncPoint \<in> set t then after_last_sync t else [])"
proof (induction t arbitrary: h)
  case Nil
  then show ?case by (simp add: before_first_sync_def)
next
  case (Cons x t)
  then show ?case
    by (cases x)
       (simp_all add: on_sync_def compress_trace_synced before_first_sync_def after_last_sync_Cons)
qed

lemma exposed_eq:
  "exposed pe syncs seq loop =
     (case loop of
        None \<Rightarrow> summary_of_trace (esync pe) (sync_trace syncs seq)
      | Some l \<Rightarrow> map (\<lambda>e. e\<lparr>double_buffer_write := False\<rparr>)
                    (summary_of_trace (esync pe) (sync_trace syncs seq)))"
  by (simp add: exposed_def compress_seq_trace compress_trace_unsynced summary_of_trace_def
           split: option.splits)

lemma Summarize_ex_seq:
  "Summarize ex_env {} ex_seq None =
     Inr ([ex_access kWrite 20 30, esync ex_env, ex_access kRead 0 20], {1})"
  by (simp add: Summarize_def exposed_def on_sync_def FindConflict_def conflict_with_def
      ex_env_def ex_seq_def ex_access_def const_analyzer_def)

text \<open>
  C8, as amended. The summary that \<open>Summarize\<close> returns is, in program order: the accesses
  before the first sync point, kept; then, when the sequence has a sync point at all, one
  synthetic sync fact followed by the accesses after the last sync point. Accesses
  between the first and the last sync point are dropped, and however many sync points
  there are, adjacent or not, the summary holds one sync fact. For a loop body the
  double-buffer flag of every returned entry is cleared.
\<close>

theorem Summarize_summary:
  assumes "Summarize pe syncs_inserted seq loop = Inr (res, marked)"
  shows "res = (case loop of
                  None \<Rightarrow> summary_of_trace (esync pe) (sync_trace marked seq)
                | Some l \<Rightarrow> map (\<lambda>e. e\<lparr>double_buffer_write := False\<rparr>)
                              (summary_of_trace (esync pe) (sync_trace marked seq)))"
  using assms unfolding Summarize_def
  by (auto split: sum.splits option.splits prod.splits simp: exposed_eq)

theorem Summarize_summary_witness:
  "[ex_access kWrite 20 30, esync ex_env, ex_access kRead 0 20] =
     summary_of_trace (esync ex_env) (sync_trace {1} ex_seq)"
  using Summarize_summary [OF Summarize_ex_seq] by simp

text \<open>
  The claim as stated fails: in the sequence "write \<open>[20, 30]\<close>; read \<open>[0, 20]\<close>" the
  planner puts a sync before the read, and the summary still holds the write, which comes
  before that first sync.
\<close>

theorem Summarize_keeps_head_counterexample:
  "Summarize ex_env {} ex_seq None =
     Inr ([ex_access kWrite 20 30, esync ex_env, ex_access kRead 0 20], {1})"
  by (rule Summarize_ex_seq)

section \<open>Properties of the inserter\<close>

text \<open>
  C10. When the planner marks no statement (the set of sync points is empty), the
  inserter returns every statement as it is, without visiting it (its state is
  unchanged), and \<open>ThreadSync\<close> returns the function body unchanged.
\<close>

theorem ThreadSync_no_syncs_unchanged:
  assumes "sp_scope_make sp storage_scope = Inr sc"
    and "planner sp sc body = Inr {}"
  shows "ThreadSync sp body storage_scope = Inr body \<and>
         VisitStmt (inserter_env sp sc {}) s st = Inr (s, st)"
proof -
  have v: "VisitStmt (inserter_env sp sc {}) s' st' = Inr (s', st')" for s' st'
    by (simp add: inserter_env_def)
  from assms v show ?thesis
    by (simp add: ThreadSync_def)
qed

theorem ThreadSync_no_syncs_unchanged_witness:
  "ThreadSync (ex_pass {}) ex_body ''shared'' = Inr ex_body \<and>
   VisitStmt (inserter_env (ex_pass {}) \<lparr> rank = kShared, scope_tag = [] \<rparr> {}) ex_body
     (initial_inserter_state 100) = Inr (ex_body, initial_inserter_state 100)"
proof -
  have a: "sp_scope_make (ex_pass {}) ''shared'' = Inr \<lparr> rank = kShared, scope_tag = [] \<rparr>"
    by (simp add: ex_pass_def ex_scope_make_def)
  have b: "planner (ex_pass {}) \<lparr> rank = kShared, scope_tag = [] \<rparr> ex_body = Inr {}"
    by (simp add: ex_pass_def)
  show ?thesis
    by (rule ThreadSync_no_syncs_unchanged [OF a b])
qed

lemma ThreadSync_with_sync_example:
  "ThreadSync (ex_pass {2}) ex_body ''shared'' =
     Inr (SeqStmt 0
            [Store 1 ex_buffer (IntImmNode Int32 7) (VarNode ex_loop_var),
             SeqStmt 101
               [Evaluate 100 (CallNode Int32 ''tvm_storage_sync'' [StringImmNode ''shared'']
                                Intrinsic NoFunc),
                Evaluate 2 (LoadNode Int32 ex_buffer (VarNode ex_loop_var))]])"
  by (simp add: ThreadSync_def ex_pass_def ex_scope_make_def ex_body_def inserter_env_def
      initial_inserter_state_def alloc_def call_stmt_def count_access_def GetScope_def
      is_intrinsic_def)

section \<open>Properties of the constraint bridge\<close>

lemma Z3_VisitExpr_error:
    "shifts_binary e \<Longrightarrow> fst (Z3_VisitExpr e c) = Inl err \<Longrightarrow> err = cannot_convert"
  and Z3_VisitArgs_error:
    "list_all shifts_binary es \<Longrightarrow> fst (Z3_VisitArgs es c) = Inl err \<Longrightarrow> err = cannot_convert"
proof (induction e c and es c arbitrary: err and err rule: Z3_VisitExpr_Z3_VisitArgs.induct)
  case (1 v c)
  then show ?case by (simp add: memoize_def split: option.splits)
next
  case (2 v c)
  then show ?case by (simp add: memoize_def split: option.splits)
next
  case (3 t buffer_var idx c)
  then show ?case
    by (fastforce simp: memoize_def split: option.splits prod.splits sum.splits)
next
  case (4 t name args ct func c)
  show ?case
  proof (cases "is_intrinsic ct name ''shift_right''")
    case True
    with "4.prems" obtain a b rest where args: "args = a # b # rest"
      by (cases args; cases "tl args") auto
    with "4.prems" have sa: "shifts_binary a" and sb: "shifts_binary b" by auto
    show ?thesis
    proof (cases "Z3_VisitExpr a c")
      case (Pair ra c1)
      show ?thesis
      proof (cases ra)
        case (Inl e1)
        with Pair True args "4.prems" have "e1 = err" by simp
        with "4.IH"(1) [OF True args refl sa] Pair Inl show ?thesis by simp
      next
        case (Inr za)
        from "4.prems" Pair Inr True args have "fst (Z3_VisitExpr b c1) = Inl err"
          by (simp split: prod.splits sum.splits)
        then show ?thesis
          using "4.IH"(2) [OF True args refl Pair [symmetric] Inr sb] by simp
      qed
    qed
  next
    case False
    show ?thesis
    proof (cases "is_pure ct \<and> (is_int t \<or> is_uint t)")
      case pure: True
      show ?thesis
      proof (cases "z3_exprs c (CallNode t name args ct func)")
        case None
        obtain f c1 where g: "GetOrCreateZ3Fun func name (length args) c = (f, c1)"
          by (cases "GetOrCreateZ3Fun func name (length args) c")
        from "4.prems" have l: "list_all shifts_binary args" by simp
        from "4.prems" False pure None g have "fst (Z3_VisitArgs args c1) = Inl err"
          by (simp add: memoize_def split: prod.splits sum.splits)
        then show ?thesis
          using "4.IH"(3) [OF False pure None g [symmetric] l] by simp
      next
        case (Some z)
        with False pure "4.prems" show ?thesis by simp
      qed
    next
      case False2: False
      with False "4.prems" show ?thesis by simp
    qed
  qed
next
  case (5 t a c)
  then show ?case by (simp split: option.splits)
next
  case (6 a c)
  then show ?case by (fastforce split: option.splits prod.splits sum.splits)
next
  case (7 t n c)
  then show ?case by (simp split: option.splits)
next
  case (8 b x y c)
  then show ?case
    by (fastforce simp: memoize_def split: option.splits prod.splits sum.splits)
next
  case (9 cnd x y c)
  then show ?case by simp
next
  case (10 s c)
  then show ?case by simp
next
  case (11 c)
  then show ?case by simp
next
  case (12 a args c)
  then show ?case
    by (fastforce split: prod.splits sum.splits)
qed


lemma ConvertToZ3_error:
  assumes "shifts_binary e" and "fst (ConvertToZ3 z3 e an) = Inl err"
  shows "err = cannot_convert \<or> err = z3_exception"
proof (cases "Z3_VisitExpr e (converter an)")
  case (Pair r c)
  show ?thesis
  proof (cases r)
    case (Inl e1)
    with Pair assms(2) have "e1 = err" by (simp add: ConvertToZ3_def)
    with Z3_VisitExpr_error [OF assms(1), of "converter an" e1] Pair Inl show ?thesis by simp
  next
    case (Inr z)
    with Pair assms(2) show ?thesis
      by (simp add: ConvertToZ3_def split: option.splits)
  qed
qed

lemma ex_provable_converts:
  "fst (ConvertToZ3 ex_z3 ex_provable empty_analyzer) = Inr (z3_bin z3_lt (int_val 0) (int_val 1))"
  by (simp add: ConvertToZ3_def ex_provable_def empty_analyzer_def empty_converter_def
      memoize_def ex_z3_def)

lemma ex_unconvertible_fails:
  "fst (ConvertToZ3 z3 ex_unconvertible empty_analyzer) = Inl cannot_convert"
  by (simp add: ConvertToZ3_def ex_unconvertible_def empty_analyzer_def empty_converter_def
      memoize_def is_intrinsic_def is_pure_def)

text \<open>
  The antecedent is the conjunction of all recorded facts, in order, onto \<open>true\<close>; it
  builds exactly when every recorded fact is a Boolean term.
\<close>

lemma conjoin_bool:
  "is_bool_sort a \<Longrightarrow> list_all is_bool_sort es \<Longrightarrow>
   conjoin a es = Inr (foldl (z3_bin z3_and) a es)"
  by (induction es arbitrary: a) (simp_all add: z3_mk_and_def)

lemma conjoin_fails:
  "\<not> list_all is_bool_sort es \<Longrightarrow> conjoin a es = Inl z3_exception"
  by (induction es arbitrary: a) (auto simp: z3_mk_and_def)

lemma antecedent_eq:
  "list_all is_bool_sort (recorded_facts an) \<Longrightarrow>
   antecedent an = Inr (foldl (z3_bin z3_and) (bool_val True) (recorded_facts an))"
proof -
  assume a: "list_all is_bool_sort (recorded_facts an)"
  have b: "is_bool_sort (foldl (z3_bin z3_and) x es)" if "is_bool_sort x" for x es
    using that by (induction es arbitrary: x) simp_all
  from a show ?thesis
    by (simp add: antecedent_def recorded_facts_def conjoin_bool b)
qed

lemma antecedent_fails:
  "\<not> list_all is_bool_sort (recorded_facts an) \<Longrightarrow> antecedent an = Inl z3_exception"
  by (cases "list_all is_bool_sort (concat (map snd (var_constraints an)))")
     (auto simp: antecedent_def recorded_facts_def conjoin_bool conjoin_fails)

lemma Z3_CanProve_raises:
  "\<not> list_all is_bool_sort (recorded_facts an) \<Longrightarrow>
   Z3_CanProve z3 cond an = (Inl z3_exception, an)"
  by (simp add: Z3_CanProve_def antecedent_fails)

text \<open>
  When every recorded fact is a Boolean term (and the right shifts of the condition have
  their two operands), \<open>CanProve\<close> returns an answer, and the answer is true exactly
  when the condition converts to a Boolean term, the implication "the conjunction of all
  recorded range facts and all general facts implies the condition" simplifies, and the
  check of its negation, with a time budget of 100 ms, answers unsatisfiable. A failed
  conversion, an exception of the procedure inside the handler, and the answers unknown
  (which is what a timeout gives) and satisfiable all give false.
\<close>

lemma Z3_CanProve_contract:
  assumes s: "shifts_binary cond" and f: "list_all is_bool_sort (recorded_facts an)"
  shows "fst (Z3_CanProve z3 cond an) =
     Inr (\<exists>c p. fst (ConvertToZ3 z3 cond an) = Inr c \<and> is_bool_sort c \<and>
            z3_simplify z3
              (z3_implies (foldl (z3_bin z3_and) (bool_val True) (recorded_facts an)) c) = Some p \<and>
            z3_check z3 100 [z3_not p] = Some unsat)"
proof (cases "ConvertToZ3 z3 cond an")
  case (Pair r an1)
  have bt: "is_bool_sort (foldl (z3_bin z3_and) (bool_val True) (recorded_facts an))"
  proof -
    have "is_bool_sort (foldl (z3_bin z3_and) x es)" if "is_bool_sort x" for x es
      using that by (induction es arbitrary: x) simp_all
    then show ?thesis by simp
  qed
  show ?thesis
  proof (cases r)
    case (Inl err)
    with ConvertToZ3_error [OF s, of z3 an err] Pair
    have "err = cannot_convert \<or> err = z3_exception" by simp
    with Pair Inl show ?thesis
      by (auto simp: Z3_CanProve_def antecedent_eq [OF f] CanProve_try_def cannot_convert_def
            z3_exception_def)
  next
    case (Inr c)
    with Pair bt show ?thesis
      by (auto simp: Z3_CanProve_def antecedent_eq [OF f] CanProve_try_def z3_mk_implies_def
            z3_exception_def timeout_ms_def split: option.splits)
  qed
qed

text \<open>
  With the range of \<open>i\<close> bound to \<open>[0, 8)\<close> and the fact \<open>i \<ge> 2\<close> added, the condition
  \<open>i < 8\<close> is proved by a procedure that refutes only the negation of the implication
  from these three facts; the same procedure does not prove it for the analyzer without
  the facts.
\<close>

lemma Z3_CanProve_with_facts:
  "recorded_facts ex_bound_analyzer =
     [z3_bin z3_ge (int_const ''i0'') (int_val 0),
      z3_bin z3_lt (int_const ''i0'') (z3_bin z3_add (int_val 0) (int_val 8)),
      z3_bin z3_ge (int_const ''i0'') (int_val 2)] \<and>
   fst (Z3_CanProve ex_z3_facts (BinaryNode LTOp (VarNode ex_loop_var) (IntImmNode Int32 8))
          ex_bound_analyzer) = Inr True \<and>
   fst (Z3_CanProve ex_z3_facts (BinaryNode LTOp (VarNode ex_loop_var) (IntImmNode Int32 8))
          empty_analyzer) = Inr False"
  by code_simp

text \<open>
  C3. \<open>CanProve\<close> conjoins the recorded facts before it enters its handler. The fact
  \<open>flag\<close>, a variable of Boolean type, is accepted by \<open>AddConstraint\<close> and recorded as
  the integer constant that the converter makes of every variable. From then on
  \<open>CanProve\<close> ends with the procedure's exception instead of an answer, for a condition
  that does not convert as for one that is provable; on the analyzer without the fact it
  answers false and true. \<open>Update\<close>, which builds its comparisons inside its handler,
  still returns on the analyzer with the fact.
\<close>

theorem CanProve_surfaces_exception:
  "is_bool (dtype_of (VarNode ex_flag)) \<and>
   fst (AddConstraint ex_z3 (VarNode ex_flag) empty_analyzer) = Inr () \<and>
   recorded_facts (snd (AddConstraint ex_z3 (VarNode ex_flag) empty_analyzer)) =
     [int_const ''flag0''] \<and>
   fst (Z3_CanProve ex_z3 ex_unconvertible
          (snd (AddConstraint ex_z3 (VarNode ex_flag) empty_analyzer))) = Inl z3_exception \<and>
   fst (Z3_CanProve ex_z3 ex_provable
          (snd (AddConstraint ex_z3 (VarNode ex_flag) empty_analyzer))) = Inl z3_exception \<and>
   fst (Z3_CanProve ex_z3 ex_unconvertible empty_analyzer) = Inr False \<and>
   fst (Z3_CanProve ex_z3 ex_provable empty_analyzer) = Inr True \<and>
   fst (Update_bounds ex_z3 ex_flag (IntImmNode Int32 0) (IntImmNode Int32 1) False
          (snd (AddConstraint ex_z3 (VarNode ex_flag) empty_analyzer))) = Inr ()"
  by code_simp

text \<open>
  C5. \<open>AddConstraint\<close> and \<open>AddForallConstraint\<close> convert the fact outside any handler.
  For the boolean fact \<open>i < rand()\<close>, which the converter rejects, both end with the
  converter's exception instead of returning; \<open>Update\<close>, given the same call as a bound,
  catches it and returns.
\<close>

theorem AddConstraint_propagates_error:
  "fst (AddConstraint z3 ex_unconvertible empty_analyzer) = Inl cannot_convert \<and>
   fst (AddForallConstraint z3 [ex_loop_var] ex_unconvertible empty_analyzer) =
     Inl cannot_convert \<and>
   is_bool (dtype_of ex_unconvertible) \<and>
   fst (Update_bounds z3 ex_loop_var (CallNode Int32 ''rand'' [] Extern NoFunc)
          (IntImmNode Int32 8) False empty_analyzer) = Inr ()"
proof (intro conjI)
  show "is_bool (dtype_of ex_unconvertible)"
    by (simp add: ex_unconvertible_def is_compare_def is_bool_def Bool1_def)
  then show "fst (AddConstraint z3 ex_unconvertible empty_analyzer) = Inl cannot_convert"
    using ex_unconvertible_fails [of z3]
    by (cases "ConvertToZ3 z3 ex_unconvertible empty_analyzer")
       (simp add: AddConstraint_def ex_unconvertible_def)
  show "fst (AddForallConstraint z3 [ex_loop_var] ex_unconvertible empty_analyzer) =
     Inl cannot_convert"
    using ex_unconvertible_fails [of z3]
    by (cases "ConvertToZ3 z3 ex_unconvertible empty_analyzer")
       (simp add: AddForallConstraint_def)
  show "fst (Update_bounds z3 ex_loop_var (CallNode Int32 ''rand'' [] Extern NoFunc)
          (IntImmNode Int32 8) False empty_analyzer) = Inr ()"
    by (simp add: Update_bounds_def ConvertToZ3_def empty_analyzer_def empty_converter_def
        is_intrinsic_def is_pure_def cannot_convert_def)
qed

section \<open>Properties of the layout rewriter\<close>

lemma new_scan_op_ex:
  "new_scan_op ex_compute_ops 1 ex_scan_op [op_output 3 0] [op_output 5 0] [op_output 6 0] =
     Inr (ex_scan_op\<lparr> op_name := ''s.d'', scan_update := [op_output 5 0],
                      state_placeholder := [op_output 6 0],
                      spatial_dimensions' := [ex_dim], spatial_axis' := [ex_iv] \<rparr>)"
  by (simp add: new_scan_op_def ex_scan_op_def ex_compute_ops_def op_output_def ex_dim_map_def)

lemma new_conditional_op_ex:
  "new_conditional_op ex_compute_ops 1 ex_conditional_op [op_output 5 0] [op_output 3 0] =
     Inr (ex_conditional_op\<lparr> op_name := ''c.d'', then_case := [op_output 5 0],
                             cond_spatial_axis' := [ex_iv],
                             cond_spatial_dimensions' := [ex_dim] \<rparr>)"
  by (simp add: new_conditional_op_def ex_conditional_op_def ex_compute_ops_def op_output_def
      ex_dim_map_def)

text \<open>
  C6, as amended. The scan or conditional operation that the rewriter builds from
  densified sub-computations has the name of the old operation followed by \<open>.d\<close>, and
  the tag, the attributes, the explicit dimensions and the explicit loop variables of
  the old operation; its state-placeholder, update and init (or then and else) tensors
  are the new ones.
\<close>

theorem rebuilt_op_metadata:
  "(new_scan_op compute_ops n scan_op new_inits new_updates new_states = Inr r \<longrightarrow>
      op_name r = op_name scan_op @ ''.d'' \<and> op_tag r = op_tag scan_op \<and>
      op_attrs r = op_attrs scan_op \<and> explicit_dims r = explicit_dims scan_op \<and>
      explicit_loop_ivs r = explicit_loop_ivs scan_op \<and>
      scan_init r = new_inits \<and> scan_update r = new_updates \<and>
      state_placeholder r = new_states) \<and>
   (new_conditional_op compute_ops n conditional_op new_then_cases new_else_cases = Inr c \<longrightarrow>
      op_name c = op_name conditional_op @ ''.d'' \<and> op_tag c = op_tag conditional_op \<and>
      op_attrs c = op_attrs conditional_op \<and>
      cond_explicit_dims c = cond_explicit_dims conditional_op \<and>
      cond_explicit_loop_ivs c = cond_explicit_loop_ivs conditional_op \<and>
      then_case c = new_then_cases \<and> else_case c = new_else_cases)"
  by (auto simp: new_scan_op_def new_conditional_op_def split: sum.splits prod.splits)

theorem rebuilt_op_metadata_witness:
  "op_name (ex_scan_op\<lparr> op_name := ''s.d'', scan_update := [op_output 5 0],
                        state_placeholder := [op_output 6 0],
                        spatial_dimensions' := [ex_dim], spatial_axis' := [ex_iv] \<rparr>) =
     op_name ex_scan_op @ ''.d'' \<and>
   op_name (ex_conditional_op\<lparr> op_name := ''c.d'', then_case := [op_output 5 0],
                               cond_spatial_axis' := [ex_iv],
                               cond_spatial_dimensions' := [ex_dim] \<rparr>) =
     op_name ex_conditional_op @ ''.d''"
  using rebuilt_op_metadata [of ex_compute_ops 1 ex_scan_op "[op_output 3 0]" "[op_output 5 0]"
      "[op_output 6 0]" _ ex_conditional_op "[op_output 5 0]" "[op_output 3 0]"]
    new_scan_op_ex new_conditional_op_ex
  by blast

text \<open>
  The claim as stated fails on the name: rebuilding the scan named \<open>s\<close> gives an
  operation named \<open>s.d\<close>.
\<close>

theorem rebuilt_scan_name_counterexample:
  "new_scan_op ex_compute_ops 1 ex_scan_op [op_output 3 0] [op_output 5 0] [op_output 6 0] =
     Inr (ex_scan_op\<lparr> op_name := ''s.d'', scan_update := [op_output 5 0],
                      state_placeholder := [op_output 6 0],
                      spatial_dimensions' := [ex_dim], spatial_axis' := [ex_iv] \<rparr>) \<and>
   op_name ex_scan_op = ''s''"
  using new_scan_op_ex by (simp add: ex_scan_op_def)

lemma InitCache_Some:
  "InitCache sch opr = Some i \<Longrightarrow> i < length (stage_ops sch) \<and> stage_ops sch ! i = opr"
proof -
  assume "InitCache sch opr = Some i"
  then have "(opr, i) \<in> set (zip (stage_ops sch) [0..<length (stage_ops sch)])"
    unfolding InitCache_def by (metis map_of_SomeD set_rev)
  then show ?thesis
    by (auto simp: set_zip)
qed

lemma replace_readers_result:
  assumes "replace_readers env (InitCache sch0) apm old_t new_t nd od readers (sch, vmap, rvmap) =
             Inr (sch', vmap', rvmap')"
    and "distinct readers"
    and "length (stage_ops sch) = length (stage_ops sch0)"
    and "\<forall>opr \<in> set readers. \<forall>i. InitCache sch0 opr = Some i \<longrightarrow> stage_ops sch ! i = opr"
  shows "length (stage_ops sch') = length (stage_ops sch0) \<and>
         (\<forall>opr \<in> set readers. \<exists>i. InitCache sch0 opr = Some i \<and>
             stage_ops sch' ! i = ReplaceInputs env opr apm new_t nd od \<and>
             vmap' (op_output opr 0) = Some (op_output (ReplaceInputs env opr apm new_t nd od) 0)) \<and>
         (\<forall>i. (\<forall>opr \<in> set readers. InitCache sch0 opr \<noteq> Some i) \<longrightarrow>
              stage_ops sch' ! i = stage_ops sch ! i) \<and>
         (\<forall>t. (\<forall>opr \<in> set readers. t \<noteq> op_output opr 0) \<longrightarrow> vmap' t = vmap t)"
  using assms
proof (induction readers arbitrary: sch vmap rvmap)
  case Nil
  then show ?case by simp
next
  case (Cons opr readers)
  from Cons.prems(1) obtain i where i: "InitCache sch0 opr = Some i"
    by (auto split: option.splits)
  from InitCache_Some [OF i] have il: "i < length (stage_ops sch0)" and io: "stage_ops sch0 ! i = opr"
    by auto
  from Cons.prems(4) i have cur: "stage_ops sch ! i = opr" by simp
  let ?repl = "ReplaceInputs env opr apm new_t nd od"
  let ?sch1 = "sch\<lparr>stage_ops := (stage_ops sch)[i := ?repl]\<rparr>"
  let ?vmap1 = "vmap(op_output opr 0 \<mapsto> op_output ?repl 0)"
  let ?rvmap1 = "rvmap(op_output ?repl 0 \<mapsto> op_output opr 0)"
  from Cons.prems(1) i cur
  have rest: "replace_readers env (InitCache sch0) apm old_t new_t nd od readers
                 (?sch1, ?vmap1, ?rvmap1) = Inr (sch', vmap', rvmap')"
    by (auto simp: Let_def split: if_splits)
  from Cons.prems(2) have d: "distinct readers" and notin: "opr \<notin> set readers" by auto
  have other: "InitCache sch0 opr' \<noteq> Some i" if "opr' \<in> set readers" for opr'
  proof
    assume "InitCache sch0 opr' = Some i"
    from InitCache_Some [OF this] io have "opr' = opr" by simp
    with that notin show False by simp
  qed
  have len1: "length (stage_ops ?sch1) = length (stage_ops sch0)"
    using Cons.prems(3) by simp
  have pre: "\<forall>opr' \<in> set readers. \<forall>j. InitCache sch0 opr' = Some j \<longrightarrow> stage_ops ?sch1 ! j = opr'"
  proof (intro ballI allI impI)
    fix opr' j
    assume m: "opr' \<in> set readers" and j: "InitCache sch0 opr' = Some j"
    from other [OF m] j have "j \<noteq> i" by auto
    with Cons.prems(4) m j show "stage_ops ?sch1 ! j = opr'" by simp
  qed
  note ih = Cons.IH [OF rest d len1 pre]
  from ih have a: "length (stage_ops sch') = length (stage_ops sch0)" by blast
  from ih have b: "\<forall>opr' \<in> set readers. \<exists>j. InitCache sch0 opr' = Some j \<and>
             stage_ops sch' ! j = ReplaceInputs env opr' apm new_t nd od \<and>
             vmap' (op_output opr' 0) = Some (op_output (ReplaceInputs env opr' apm new_t nd od) 0)"
    by blast
  from ih have c: "\<forall>j. (\<forall>opr' \<in> set readers. InitCache sch0 opr' \<noteq> Some j) \<longrightarrow>
              stage_ops sch' ! j = stage_ops ?sch1 ! j"
    by blast
  from ih have e: "\<forall>t. (\<forall>opr' \<in> set readers. t \<noteq> op_output opr' 0) \<longrightarrow> vmap' t = ?vmap1 t"
    by blast
  from c other have "stage_ops sch' ! i = stage_ops ?sch1 ! i" by blast
  with il Cons.prems(3) have si: "stage_ops sch' ! i = ?repl" by simp
  from notin have "\<forall>opr' \<in> set readers. op_output opr 0 \<noteq> op_output opr' 0"
    by (auto simp: op_output_def)
  with e have vi: "vmap' (op_output opr 0) = Some (op_output ?repl 0)" by simp
  have c': "\<forall>j. (\<forall>opr' \<in> set (opr # readers). InitCache sch0 opr' \<noteq> Some j) \<longrightarrow>
              stage_ops sch' ! j = stage_ops sch ! j"
  proof (intro allI impI)
    fix j
    assume h: "\<forall>opr' \<in> set (opr # readers). InitCache sch0 opr' \<noteq> Some j"
    with i have "j \<noteq> i" by auto
    moreover from h c have "stage_ops sch' ! j = stage_ops ?sch1 ! j" by simp
    ultimately show "stage_ops sch' ! j = stage_ops sch ! j" by simp
  qed
  have e': "\<forall>t. (\<forall>opr' \<in> set (opr # readers). t \<noteq> op_output opr' 0) \<longrightarrow> vmap' t = vmap t"
    using e by simp
  from a b c' e' i si vi show ?case by simp
qed

text \<open>
  C7. With the stage of the old tensor switched to the dense operation, the readers of
  the old tensor taken from the feed graph and their access patterns collected: when
  there is more than one pattern the replacement fails with the diagnostic that names
  the old tensor; when there is exactly one it goes on to the loop over the readers and
  the data-flow substitution, and when that loop ends without a fatal check every reader
  has been replaced (the readers of the feed graph being distinct operations).
\<close>

theorem densify_single_pattern_only:
  assumes "sch1 = sch\<lparr>stage_ops := (stage_ops sch)[s := tensor_op new_tensor]\<rparr>"
    and "GetFeedGraph env sch1 old_tensor = Some readers"
    and "AccessPatternCollector env old_tensor old_dims readers = (patterns, apm)"
  shows "(1 < length patterns \<longrightarrow>
            ReplaceIndexTensorByDenseTensor env sch s old_tensor new_tensor old_dims new_dims =
              Inl (Fatal (''Tensor dense indexing suported for single access pattern tensors '' @
                          tensor_str env old_tensor))) \<and>
         (length patterns = 1 \<longrightarrow>
            ReplaceIndexTensorByDenseTensor env sch s old_tensor new_tensor old_dims new_dims =
              (case replace_readers env (InitCache sch1) apm old_tensor new_tensor new_dims
                      old_dims readers (sch1, (\<lambda>_. None), (\<lambda>_. None)) of
                 Inl err \<Rightarrow> Inl err
               | Inr (sch2, vmap, rvmap) \<Rightarrow> Inr (ReplaceDataFlow env sch2 vmap rvmap)) \<and>
            (distinct readers \<longrightarrow>
               (\<forall>sch2 vmap rvmap.
                  replace_readers env (InitCache sch1) apm old_tensor new_tensor new_dims
                      old_dims readers (sch1, (\<lambda>_. None), (\<lambda>_. None)) = Inr (sch2, vmap, rvmap) \<longrightarrow>
                  readers_replaced env sch1 readers apm new_tensor new_dims old_dims sch2 vmap)))"
proof (intro conjI impI allI)
  assume "1 < length patterns"
  with assms show "ReplaceIndexTensorByDenseTensor env sch s old_tensor new_tensor old_dims new_dims =
              Inl (Fatal (''Tensor dense indexing suported for single access pattern tensors '' @
                          tensor_str env old_tensor))"
    by (simp add: ReplaceIndexTensorByDenseTensor_def single_pattern_message_def Let_def)
next
  assume "length patterns = 1"
  with assms show "ReplaceIndexTensorByDenseTensor env sch s old_tensor new_tensor old_dims new_dims =
              (case replace_readers env (InitCache sch1) apm old_tensor new_tensor new_dims
                      old_dims readers (sch1, (\<lambda>_. None), (\<lambda>_. None)) of
                 Inl err \<Rightarrow> Inl err
               | Inr (sch2, vmap, rvmap) \<Rightarrow> Inr (ReplaceDataFlow env sch2 vmap rvmap))"
    by (simp add: ReplaceIndexTensorByDenseTensor_def Let_def)
next
  fix sch2 vmap rvmap
  assume d: "distinct readers"
    and r: "replace_readers env (InitCache sch1) apm old_tensor new_tensor new_dims
              old_dims readers (sch1, (\<lambda>_. None), (\<lambda>_. None)) = Inr (sch2, vmap, rvmap)"
  have "\<forall>opr \<in> set readers. \<forall>i. InitCache sch1 opr = Some i \<longrightarrow> stage_ops sch1 ! i = opr"
    using InitCache_Some by blast
  from replace_readers_result [OF r d refl this]
  have "\<forall>opr \<in> set readers. \<exists>i. InitCache sch1 opr = Some i \<and>
             stage_ops sch2 ! i = ReplaceInputs env opr apm new_tensor new_dims old_dims \<and>
             vmap (op_output opr 0) =
               Some (op_output (ReplaceInputs env opr apm new_tensor new_dims old_dims) 0)"
    by blast
  then show "readers_replaced env sch1 readers apm new_tensor new_dims old_dims sch2 vmap"
    unfolding readers_replaced_def using InitCache_Some by blast
qed

theorem densify_single_pattern_only_witness:
  "ReplaceIndexTensorByDenseTensor (ex_layout_env 2) ex_schedule 0 (op_output 10 0)
     (op_output 20 0) [] [] =
     Inl (Fatal ''Tensor dense indexing suported for single access pattern tensors T10'') \<and>
   ReplaceIndexTensorByDenseTensor (ex_layout_env 1) ex_schedule 0 (op_output 10 0)
     (op_output 20 0) [] [] = Inr \<lparr> stage_ops = [20, 111, 112] \<rparr>"
proof
  have "GetFeedGraph (ex_layout_env 2)
          (ex_schedule\<lparr>stage_ops := (stage_ops ex_schedule)[0 := tensor_op (op_output 20 0)]\<rparr>)
          (op_output 10 0) = Some [11, 12]"
    and "AccessPatternCollector (ex_layout_env 2) (op_output 10 0) [] [11, 12] = ([0, 1], [])"
    by (simp_all add: ex_layout_env_def upt_rec)
  from densify_single_pattern_only [OF refl this, of "[]"]
  show "ReplaceIndexTensorByDenseTensor (ex_layout_env 2) ex_schedule 0 (op_output 10 0)
     (op_output 20 0) [] [] =
     Inl (Fatal ''Tensor dense indexing suported for single access pattern tensors T10'')"
    by (simp add: ex_layout_env_def op_output_def)
next
  have "GetFeedGraph (ex_layout_env 1)
          (ex_schedule\<lparr>stage_ops := (stage_ops ex_schedule)[0 := tensor_op (op_output 20 0)]\<rparr>)
          (op_output 10 0) = Some [11, 12]"
    and "AccessPatternCollector (ex_layout_env 1) (op_output 10 0) [] [11, 12] = ([0], [])"
    by (simp_all add: ex_layout_env_def)
  from densify_single_pattern_only [OF refl this, of "[]"]
  show "ReplaceIndexTensorByDenseTensor (ex_layout_env 1) ex_schedule 0 (op_output 10 0)
     (op_output 20 0) [] [] = Inr \<lparr> stage_ops = [20, 111, 112] \<rparr>"
    by (simp add: ex_layout_env_def op_output_def ex_schedule_def InitCache_def upt_rec)
qed

section \<open>Properties of the loop-nest builder\<close>

subsection \<open>The work list only adds value bindings\<close>

lemma lets_added_refl: "lets_added i st st"
  by (simp add: lets_added_def)

lemma lets_added_trans: "lets_added i a b \<Longrightarrow> lets_added i b c \<Longrightarrow> lets_added i a c"
  unfolding lets_added_def
  by (elim conjE exE) (auto simp: list_all_append)

lemma emplace_back_nth:
  "level < length (nest st) \<Longrightarrow> nest (emplace_back level stmts st) ! level = nest st ! level @ stmts"
  "l \<noteq> level \<Longrightarrow> nest (emplace_back level stmts st) ! l = nest st ! l"
  "length (nest (emplace_back level stmts st)) = length (nest st)"
  "value_map (emplace_back level stmts st) = value_map st"
  "next_var (emplace_back level stmts st) = next_var st"
  "dep_count (emplace_back level stmts st) = dep_count st"
  by (simp_all add: emplace_back_def)

lemma cascade_step_lets_added:
  "i + 1 < length (nest st) \<Longrightarrow> lets_added i st (snd (cascade_step env stage i dis (gen, st)))"
proof (induction dis arbitrary: gen st)
  case Nil
  then show ?case by (simp add: lets_added_refl)
next
  case (Cons di dis)
  let ?v = "iv_var (di_iv di)"
  show ?case
  proof (cases "dep_count st ?v")
    case None
    with Cons show ?thesis by simp
  next
    case (Some c)
    consider "c = 1" | "1 < c" | "c < 1" by linarith
    then show ?thesis
    proof cases
      case 1
      let ?s = "NestLet ?v (substitute env (di_ufun di)
                  (map (\<lambda>d. VarNode (iv_var (GetIterVarFromDim stage d))) (dimensions (di_ufun di)))
                  (dimensions (di_ufun di)))"
      let ?st1 = "(emplace_back (i + 1) [?s] st)\<lparr>generated_index_vars := insert ?v (generated_index_vars st)\<rparr>"
      have a: "lets_added i st ?st1"
        using Cons.prems by (simp add: lets_added_def emplace_back_nth is_let_def)
      have "i + 1 < length (nest ?st1)" using Cons.prems by (simp add: emplace_back_nth)
      from Cons.IH [OF this] have "lets_added i ?st1 (snd (cascade_step env stage i dis (gen @ [?v], ?st1)))" .
      with a Some 1 show ?thesis
        by (simp add: Let_def) (rule lets_added_trans)
    next
      case 2
      let ?st1 = "st\<lparr>dep_count := (dep_count st)(?v \<mapsto> c - 1)\<rparr>"
      have a: "lets_added i st ?st1" by (simp add: lets_added_def)
      have "i + 1 < length (nest ?st1)" using Cons.prems by simp
      from Cons.IH [OF this] have "lets_added i ?st1 (snd (cascade_step env stage i dis (gen, ?st1)))" .
      with a Some 2 show ?thesis
        by (simp add: Let_def) (rule lets_added_trans)
    next
      case 3
      with Some Cons show ?thesis by simp
    qed
  qed
qed



subsection \<open>The entries of one leaf loop variable\<close>













subsection \<open>The indexer accepts loop dimensions only\<close>

lemma not_fun_is_loop: "\<not> isFunDim d \<Longrightarrow> isLoopDim d"
  by (cases "dim_type d") (simp_all add: isFunDim_def isLoopDim_def)

lemma index_leaf_loop_no_index_vars:
  "index_leaf_loop dom_map root_vars already lvs (idx, root) = Inr (idx', root') \<Longrightarrow>
   \<forall>v l. idx v = Some l \<longrightarrow> l = [] \<Longrightarrow> \<forall>v l. idx' v = Some l \<longrightarrow> l = []"
proof (induction lvs arbitrary: idx root)
  case Nil
  then show ?case by simp
next
  case (Cons lv lvs)
  from Cons.prems(1) obtain r where r: "dom_map lv = Some r"
    by (auto split: option.splits)
  let ?idx = "idx(iv_var lv \<mapsto> [])"
  let ?root = "root(iv_var lv \<mapsto>
      filter (\<lambda>inp. inp \<in> root_vars \<and> inp \<notin> already) (remdups (VarCollector (extent r))))"
  from Cons.prems(1) r
  have "index_leaf_loop dom_map root_vars already lvs (?idx, ?root) = Inr (idx', root')"
    by (simp add: Let_def)
  moreover from Cons.prems(2) have "\<forall>v l. ?idx v = Some l \<longrightarrow> l = []" by simp
  ultimately show ?case by (rule Cons.IH)
qed

lemma index_dims_loop_loop_dims:
  "\<forall>d \<in> set dims. isLoopDim (di_dim d) \<Longrightarrow>
   index_dims_loop env stage G A dims (nf, dc) = (nf, dc)"
  by (induction dims) simp_all

lemma IndexLoopVarDeps_accepted:
  assumes "IndexLoopVarDeps env stage dims dom_map vm = Inr deps"
  shows "index_vars_loop_vars_are_needed_for deps = (\<lambda>_. None)"
    and "index_vars_dep_count deps = (\<lambda>_. None)"
    and "\<forall>v l. index_vars_loop_vars_depend_on deps v = Some l \<longrightarrow> l = []"
proof -
  let ?G = "iv_var ` set (leaf_iter_vars stage)"
  let ?A = "iv_var ` fst ` set vm"
  from assms have nofun: "\<forall>d \<in> set dims. \<not> isFunDim (di_dim d)"
    by (auto simp: IndexLoopVarDeps_def split: if_splits)
  then have "\<forall>d \<in> set dims. isLoopDim (di_dim d)" using not_fun_is_loop by blast
  then have e: "index_dims_loop env stage ?G ?A dims ((\<lambda>_. None), (\<lambda>_. None)) =
                  ((\<lambda>_. None), (\<lambda>_. None))"
    by (rule index_dims_loop_loop_dims)
  from assms nofun obtain idx root where
    l: "index_leaf_loop dom_map ((\<lambda>di. iv_var (di_iv di)) ` set dims) ?A (leaf_iter_vars stage)
          ((\<lambda>_. None), (\<lambda>_. None)) = Inr (idx, root)"
    and d: "deps = \<lparr> index_vars_loop_vars_depend_on = idx,
                     root_vars_loop_vars_depend_on = root,
                     index_vars_loop_vars_are_needed_for = (\<lambda>_. None),
                     index_vars_dep_count = (\<lambda>_. None) \<rparr>"
    by (auto simp: IndexLoopVarDeps_def Let_def e split: if_splits sum.splits prod.splits)
  from d show "index_vars_loop_vars_are_needed_for deps = (\<lambda>_. None)"
    and "index_vars_dep_count deps = (\<lambda>_. None)" by simp_all
  from index_leaf_loop_no_index_vars [OF l] d
  show "\<forall>v l. index_vars_loop_vars_depend_on deps v = Some l \<longrightarrow> l = []" by simp
qed

lemma IndexLoopVarDeps_refuses:
  "list_ex (\<lambda>di. isFunDim (di_dim di)) dims \<Longrightarrow>
   IndexLoopVarDeps env stage dims dom_map vm = Inl (Fatal ''Check failed: !di->dim->isFunDim()'')"
  by (auto simp: IndexLoopVarDeps_def list_ex_iff)

subsection \<open>The builder of a compute operation returns\<close>

lemma cascade_nil:
  "\<forall>w \<in> set g. nf w = None \<Longrightarrow> cascade env stage nf i g st = Some st"
proof (induction g rule: rev_induct)
  case Nil
  show ?case by (subst cascade.simps) simp
next
  case (snoc x xs)
  then have "cascade env stage nf i xs st = Some st" and "nf x = None" by simp_all
  then show ?case by (subst cascade.simps) simp
qed

lemma dependent_leaf_no_tables:
  "\<exists>r. dependent_leaf env stage dom_map nlv skip keep dep (\<lambda>_. None) i st = Some r \<and>
        (\<forall>st'. r = Inr st' \<longrightarrow>
           dep_count st' = dep_count st \<and> generated_index_vars st' = generated_index_vars st)"
  by (auto simp: dependent_leaf_def Let_def cascade_nil emplace_back_def
           split: option.splits sum.splits prod.splits)

lemma dependent_loop_no_tables:
  "\<exists>r. dependent_loop env stage dom_map nlv skip keep dep (\<lambda>_. None) is st = Some r \<and>
        (\<forall>st'. r = Inr st' \<longrightarrow>
           dep_count st' = dep_count st \<and> generated_index_vars st' = generated_index_vars st)"
proof (induction "is" arbitrary: st)
  case Nil
  show ?case by simp
next
  case (Cons i "is")
  from dependent_leaf_no_tables [of env stage dom_map nlv skip keep dep i st]
  obtain r where r: "dependent_leaf env stage dom_map nlv skip keep dep (\<lambda>_. None) i st = Some r"
    and p: "\<forall>st'. r = Inr st' \<longrightarrow>
           dep_count st' = dep_count st \<and> generated_index_vars st' = generated_index_vars st"
    by blast
  show ?case
  proof (cases r)
    case (Inl err)
    with r show ?thesis by simp
  next
    case (Inr st1)
    with Cons [of st1] r p show ?thesis by auto
  qed
qed

lemma MakeComputeOpLoopNest_returns:
  "\<exists>r. MakeComputeOpLoopNest env stage dom_map b nlv skip vm keep dims fresh = Some r \<and>
        (\<forall>st. r = Inr st \<longrightarrow> dep_count st = (\<lambda>_. None) \<and> generated_index_vars st = {})"
proof (cases "IndexLoopVarDeps env stage dims dom_map vm")
  case (Inl err)
  then show ?thesis by (simp add: MakeComputeOpLoopNest_def)
next
  case (Inr deps)
  note a = IndexLoopVarDeps_accepted [OF Inr]
  let ?init = "\<lparr> nest = resize_nest (length (leaf_iter_vars stage) + 1) [], value_map = vm,
                 generated_loop_vars = {}, generated_index_vars = {},
                 dep_count = (\<lambda>_. None), next_var = fresh \<rparr>"
  from dependent_loop_no_tables [of env stage dom_map nlv skip keep
      "index_vars_loop_vars_depend_on deps" "[b..<length (leaf_iter_vars stage)]" ?init]
  show ?thesis
    using Inr by (simp add: MakeComputeOpLoopNest_def MakeLoopNestFromDependentVars_def a(1,2))
qed




lemma MakeComputeOpLoopNest_ex:
  "(case MakeComputeOpLoopNest ex_nest_env ex_stage ex_dom_map 0 False {} [] False ex_loop_dims
           100 of
      Some (Inr st) \<Rightarrow> True | _ \<Rightarrow> False)"
  by code_simp



text \<open>
  C2, as the code has it. The dependency indexer accepts loop dimensions only. When a
  dimension given to \<open>MakeComputeOpLoopNest\<close> is a function (derived) dimension, the call
  stops on the indexer's check and builds no nest. When none is, the indexer records no
  remaining-dependency counter and no loop variable as needed for a dimension, the call
  returns, and the state it returns has no counter and no generated index variable: the
  work list has bound no derived dimension.
\<close>

theorem derived_dimensions_refused:
  "(list_ex (\<lambda>di. isFunDim (di_dim di)) dims \<longrightarrow>
      MakeComputeOpLoopNest env stage dom_map b nlv skip vm keep dims fresh =
        Some (Inl (Fatal ''Check failed: !di->dim->isFunDim()''))) \<and>
   (\<not> list_ex (\<lambda>di. isFunDim (di_dim di)) dims \<longrightarrow>
      (\<forall>deps. IndexLoopVarDeps env stage dims dom_map vm = Inr deps \<longrightarrow>
         index_vars_dep_count deps = (\<lambda>_. None) \<and>
         index_vars_loop_vars_are_needed_for deps = (\<lambda>_. None)) \<and>
      (\<exists>r. MakeComputeOpLoopNest env stage dom_map b nlv skip vm keep dims fresh = Some r \<and>
         (\<forall>st. r = Inr st \<longrightarrow> dep_count st = (\<lambda>_. None) \<and> generated_index_vars st = {})))"
  using IndexLoopVarDeps_refuses [of dims env stage dom_map vm]
    IndexLoopVarDeps_accepted(1,2) [of env stage dims dom_map vm]
    MakeComputeOpLoopNest_returns [of env stage dom_map b nlv skip vm keep dims fresh]
  by (auto simp: MakeComputeOpLoopNest_def)

theorem derived_dimensions_refused_witness:
  "list_ex (\<lambda>di. isFunDim (di_dim di)) ex_dims \<and>
   MakeComputeOpLoopNest ex_nest_env ex_stage ex_dom_map 0 False {} [] False ex_dims 100 =
     Some (Inl (Fatal ''Check failed: !di->dim->isFunDim()'')) \<and>
   \<not> list_ex (\<lambda>di. isFunDim (di_dim di)) ex_loop_dims \<and>
   generated_index_vars
     (projr (the (MakeComputeOpLoopNest ex_nest_env ex_stage ex_dom_map 0 False {} [] False
                    ex_loop_dims 100))) = {}"
proof -
  have a: "list_ex (\<lambda>di. isFunDim (di_dim di)) ex_dims"
    and b: "\<not> list_ex (\<lambda>di. isFunDim (di_dim di)) ex_loop_dims"
    by (simp_all add: ex_dims_def ex_loop_dims_def ex_derived_def ex_fun_dim_def ex_loop_dim_def
          isFunDim_def)
  from derived_dimensions_refused [of ex_dims ex_nest_env ex_stage ex_dom_map 0 False "{}" "[]"
      False 100] a
  have 1: "MakeComputeOpLoopNest ex_nest_env ex_stage ex_dom_map 0 False {} [] False ex_dims 100 =
     Some (Inl (Fatal ''Check failed: !di->dim->isFunDim()''))" by blast
  from derived_dimensions_refused [of ex_loop_dims ex_nest_env ex_stage ex_dom_map 0 False "{}"
      "[]" False 100] b
  obtain r where
    r: "MakeComputeOpLoopNest ex_nest_env ex_stage ex_dom_map 0 False {} [] False ex_loop_dims 100
          = Some r"
    and e: "\<forall>st. r = Inr st \<longrightarrow> generated_index_vars st = {}"
    by blast
  from MakeComputeOpLoopNest_ex r obtain st where "r = Inr st"
    by (auto split: sum.splits)
  with r e have "generated_index_vars
     (projr (the (MakeComputeOpLoopNest ex_nest_env ex_stage ex_dom_map 0 False {} [] False
                    ex_loop_dims 100))) = {}" by simp
  with a b 1 show ?thesis by simp
qed

text \<open>
  The claim as stated fails on every derived dimension: the function dimension \<open>d\<close> of
  the example depends on the loop variables \<open>y\<close> and \<open>z\<close>, neither generated yet, and
  the builder stops on the check instead of binding it.
\<close>

theorem derived_dimension_refused_counterexample:
  "isFunDim (di_dim ex_derived) \<and>
   dependency_leaf_vars ex_nest_env ex_stage [] ex_derived = [iv_var ex_y, iv_var ex_z] \<and>
   MakeComputeOpLoopNest ex_nest_env ex_stage ex_dom_map 0 False {} [] False ex_dims 100 =
     Some (Inl (Fatal ''Check failed: !di->dim->isFunDim()''))"
proof (intro conjI)
  show "isFunDim (di_dim ex_derived)" by code_simp
  show "dependency_leaf_vars ex_nest_env ex_stage [] ex_derived = [iv_var ex_y, iv_var ex_z]"
    by code_simp
  have "list_ex (\<lambda>di. isFunDim (di_dim di)) ex_dims" by code_simp
  from IndexLoopVarDeps_refuses [OF this]
  show "MakeComputeOpLoopNest ex_nest_env ex_stage ex_dom_map 0 False {} [] False ex_dims 100 =
     Some (Inl (Fatal ''Check failed: !di->dim->isFunDim()''))"
    by (simp add: MakeComputeOpLoopNest_def)
qed

subsection \<open>The work list on given tables\<close>

text \<open>
  \<open>MakeLoopNestFromDependentVars\<close> takes the tables as arguments. On tables that record,
  for a derived variable, a counter equal to the number of visits that the rounds of the
  leaf positions will pay it, the work list binds the variable once, in the level of the
  last position that visits it.
\<close>

lemma cascade_step_pushes:
  "set (fst (cascade_step env stage i dis (g, st))) \<subseteq> set g \<union> (\<lambda>d. iv_var (di_iv d)) ` set dis"
proof (induction dis arbitrary: g st)
  case Nil
  show ?case by simp
next
  case (Cons d dis)
  show ?case
    using Cons [of g st]
      Cons [of "g @ [iv_var (di_iv d)]"]
      Cons [of g "st\<lparr>dep_count := (dep_count st)(iv_var (di_iv d) \<mapsto> the (dep_count st (iv_var (di_iv d))) - 1)\<rparr>"]
    by (auto simp: Let_def split: option.splits)
qed

lemma cascade_single:
  assumes "\<forall>d \<in> set (needed_list nf v). nf (iv_var (di_iv d)) = None"
  shows "cascade env stage nf i [v] st =
           Some (snd (cascade_step env stage i (needed_list nf v) ([], st)))"
proof (cases "nf v")
  case None
  then show ?thesis
    by (subst cascade.simps) (simp add: needed_list_def cascade_nil)
next
  case (Some dis)
  obtain g1 st1 where c: "cascade_step env stage i dis ([], st) = (g1, st1)"
    by (cases "cascade_step env stage i dis ([], st)")
  from cascade_step_pushes [of env stage i dis "[]" st] c assms Some
  have "\<forall>w \<in> set g1. nf w = None" by (auto simp: needed_list_def)
  from cascade_nil [OF this] c Some show ?thesis
    by (subst cascade.simps) (simp add: needed_list_def)
qed

lemma bindings_of_append:
  "bindings_of dv (xs @ ys) = bindings_of dv xs + bindings_of dv ys"
  by (simp add: bindings_of_def)

lemma cascade_step_counts:
  assumes "dep_count st dv = Some c" and "1 \<le> c"
    and "int (length (filter (\<lambda>d. iv_var (di_iv d) = dv) dis)) \<le> c"
    and "i + 1 < length (nest st)"
  shows "dep_count (snd (cascade_step env stage i dis (g, st))) dv =
           Some (if int (length (filter (\<lambda>d. iv_var (di_iv d) = dv) dis)) = c then 1
                 else c - int (length (filter (\<lambda>d. iv_var (di_iv d) = dv) dis))) \<and>
         bindings_of dv (nest (snd (cascade_step env stage i dis (g, st))) ! (i + 1)) =
           bindings_of dv (nest st ! (i + 1)) +
           (if int (length (filter (\<lambda>d. iv_var (di_iv d) = dv) dis)) = c then 1 else 0)"
  using assms
proof (induction dis arbitrary: g st c)
  case Nil
  then show ?case by simp
next
  case (Cons d dis)
  let ?v = "iv_var (di_iv d)"
  let ?k = "int (length (filter (\<lambda>d. iv_var (di_iv d) = dv) dis))"
  let ?s = "NestLet ?v (substitute env (di_ufun d)
              (map (\<lambda>d. VarNode (iv_var (GetIterVarFromDim stage d))) (dimensions (di_ufun d)))
              (dimensions (di_ufun d)))"
  let ?emit = "(emplace_back (i + 1) [?s] st)\<lparr>generated_index_vars := insert ?v (generated_index_vars st)\<rparr>"
  show ?case
  proof (cases "?v = dv")
    case True
    with Cons.prems have k: "?k + 1 \<le> c" by simp
    show ?thesis
    proof (cases "c = 1")
      case c1: True
      with k have k0: "?k = 0" by simp
      have "dep_count ?emit dv = Some 1" "1 \<le> (1::int)" "?k \<le> 1" "i + 1 < length (nest ?emit)"
        using Cons.prems c1 k0 by (simp_all add: emplace_back_nth)
      from Cons.IH [OF this, of "g @ [?v]"] True c1 k0 Cons.prems
      show ?thesis
        by (simp add: Let_def emplace_back_nth bindings_of_append bindings_of_def binds_def)
    next
      case False
      with Cons.prems have c2: "1 < c" by simp
      let ?dec = "st\<lparr>dep_count := (dep_count st)(?v \<mapsto> c - 1)\<rparr>"
      have "dep_count ?dec dv = Some (c - 1)" "1 \<le> c - 1" "?k \<le> c - 1" "i + 1 < length (nest ?dec)"
        using Cons.prems c2 k True by simp_all
      from Cons.IH [OF this, of g] True c2 k Cons.prems
      show ?thesis
        by (auto simp: Let_def)
    qed
  next
    case False
    with Cons.prems have k: "?k \<le> c" by simp
    show ?thesis
    proof (cases "dep_count st ?v")
      case None
      with Cons.IH [OF Cons.prems(1,2) k Cons.prems(4), of g] False show ?thesis by simp
    next
      case (Some c')
      consider "c' = 1" | "1 < c'" | "c' < 1" by linarith
      then show ?thesis
      proof cases
        case 1
        have "dep_count ?emit dv = Some c" "i + 1 < length (nest ?emit)"
          using Cons.prems by (simp_all add: emplace_back_nth)
        from Cons.IH [OF this(1) Cons.prems(2) k this(2), of "g @ [?v]"] False Some 1 Cons.prems
        show ?thesis
          by (simp add: Let_def emplace_back_nth bindings_of_append bindings_of_def binds_def)
      next
        case 2
        let ?dec = "st\<lparr>dep_count := (dep_count st)(?v \<mapsto> c' - 1)\<rparr>"
        have "dep_count ?dec dv = Some c" "i + 1 < length (nest ?dec)"
          using Cons.prems False by simp_all
        from Cons.IH [OF this(1) Cons.prems(2) k this(2), of g] False Some 2
        show ?thesis by (simp add: Let_def)
      next
        case 3
        with Cons.IH [OF Cons.prems(1,2) k Cons.prems(4), of g] False Some show ?thesis by simp
      qed
    qed
  qed
qed

lemma bindings_of_attrs:
  "bindings_of dv (map (\<lambda>x. NestAttr (f x) (g x) (h x)) xs) = 0"
  by (induction xs) (simp_all add: bindings_of_def binds_def)

lemma pragma_stmts_no_binding:
  "pragma_stmts iv a = Inr ps \<Longrightarrow> bindings_of dv ps = 0"
  by (auto simp: pragma_stmts_def bindings_of_def binds_def filter_empty_conv split: if_splits)

lemma prefetch_stmts_no_binding:
  "prefetch_stmts it_attr d = Inr ps \<Longrightarrow> bindings_of dv ps = 0"
  by (auto simp: prefetch_stmts_def bindings_of_def binds_def filter_empty_conv
           split: option.splits if_splits)

lemma leaf_entries_no_binding:
  assumes "leaf_entries nlv keep one iv bind_iv it_attr d n = Inr (stmts, v, n')"
    and "iv_var bind_iv \<noteq> dv" and "var_id dv < n"
  shows "bindings_of dv (stmts @ loop_scope_entry nlv iv) = 0 \<and> n \<le> n'"
proof (cases "thread_tag bind_iv = []")
  case True
  with assms(1) obtain ftype pragmas prefetches es where
    p: "(case it_attr of None \<Rightarrow> Inr [] | Some a \<Rightarrow> pragma_stmts iv a) = Inr pragmas"
    and q: "prefetch_stmts it_attr d = Inr prefetches"
    and l: "loop_entries keep one d (loop_var_for nlv iv bind_iv n) (aux_var_for nlv bind_iv n) ftype
              = (es, v)"
    and s: "stmts = pragmas @ es @ prefetches" and n: "n' = n + 2"
    by (auto simp: leaf_entries_def split: sum.splits prod.splits)
  from p have "bindings_of dv pragmas = 0"
    using pragma_stmts_no_binding by (cases it_attr) (auto simp: bindings_of_def)
  moreover from q have "bindings_of dv prefetches = 0" by (rule prefetch_stmts_no_binding)
  moreover have "loop_var_for nlv iv bind_iv n \<noteq> dv"
    using assms(2,3) by (auto simp: loop_var_for_def)
  with l have "bindings_of dv es = 0"
    by (auto simp: loop_entries_def bindings_of_def binds_def Let_def split: if_splits)
  moreover have "bindings_of dv (loop_scope_entry nlv iv) = 0"
    by (simp add: loop_scope_entry_def bindings_of_def binds_def)
  ultimately show ?thesis using s n by (simp add: bindings_of_append)
next
  case False
  with assms(1) show ?thesis
    by (auto simp: leaf_entries_def bindings_of_def binds_def loop_scope_entry_def
             split: if_splits)
qed

lemma dependent_leaf_round:
  assumes nfh: "\<forall>v. \<forall>d \<in> set (needed_list nf v). nf (iv_var (di_iv d)) = None"
    and len: "i + 1 < length (nest st)"
    and c: "dep_count st dv = Some c" "1 \<le> c"
    and k: "int (occurrences nf dv stage skip i) \<le> c"
    and fr: "var_id dv < next_var st" "iv_var (bind_iv_of stage (leaf_iter_vars stage ! i)) \<noteq> dv"
  shows "\<exists>r. dependent_leaf env stage dom_map nlv skip keep dep nf i st = Some r \<and>
           (\<forall>st'. r = Inr st' \<longrightarrow>
              length (nest st') = length (nest st) \<and> next_var st \<le> next_var st' \<and>
              (\<forall>l. l \<noteq> i + 1 \<longrightarrow> nest st' ! l = nest st ! l) \<and>
              dep_count st' dv =
                Some (if int (occurrences nf dv stage skip i) = c then 1
                      else c - int (occurrences nf dv stage skip i)) \<and>
              (\<exists>stmts ls. nest st' ! (i + 1) = nest st ! (i + 1) @ stmts @ ls \<and>
                 bindings_of dv stmts = 0 \<and> list_all is_let ls \<and>
                 bindings_of dv ls = (if int (occurrences nf dv stage skip i) = c then 1 else 0)))"
proof (cases "skipped True stage skip (leaf_iter_vars stage ! i)")
  case True
  then have "occurrences nf dv stage skip i = 0" by (simp add: occurrences_def)
  with True c show ?thesis
    by (auto simp: dependent_leaf_def Let_def bindings_of_def)
next
  case False
  let ?iv = "leaf_iter_vars stage ! i"
  let ?dis = "needed_list nf (iv_var ?iv)"
  let ?st1 = "st\<lparr>generated_loop_vars := insert (iv_var ?iv) (generated_loop_vars st)\<rparr>"
  from False have occ: "occurrences nf dv stage skip i =
      length (filter (\<lambda>d. iv_var (di_iv d) = dv) ?dis)"
    by (simp add: occurrences_def)
  show ?thesis
  proof (cases "dep (iv_var ?iv)")
    case None
    with False show ?thesis by (simp add: dependent_leaf_def Let_def)
  next
    case (Some idx_vars)
    let ?sat = "list_all (\<lambda>idx_var. idx_var \<in> generated_index_vars st) idx_vars"
    show ?thesis
    proof (cases "leaf_dom env stage dom_map ?sat ?iv")
      case (Inl err)
      with False Some show ?thesis by (simp add: dependent_leaf_def Let_def)
    next
      case (Inr domain)
      show ?thesis
      proof (cases "leaf_entries nlv keep (tir_Simplify env (extent domain)) ?iv
                      (bind_iv_of stage ?iv) (iter_var_attrs stage ?iv) domain (next_var st)")
        case (Inl err)
        with False Some Inr show ?thesis by (simp add: dependent_leaf_def Let_def)
      next
        case le: (Inr res)
        obtain stmts v n where res: "res = (stmts, v, n)" by (cases res)
        let ?st2 = "(emplace_back (i + 1) (stmts @ loop_scope_entry nlv ?iv) ?st1)
                      \<lparr>value_map := (?iv, v) # value_map ?st1, next_var := n\<rparr>"
        let ?st3 = "snd (cascade_step env stage i ?dis ([], ?st2))"
        from leaf_entries_no_binding [OF le [unfolded res] fr(2) fr(1)]
        have nb: "bindings_of dv (stmts @ loop_scope_entry nlv ?iv) = 0" and nn: "next_var st \<le> n"
          by simp_all
        from nfh have "\<forall>d \<in> set ?dis. nf (iv_var (di_iv d)) = None" by simp
        from cascade_single [OF this]
        have run: "dependent_leaf env stage dom_map nlv skip keep dep nf i st = Some (Inr ?st3)"
          using False Some Inr le res by (simp add: dependent_leaf_def Let_def)
        have l2: "i + 1 < length (nest ?st2)" using len by (simp add: emplace_back_nth)
        have c2: "dep_count ?st2 dv = Some c" using c by (simp add: emplace_back_nth)
        have k2: "int (length (filter (\<lambda>d. iv_var (di_iv d) = dv) ?dis)) \<le> c"
          using k occ by simp
        from cascade_step_counts [OF c2 c(2) k2 l2, of env stage "[]"]
        have dc: "dep_count ?st3 dv =
                    Some (if int (occurrences nf dv stage skip i) = c then 1
                          else c - int (occurrences nf dv stage skip i))"
          and bo: "bindings_of dv (nest ?st3 ! (i + 1)) = bindings_of dv (nest ?st2 ! (i + 1)) +
                     (if int (occurrences nf dv stage skip i) = c then 1 else 0)"
          using occ by simp_all
        from cascade_step_lets_added [OF l2, of env stage ?dis "[]"] obtain ls where
          la: "next_var ?st3 = n" "length (nest ?st3) = length (nest st)"
            "\<forall>l. l \<noteq> i + 1 \<longrightarrow> nest ?st3 ! l = nest st ! l"
            "nest ?st3 ! (i + 1) = nest st ! (i + 1) @ (stmts @ loop_scope_entry nlv ?iv) @ ls"
            "list_all is_let ls"
          using len by (auto simp: lets_added_def emplace_back_nth)
        from bo la(4) len have bl: "bindings_of dv ls =
            (if int (occurrences nf dv stage skip i) = c then 1 else 0)"
          by (simp add: bindings_of_append emplace_back_nth)
        have ex: "\<exists>stmts ls. nest ?st3 ! (i + 1) = nest st ! (i + 1) @ stmts @ ls \<and>
                 bindings_of dv stmts = 0 \<and> list_all is_let ls \<and>
                 bindings_of dv ls = (if int (occurrences nf dv stage skip i) = c then 1 else 0)"
          apply (rule exI [of _ "stmts @ loop_scope_entry nlv ?iv"])
          apply (rule exI [of _ ls])
          using la(4,5) nb bl apply simp
          done
        from la(1) nn have "next_var st \<le> next_var ?st3" by simp
        note fin = la(2) this la(3) dc ex
        from run fin show ?thesis by simp
      qed
    qed
  qed
qed

lemma bindings_per_level_round:
  assumes "length (nest st') = length (nest st)"
    and "\<forall>l. l \<noteq> j \<longrightarrow> nest st' ! l = nest st ! l"
  shows "bindings_per_level dv st' = (bindings_per_level dv st)[j := bindings_of dv (nest st' ! j)]"
proof (rule nth_equalityI)
  show "length (bindings_per_level dv st') =
          length ((bindings_per_level dv st)[j := bindings_of dv (nest st' ! j)])"
    using assms(1) by (simp add: bindings_per_level_def)
next
  fix i
  assume "i < length (bindings_per_level dv st')"
  with assms show "bindings_per_level dv st' ! i =
          (bindings_per_level dv st)[j := bindings_of dv (nest st' ! j)] ! i"
    by (cases "i = j") (simp_all add: bindings_per_level_def)
qed

lemma dropWhile_no_binding:
  "bindings_of dv xs = 0 \<Longrightarrow>
   dropWhile (\<lambda>s. \<not> binds dv s) (xs @ ys) = dropWhile (\<lambda>s. \<not> binds dv s) ys"
  by (rule dropWhile_append2) (simp add: bindings_of_def filter_empty_conv)

lemma lets_no_loop_after:
  "list_all is_let ls \<Longrightarrow> \<not> list_ex is_loop (dropWhile P ls)"
  by (auto simp: list_all_iff list_ex_iff is_let_def is_loop_def dest!: set_dropWhileD
           split: NestStmt.splits)

lemma replicate_update_same: "(replicate k x)[j := x] = replicate k x"
  by (induction k arbitrary: j) (auto split: nat.splits)

lemma no_occurrences_after:
  assumes "\<forall>q<n. 1 \<le> occurrences nf dv stage skip q \<longrightarrow> q \<le> p" and "p < a"
  shows "sum_list (map (occurrences nf dv stage skip) [a..<n]) = 0"
  using assms by (auto simp: sum_list_eq_0_iff) 

lemma emission_invariant_round:
  assumes nfh: "\<forall>v. \<forall>d \<in> set (needed_list nf v). nf (iv_var (di_iv d)) = None"
    and fr: "\<forall>iv \<in> set (leaf_iter_vars stage). iv_var (bind_iv_of stage iv) \<noteq> dv"
    and p: "p < length (leaf_iter_vars stage)" "1 \<le> occurrences nf dv stage skip p"
    and pmax: "\<forall>q<length (leaf_iter_vars stage). 1 \<le> occurrences nf dv stage skip q \<longrightarrow> q \<le> p"
    and a: "a < length (leaf_iter_vars stage)"
    and inv: "emission_invariant nf dv stage skip p a st"
  shows "\<exists>r. dependent_leaf env stage dom_map nlv skip keep dep nf a st = Some r \<and>
           (\<forall>st'. r = Inr st' \<longrightarrow> emission_invariant nf dv stage skip p (Suc a) st')"
proof -
  let ?n = "length (leaf_iter_vars stage)"
  let ?occ = "occurrences nf dv stage skip"
  from inv obtain c where
    len: "length (nest st) = ?n + 1" and nv: "var_id dv < next_var st"
    and c: "dep_count st dv = Some c"
    and ab: "(c = int (sum_list (map ?occ [a..<?n])) \<and> 1 \<le> c \<and> a \<le> p \<and>
              bindings_per_level dv st = replicate (?n + 1) 0) \<or>
             (c = 1 \<and> p < a \<and> bindings_per_level dv st = (replicate (?n + 1) 0)[p + 1 := 1] \<and>
              \<not> list_ex is_loop (dropWhile (\<lambda>s. \<not> binds dv s) (nest st ! (p + 1))))"
    by (auto simp: emission_invariant_def Let_def split: option.splits)
  have split: "sum_list (map ?occ [a..<?n]) = ?occ a + sum_list (map ?occ [Suc a..<?n])"
    using a by (simp add: upt_conv_Cons)
  have c1: "1 \<le> c" using ab by auto
  have kc: "int (?occ a) \<le> c"
  proof -
    { assume "p < a"
      with pmax a have "?occ a = 0" by (metis One_nat_def Suc_leI leD not_gr_zero)
      with c1 have ?thesis by simp }
    with ab split show ?thesis by auto
  qed
  have l1: "a + 1 < length (nest st)" using len a by simp
  have f1: "iv_var (bind_iv_of stage (leaf_iter_vars stage ! a)) \<noteq> dv" using fr a by simp
  from dependent_leaf_round [OF nfh l1 c c1 kc nv f1, of env dom_map nlv keep dep]
  obtain r where run: "dependent_leaf env stage dom_map nlv skip keep dep nf a st = Some r"
    and post: "\<forall>st'. r = Inr st' \<longrightarrow>
              length (nest st') = length (nest st) \<and> next_var st \<le> next_var st' \<and>
              (\<forall>l. l \<noteq> a + 1 \<longrightarrow> nest st' ! l = nest st ! l) \<and>
              dep_count st' dv = Some (if int (?occ a) = c then 1 else c - int (?occ a)) \<and>
              (\<exists>stmts ls. nest st' ! (a + 1) = nest st ! (a + 1) @ stmts @ ls \<and>
                 bindings_of dv stmts = 0 \<and> list_all is_let ls \<and>
                 bindings_of dv ls = (if int (?occ a) = c then 1 else 0))"
    by blast
  have "emission_invariant nf dv stage skip p (Suc a) st'" if r: "r = Inr st'" for st'
  proof -
    from post r obtain stmts ls where
      len': "length (nest st') = length (nest st)" and nv': "next_var st \<le> next_var st'"
      and other: "\<forall>l. l \<noteq> a + 1 \<longrightarrow> nest st' ! l = nest st ! l"
      and c': "dep_count st' dv = Some (if int (?occ a) = c then 1 else c - int (?occ a))"
      and lev: "nest st' ! (a + 1) = nest st ! (a + 1) @ stmts @ ls"
      and b0: "bindings_of dv stmts = 0" and lets: "list_all is_let ls"
      and bl: "bindings_of dv ls = (if int (?occ a) = c then 1 else 0)"
      by blast
    have bpl: "bindings_per_level dv st' =
        (bindings_per_level dv st)[a + 1 := bindings_per_level dv st ! (a + 1) +
                                     (if int (?occ a) = c then 1 else 0)]"
      using bindings_per_level_round [OF len' other, of dv] lev b0 bl l1
      by (simp add: bindings_of_append bindings_per_level_def)
    from ab show ?thesis
    proof
      assume A: "c = int (sum_list (map ?occ [a..<?n])) \<and> 1 \<le> c \<and> a \<le> p \<and>
                 bindings_per_level dv st = replicate (?n + 1) 0"
      show ?thesis
      proof (cases "int (?occ a) = c")
        case True
        with A split have rest: "sum_list (map ?occ [Suc a..<?n]) = 0" by simp
        have pa: "p = a"
        proof (rule ccontr)
          assume "p \<noteq> a"
          with A have "?occ p \<in> set (map ?occ [Suc a..<?n])" using p(1) by (auto intro!: imageI)
          from member_le_sum_list [OF this] rest p(2) show False by simp
        qed
        have b0': "bindings_of dv (nest st ! (a + 1)) = 0"
          using A l1 by (simp add: bindings_per_level_def list_eq_iff_nth_eq)
        have "dropWhile (\<lambda>s. \<not> binds dv s) (nest st' ! (p + 1)) = dropWhile (\<lambda>s. \<not> binds dv s) ls"
          using lev pa b0 b0' dropWhile_no_binding [of dv "nest st ! (a + 1) @ stmts" ls]
          by (simp add: bindings_of_append)
        with lets have "\<not> list_ex is_loop (dropWhile (\<lambda>s. \<not> binds dv s) (nest st' ! (p + 1)))"
          using lets_no_loop_after by simp
        with True A pa bpl c' len len' nv nv' a show ?thesis
          by (simp add: emission_invariant_def Let_def)
      next
        case False
        from False kc have pos: "1 \<le> c - int (?occ a)" by linarith
        from A split have c2: "c - int (?occ a) = int (sum_list (map ?occ [Suc a..<?n]))"
          by simp
        have "Suc a \<le> p"
        proof (rule ccontr)
          assume "\<not> Suc a \<le> p"
          with A have "p < Suc a" by simp
          from no_occurrences_after [OF pmax this]
          have z: "sum_list (map ?occ [Suc a..<?n]) = 0" .
          from c2 pos show False unfolding z by simp
        qed
        moreover have "(replicate (?n + 1) (0::nat))[a + 1 := 0] = replicate (?n + 1) 0"
          by (rule replicate_update_same)
        ultimately show ?thesis using False A bpl c' c2 pos len len' nv nv' l1 a
          by (simp add: emission_invariant_def Let_def)
      qed
    next
      assume B: "c = 1 \<and> p < a \<and> bindings_per_level dv st = (replicate (?n + 1) 0)[p + 1 := 1] \<and>
                 \<not> list_ex is_loop (dropWhile (\<lambda>s. \<not> binds dv s) (nest st ! (p + 1)))"
      with pmax a have z: "?occ a = 0" by (metis One_nat_def Suc_leI leD not_gr_zero)
      from B have c1': "c = 1" by simp
      from B other have same: "nest st' ! (p + 1) = nest st ! (p + 1)" by simp
      from bpl z c1' have "bindings_per_level dv st' =
          (bindings_per_level dv st)[a + 1 := bindings_per_level dv st ! (a + 1)]" by simp
      then have "bindings_per_level dv st' = bindings_per_level dv st"
        by (simp only: list_update_id)
      with same z B c' len len' nv nv' a show ?thesis
        by (simp add: emission_invariant_def Let_def)
    qed
  qed
  with run show ?thesis by blast
qed

lemma dependent_loop_emits:
  assumes nfh: "\<forall>v. \<forall>d \<in> set (needed_list nf v). nf (iv_var (di_iv d)) = None"
    and fr: "\<forall>iv \<in> set (leaf_iter_vars stage). iv_var (bind_iv_of stage iv) \<noteq> dv"
    and p: "p < length (leaf_iter_vars stage)" "1 \<le> occurrences nf dv stage skip p"
    and pmax: "\<forall>q<length (leaf_iter_vars stage). 1 \<le> occurrences nf dv stage skip q \<longrightarrow> q \<le> p"
  shows "a \<le> length (leaf_iter_vars stage) \<Longrightarrow> emission_invariant nf dv stage skip p a st \<Longrightarrow>
     \<exists>r. dependent_loop env stage dom_map nlv skip keep dep nf [a..<length (leaf_iter_vars stage)] st
           = Some r \<and>
         (\<forall>st'. r = Inr st' \<longrightarrow>
            emission_invariant nf dv stage skip p (length (leaf_iter_vars stage)) st')"
proof (induction "length (leaf_iter_vars stage) - a" arbitrary: a st)
  case 0
  then have "a = length (leaf_iter_vars stage)" by simp
  with 0 show ?case by simp
next
  case (Suc m)
  then have a: "a < length (leaf_iter_vars stage)" by simp
  from emission_invariant_round [OF nfh fr p pmax a Suc.prems(2), of env dom_map nlv keep dep]
  obtain r where run: "dependent_leaf env stage dom_map nlv skip keep dep nf a st = Some r"
    and post: "\<forall>st'. r = Inr st' \<longrightarrow> emission_invariant nf dv stage skip p (Suc a) st'"
    by blast
  show ?case
  proof (cases r)
    case (Inl err)
    with run a show ?thesis by (simp add: upt_conv_Cons)
  next
    case (Inr st1)
    with post have i1: "emission_invariant nf dv stage skip p (Suc a) st1" by simp
    from Suc.hyps(2) have "m = length (leaf_iter_vars stage) - Suc a" by simp
    from Suc.hyps(1) [OF this _ i1] a
    obtain r' where "dependent_loop env stage dom_map nlv skip keep dep nf
                        [Suc a..<length (leaf_iter_vars stage)] st1 = Some r'"
      and "\<forall>st'. r' = Inr st' \<longrightarrow>
             emission_invariant nf dv stage skip p (length (leaf_iter_vars stage)) st'"
      by auto
    with run Inr a show ?thesis by (simp add: upt_conv_Cons)
  qed
qed

lemma emission_invariant_final:
  assumes "emission_invariant nf dv stage skip p (length (leaf_iter_vars stage)) st"
  shows "dep_count st dv = Some 1 \<and>
         bindings_per_level dv st = (replicate (length (leaf_iter_vars stage) + 1) 0)[p + 1 := 1] \<and>
         \<not> list_ex is_loop (dropWhile (\<lambda>s. \<not> binds dv s) (nest st ! (p + 1)))"
  using assms by (auto simp: emission_invariant_def Let_def split: option.splits)

lemma MakeLoopNestFromDependentVars_binds_once:
  assumes nfh: "\<forall>v. \<forall>d \<in> set (needed_list (index_vars_loop_vars_are_needed_for deps) v).
                  index_vars_loop_vars_are_needed_for deps (iv_var (di_iv d)) = None"
    and fr: "\<forall>iv \<in> set (leaf_iter_vars stage). iv_var (bind_iv_of stage iv) \<noteq> dv"
      "var_id dv < next_var st0"
    and st0: "nest st0 = []"
    and p: "b \<le> p" "p < length (leaf_iter_vars stage)"
      "1 \<le> occurrences (index_vars_loop_vars_are_needed_for deps) dv stage skip p"
    and pmax: "\<forall>q<length (leaf_iter_vars stage).
                 1 \<le> occurrences (index_vars_loop_vars_are_needed_for deps) dv stage skip q \<longrightarrow>
                 q \<le> p"
    and c: "index_vars_dep_count deps dv =
              Some (int (sum_list (map (occurrences (index_vars_loop_vars_are_needed_for deps) dv
                                          stage skip) [b..<length (leaf_iter_vars stage)])))"
  shows "\<exists>r. MakeLoopNestFromDependentVars env stage dom_map b nlv skip keep deps st0 = Some r \<and>
           (\<forall>st. r = Inr st \<longrightarrow>
              dep_count st dv = Some 1 \<and>
              bindings_per_level dv st =
                (replicate (length (leaf_iter_vars stage) + 1) 0)[p + 1 := 1] \<and>
              \<not> list_ex is_loop (dropWhile (\<lambda>s. \<not> binds dv s) (nest st ! (p + 1))))"
proof -
  let ?n = "length (leaf_iter_vars stage)"
  let ?nf = "index_vars_loop_vars_are_needed_for deps"
  let ?occ = "occurrences ?nf dv stage skip"
  let ?init = "st0\<lparr>nest := resize_nest (?n + 1) (nest st0),
                    generated_loop_vars := {}, generated_index_vars := {},
                    dep_count := index_vars_dep_count deps\<rparr>"
  from p have "?occ p \<in> set (map ?occ [b..<?n])" by (auto intro!: imageI)
  from member_le_sum_list [OF this] p(3) have pos: "1 \<le> sum_list (map ?occ [b..<?n])" by simp
  from p have bn: "b \<le> ?n" by simp
  have inv: "emission_invariant ?nf dv stage skip p b ?init"
    using c pos p(1) fr(2) st0
    by (simp add: emission_invariant_def Let_def bindings_per_level_def bindings_of_def
          resize_nest_def)
  from dependent_loop_emits [OF nfh fr(1) p(2,3) pmax bn inv,
      of env dom_map nlv keep "index_vars_loop_vars_depend_on deps"]
  obtain r where run: "dependent_loop env stage dom_map nlv skip keep
        (index_vars_loop_vars_depend_on deps) ?nf [b..<?n] ?init = Some r"
    and post: "\<forall>st'. r = Inr st' \<longrightarrow> emission_invariant ?nf dv stage skip p ?n st'"
    by blast
  have "MakeLoopNestFromDependentVars env stage dom_map b nlv skip keep deps st0 = Some r"
    using run by (simp add: MakeLoopNestFromDependentVars_def)
  moreover have "dep_count st dv = Some 1 \<and>
              bindings_per_level dv st = (replicate (?n + 1) 0)[p + 1 := 1] \<and>
              \<not> list_ex is_loop (dropWhile (\<lambda>s. \<not> binds dv s) (nest st ! (p + 1)))"
    if "r = Inr st" for st
    using emission_invariant_final [of ?nf dv stage skip p st] post that by blast
  ultimately show ?thesis by blast
qed

lemma MakeLoopNestFromDependentVars_ex:
  "map_option (map_sum id (bindings_per_level (iv_var ex_d)))
     (MakeLoopNestFromDependentVars ex_nest_env ex_stage ex_dom_map 0 False {} False ex_tables
        ex_init) = Some (Inr [0, 0, 0, 1])"
  by code_simp

end
